theory Spec2Isabelle
  imports Main "HOL-Library.Word"
begin

section \<open>The socket unit of the manager (src/cmd/manager/socket.c)\<close>

text \<open>
  A shallow embedding of the socket unit: the \<^verbatim>\<open>Socket\<close> structure is a record, its
  enumerations are datatypes, every function that mutates the unit takes the record
  and returns the updated one. Calls that leave the file (the manager, the kernel,
  the allocator) are answered by an environment record of oracles, so that every
  branch on a return value of the source is a branch of the model. A negative
  return value \<^verbatim>\<open>-errno\<close> is \<open>Inl errno\<close>, a non-negative one is \<open>Inr\<close>.
  A failed \<^verbatim>\<open>assert\<close> aborts the manager; functions that can reach one return
  an option, \<open>None\<close> being the abort.
\<close>

subsection \<open>Enumerations\<close>

datatype SocketState =
    SOCKET_DEAD
  | SOCKET_START_PRE
  | SOCKET_START_CHOWN
  | SOCKET_START_POST
  | SOCKET_LISTENING
  | SOCKET_RUNNING
  | SOCKET_STOP_PRE
  | SOCKET_STOP_PRE_SIGTERM
  | SOCKET_STOP_PRE_SIGKILL
  | SOCKET_STOP_POST
  | SOCKET_FINAL_SIGTERM
  | SOCKET_FINAL_SIGKILL
  | SOCKET_FAILED

datatype SocketResult =
    SOCKET_SUCCESS
  | SOCKET_FAILURE_RESOURCES
  | SOCKET_FAILURE_TIMEOUT
  | SOCKET_FAILURE_EXIT_CODE
  | SOCKET_FAILURE_SIGNAL
  | SOCKET_FAILURE_CORE_DUMP
  | SOCKET_FAILURE_SERVICE_FAILED_PERMANENT

datatype SocketExecCommand =
    SOCKET_EXEC_START_PRE
  | SOCKET_EXEC_START_CHOWN
  | SOCKET_EXEC_START_POST
  | SOCKET_EXEC_STOP_PRE
  | SOCKET_EXEC_STOP_POST

datatype SocketType = SOCKET_SOCKET | SOCKET_FIFO | SOCKET_SPECIAL | SOCKET_MQUEUE

datatype UnitActiveState =
  UNIT_ACTIVE | UNIT_INACTIVE | UNIT_ACTIVATING | UNIT_DEACTIVATING | UNIT_FAILED

datatype UnitLoadState = UNIT_STUB | UNIT_LOADED | UNIT_NOT_LOADED

text \<open>The states of the paired service that socket.c tests by name.\<close>

datatype ServiceState =
    SERVICE_DEAD
  | SERVICE_RUNNING
  | SERVICE_STOP
  | SERVICE_STOP_SIGTERM
  | SERVICE_STOP_SIGKILL
  | SERVICE_STOP_POST
  | SERVICE_FINAL_SIGTERM
  | SERVICE_FINAL_SIGKILL
  | SERVICE_FAILED
  | SERVICE_AUTO_RESTART
  | SERVICE_OTHER

text \<open>
  Error numbers. Their numeric values differ between platforms and no branch of
  socket.c depends on them, only on which error it is.
\<close>

datatype errno =
  ENOMEM | ENOENT | ENOTCONN | EPERM | EAGAIN | EBUSY | EBADMSG | EINVAL | EEXIST
  | EOTHER nat

fun state_translation_table :: "SocketState \<Rightarrow> UnitActiveState" where
  "state_translation_table SOCKET_DEAD = UNIT_INACTIVE"
| "state_translation_table SOCKET_START_PRE = UNIT_ACTIVATING"
| "state_translation_table SOCKET_START_CHOWN = UNIT_ACTIVATING"
| "state_translation_table SOCKET_START_POST = UNIT_ACTIVATING"
| "state_translation_table SOCKET_LISTENING = UNIT_ACTIVE"
| "state_translation_table SOCKET_RUNNING = UNIT_ACTIVE"
| "state_translation_table SOCKET_STOP_PRE = UNIT_DEACTIVATING"
| "state_translation_table SOCKET_STOP_PRE_SIGTERM = UNIT_DEACTIVATING"
| "state_translation_table SOCKET_STOP_PRE_SIGKILL = UNIT_DEACTIVATING"
| "state_translation_table SOCKET_STOP_POST = UNIT_DEACTIVATING"
| "state_translation_table SOCKET_FINAL_SIGTERM = UNIT_DEACTIVATING"
| "state_translation_table SOCKET_FINAL_SIGKILL = UNIT_DEACTIVATING"
| "state_translation_table SOCKET_FAILED = UNIT_FAILED"

subsection \<open>The structures\<close>

text \<open>
  \<^verbatim>\<open>SocketAddress\<close>: the address family, the socket type (\<^verbatim>\<open>SOCK_STREAM\<close>, ...) and
  the raw socket address, which socket.c never inspects itself.
\<close>

datatype sa_family = AF_UNIX | AF_INET | AF_INET6 | AF_NETLINK | AF_OTHER nat

record SocketAddress =
  family :: sa_family
  sock_type :: int
  sockaddr :: string

text \<open>
  \<^verbatim>\<open>SocketPort\<close>. \<open>fd\<close> is negative when the endpoint is closed. \<open>fd_watch\<close> is
  whether the I/O watch of the port is registered with the event loop.
\<close>

record SocketPort =
  port_type :: SocketType
  fd :: int
  fd_watch :: bool
  path :: string
  address :: SocketAddress

text \<open>\<^verbatim>\<open>ExecCommand\<close>; the \<^verbatim>\<open>command_next\<close> link is the tail of the list it sits in.\<close>

record ExecCommand =
  argv :: "string list"
  ignore :: bool

text \<open>The fields of the paired \<^verbatim>\<open>Service\<close> unit that socket.c reads.\<close>

record Service =
  load_state :: UnitLoadState
  service_state :: ServiceState
  is_sysv :: bool
  has_exec_start :: bool
  no_gc :: bool

text \<open>
  \<^verbatim>\<open>Socket\<close>. \<open>control_command_id = None\<close> is \<^verbatim>\<open>_SOCKET_EXEC_COMMAND_INVALID\<close>;
  \<open>control_command\<close> is the command list from the current command on, \<open>[]\<close> being
  \<^verbatim>\<open>NULL\<close>; \<open>service = None\<close> is an unset unit reference; an empty \<open>user\<close> or
  \<open>group\<close> stands for both \<^verbatim>\<open>NULL\<close> and the empty string (\<^verbatim>\<open>isempty\<close>).
  The counters are C \<^verbatim>\<open>unsigned\<close>.

  The last four fields are not part of the C structure: they record the effects the
  functions have outside it, in order: the descriptors given to \<^verbatim>\<open>safe_close\<close>,
  the \<^verbatim>\<open>unit_notify\<close> calls, the descriptors a service took over through
  \<^verbatim>\<open>service_set_socket_fd\<close>, and the number of start jobs queued.
\<close>

record Socket =
  state :: SocketState
  deserialized_state :: SocketState
  result :: SocketResult
  accept :: bool
  n_accepted :: "32 word"
  n_connections :: "32 word"
  max_connections :: "32 word"
  control_pid :: int
  control_command_id :: "SocketExecCommand option"
  control_command :: "ExecCommand list"
  exec_command :: "SocketExecCommand \<Rightarrow> ExecCommand list"
  ports :: "SocketPort list"
  timer_watch :: bool
  user :: string
  group :: string
  send_sigkill :: bool
  service :: "Service option"
  tmp_dir :: "string option"
  var_tmp_dir :: "string option"
  closed_fds :: "int list"
  notifications :: "(UnitActiveState \<times> UnitActiveState) list"
  handed_off :: "int list"
  jobs_added :: nat

text \<open>
  The \<^verbatim>\<open>si_code\<close> of a \<^verbatim>\<open>SIGCHLD\<close>, and the address families
  \<^verbatim>\<open>instance_from_socket\<close> and \<^verbatim>\<open>socket_serialize\<close> tell apart.
\<close>

datatype sigchld_code = CLD_EXITED | CLD_KILLED | CLD_DUMPED | CLD_OTHER

text \<open>
  The union of socket addresses \<^verbatim>\<open>instance_from_socket\<close> reads, one field per view
  it takes of it: the family, the IPv4 address and port (already in host byte order),
  the sixteen bytes of the IPv6 address and its port.
\<close>

record sockaddr_union =
  sa_family :: sa_family
  sin_addr :: "32 word"
  sin_port :: "16 word"
  sin6_addr :: "8 word list"
  sin6_port :: "16 word"

subsection \<open>The environment\<close>

text \<open>
  What the functions of socket.c ask of the rest of the system. The first three
  fields are the conditional-compilation switches the modelled functions depend on.
  The others answer one call each. The endpoint constructors \<^verbatim>\<open>socket_address_listen\<close>,
  \<^verbatim>\<open>special_address_create\<close>, \<^verbatim>\<open>fifo_address_create\<close> and \<^verbatim>\<open>mq_address_create\<close>
  work on the file system and the network stack; their outcome is given per position
  of the port in the list, so that two ports with equal settings may still get
  different answers. \<^verbatim>\<open>unit_name_to_prefix\<close> is answered per call within one event
  (0 in \<^verbatim>\<open>socket_instantiate_service\<close>, 1 in \<^verbatim>\<open>socket_enter_running\<close>); \<open>None\<close>
  is the \<^verbatim>\<open>NULL\<close> of a failed allocation. \<open>fork\<close> answers in the parent.
  \<open>unit_kill_context\<close> answers \<open>Inr True\<close> when processes were signalled (a positive
  return value) and \<open>Inr False\<close> when none were left. \<open>uninitialized_r\<close> is what
  \<^verbatim>\<open>instance_from_socket\<close> finds in its unassigned buffer pointer when built
  without \<^verbatim>\<open>SO_PEERCRED\<close>. \<open>fdset_put_dup\<close> answers with the duplicate of the descriptor
  it is given; a descriptor belongs to one port, so one call of \<^verbatim>\<open>socket_serialize\<close>
  asks once per descriptor. The printing and comparing of socket addresses is
  defined in socket-util.c. Within the handling of one event \<^verbatim>\<open>socket_spawn\<close> runs at most
  once per command id and \<^verbatim>\<open>socket_enter_signal\<close> at most once per target state,
  so the answers to their calls are given per command id and per target state.
\<close>

record env =
  Use_MQ :: bool
  Have_linux_netlink_h :: bool
  HAVE_SYSV_COMPAT :: bool
  unit_stop_pending :: bool
  unit_watch_fd :: "int \<Rightarrow> errno + unit"
  unit_watch_pid :: "int \<Rightarrow> errno + unit"
  unit_watch_timer_spawn :: "SocketExecCommand option \<Rightarrow> errno + unit"
  unit_watch_timer_signal :: "SocketState \<Rightarrow> errno + unit"
  unit_full_printf_strv :: "SocketExecCommand option \<Rightarrow> ExecCommand \<Rightarrow> errno + unit"
  exec_spawn :: "SocketExecCommand option \<Rightarrow> ExecCommand \<Rightarrow> errno + int"
  fork :: "errno + int"
  unit_kill_context :: "SocketState \<Rightarrow> bool \<Rightarrow> int \<Rightarrow> errno + bool"
  socket_address_listen :: "nat \<Rightarrow> SocketPort \<Rightarrow> errno + int"
  special_address_create :: "nat \<Rightarrow> SocketPort \<Rightarrow> errno + int"
  fifo_address_create :: "nat \<Rightarrow> SocketPort \<Rightarrow> errno + int"
  mq_address_create :: "nat \<Rightarrow> SocketPort \<Rightarrow> errno + int"
  label_get_create_label_from_exe :: "errno + unit"
  unit_name_to_prefix :: "nat \<Rightarrow> string option"
  asprintf_name :: "string \<Rightarrow> 32 word \<Rightarrow> string option"
  manager_load_unit :: "string \<Rightarrow> errno + Service"
  unit_add_two_dependencies :: "errno + unit"
  is_clean_exit :: "sigchld_code \<Rightarrow> int \<Rightarrow> bool"
  triggers_active_or_pending :: bool
  manager_add_job :: "errno + unit"
  unit_name_build :: "string \<Rightarrow> string \<Rightarrow> string option"
  unit_add_name :: "string \<Rightarrow> errno + unit"
  service_set_socket_fd :: "int \<Rightarrow> errno + unit"
  SO_PEERCRED :: bool
  getsockname :: "int \<Rightarrow> errno + sockaddr_union"
  getpeername :: "int \<Rightarrow> errno + sockaddr_union"
  getsockopt_peercred :: "int \<Rightarrow> errno + nat \<times> nat"
  inet_ntop :: "8 word list \<Rightarrow> string"
  asprintf_ok :: bool
  uninitialized_r :: string
  fdset_put_dup :: "int \<Rightarrow> errno + int"
  socket_address_print :: "SocketAddress \<Rightarrow> errno + string"
  socket_address_is :: "SocketAddress \<Rightarrow> string \<Rightarrow> int \<Rightarrow> bool"
  socket_address_is_netlink :: "SocketAddress \<Rightarrow> string \<Rightarrow> bool"
  strdup_ok :: bool
  unit_watch_timer_coldplug :: "errno + unit"

subsection \<open>Control process and descriptors\<close>

text \<open>
  \<^verbatim>\<open>safe_close\<close> closes a non-negative descriptor and returns -1; the model records
  the descriptor.
\<close>

definition safe_close :: "int \<Rightarrow> int list \<Rightarrow> int list" where
  "safe_close f log = (if 0 \<le> f then log @ [f] else log)"

definition socket_unwatch_control_pid :: "Socket \<Rightarrow> Socket" where
  "socket_unwatch_control_pid s =
     (if control_pid s \<le> 0 then s else s\<lparr>control_pid := 0\<rparr>)"

text \<open>
  \<^verbatim>\<open>socket_close_fds\<close>: every port with a non-negative descriptor loses its watch and
  is closed; the others are skipped.
\<close>

fun close_ports :: "SocketPort list \<Rightarrow> int list \<Rightarrow> SocketPort list \<times> int list" where
  "close_ports [] log = ([], log)"
| "close_ports (p # ps) log =
     (if fd p < 0 then (let (ps', log') = close_ports ps log in (p # ps', log'))
      else (let (ps', log') = close_ports ps (safe_close (fd p) log)
            in (p\<lparr>fd_watch := False, fd := -1\<rparr> # ps', log')))"

definition socket_close_fds :: "Socket \<Rightarrow> Socket" where
  "socket_close_fds s =
     (let (ps, log) = close_ports (ports s) (closed_fds s)
      in s\<lparr>ports := ps, closed_fds := log\<rparr>)"

fun unwatch_ports :: "SocketPort list \<Rightarrow> SocketPort list" where
  "unwatch_ports [] = []"
| "unwatch_ports (p # ps) =
     (if fd p < 0 then p # unwatch_ports ps
      else p\<lparr>fd_watch := False\<rparr> # unwatch_ports ps)"

definition socket_unwatch_fds :: "Socket \<Rightarrow> Socket" where
  "socket_unwatch_fds s = s\<lparr>ports := unwatch_ports (ports s)\<rparr>"

text \<open>
  \<^verbatim>\<open>socket_watch_fds\<close>: the loop stops at the first \<^verbatim>\<open>unit_watch_fd\<close> that fails, with
  the ports before it watched; the \<^verbatim>\<open>fail\<close> label then removes every watch.
\<close>

fun watch_ports :: "env \<Rightarrow> SocketPort list \<Rightarrow> (errno + unit) \<times> SocketPort list" where
  "watch_ports e [] = (Inr (), [])"
| "watch_ports e (p # ps) =
     (if fd p < 0 then (let (r, ps') = watch_ports e ps in (r, p # ps'))
      else (case unit_watch_fd e (fd p) of
              Inl err \<Rightarrow> (Inl err, p # ps)
            | Inr _ \<Rightarrow> (let (r, ps') = watch_ports e ps
                        in (r, p\<lparr>fd_watch := True\<rparr> # ps'))))"

definition socket_watch_fds :: "env \<Rightarrow> Socket \<Rightarrow> (errno + unit) \<times> Socket" where
  "socket_watch_fds e s =
     (case watch_ports e (ports s) of
        (Inr _, ps) \<Rightarrow> (Inr (), s\<lparr>ports := ps\<rparr>)
      | (Inl err, ps) \<Rightarrow> (Inl err, socket_unwatch_fds (s\<lparr>ports := ps\<rparr>)))"

subsection \<open>socket_set_state\<close>

definition socket_set_state :: "Socket \<Rightarrow> SocketState \<Rightarrow> Socket" where
  "socket_set_state s st =
     (let old_state = state s;
          s = s\<lparr>state := st\<rparr>;
          s = (if st \<noteq> SOCKET_START_PRE \<and>
                  st \<noteq> SOCKET_START_CHOWN \<and>
                  st \<noteq> SOCKET_START_POST \<and>
                  st \<noteq> SOCKET_STOP_PRE \<and>
                  st \<noteq> SOCKET_STOP_PRE_SIGTERM \<and>
                  st \<noteq> SOCKET_STOP_PRE_SIGKILL \<and>
                  st \<noteq> SOCKET_STOP_POST \<and>
                  st \<noteq> SOCKET_FINAL_SIGTERM \<and>
                  st \<noteq> SOCKET_FINAL_SIGKILL
               then (socket_unwatch_control_pid (s\<lparr>timer_watch := False\<rparr>))
                      \<lparr>control_command := [], control_command_id := None\<rparr>
               else s);
          s = (if st \<noteq> SOCKET_LISTENING then socket_unwatch_fds s else s);
          s = (if st \<noteq> SOCKET_START_CHOWN \<and>
                  st \<noteq> SOCKET_START_POST \<and>
                  st \<noteq> SOCKET_LISTENING \<and>
                  st \<noteq> SOCKET_RUNNING \<and>
                  st \<noteq> SOCKET_STOP_PRE \<and>
                  st \<noteq> SOCKET_STOP_PRE_SIGTERM \<and>
                  st \<noteq> SOCKET_STOP_PRE_SIGKILL
               then socket_close_fds s
               else s)
      in s\<lparr>notifications := notifications s @
             [(state_translation_table old_state, state_translation_table st)]\<rparr>)"

subsection \<open>Opening the endpoints\<close>

text \<open>
  \<^verbatim>\<open>socket_instantiate_service\<close> fills in the service reference when it is unset;
  the \<^verbatim>\<open>assert(s->accept)\<close> is the abort. The name of the service to load is
  \<^verbatim>\<open>prefix@n_accepted.service\<close>.
\<close>

definition socket_instantiate_service :: "env \<Rightarrow> Socket \<Rightarrow> ((errno + unit) \<times> Socket) option" where
  "socket_instantiate_service e s =
     (if service s \<noteq> None then Some (Inr (), s)
      else if \<not> accept s then None
      else (case unit_name_to_prefix e 0 of
              None \<Rightarrow> Some (Inl ENOMEM, s)
            | Some prefix \<Rightarrow>
                (case asprintf_name e prefix (n_accepted s) of
                   None \<Rightarrow> Some (Inl ENOMEM, s)
                 | Some name \<Rightarrow>
                     (case manager_load_unit e name of
                        Inl err \<Rightarrow> Some (Inl err, s)
                      | Inr u \<Rightarrow>
                          if HAVE_SYSV_COMPAT e \<and> is_sysv u then Some (Inl ENOENT, s)
                          else Some (unit_add_two_dependencies e,
                                     s\<lparr>service := Some (u\<lparr>no_gc := True\<rparr>)\<rparr>)))))"

text \<open>
  The three ways \<^verbatim>\<open>socket_open_fds\<close> ends: \<^verbatim>\<open>return 0\<close> after the loop, a plain
  \<^verbatim>\<open>return r\<close> from inside the loop, and the \<^verbatim>\<open>rollback\<close> label.
\<close>

datatype open_exit = Opened | Returned errno | RolledBack errno

text \<open>
  The block run before the first socket is opened (\<^verbatim>\<open>if (!know_label)\<close>): the
  service is instantiated and the label of its executable looked up; \<^verbatim>\<open>EPERM\<close> from
  the lookup is tolerated.
\<close>

definition socket_open_fds_label :: "env \<Rightarrow> Socket \<Rightarrow> ((errno + unit) \<times> Socket) option" where
  "socket_open_fds_label e s =
     (case socket_instantiate_service e s of
        None \<Rightarrow> None
      | Some (Inl err, s') \<Rightarrow> Some (Inl err, s')
      | Some (Inr _, s') \<Rightarrow>
          (if (case service s' of None \<Rightarrow> False | Some u \<Rightarrow> has_exec_start u)
           then (case label_get_create_label_from_exe e of
                   Inl err \<Rightarrow> if err \<noteq> EPERM then Some (Inl err, s') else Some (Inr (), s')
                 | Inr _ \<Rightarrow> Some (Inr (), s'))
           else Some (Inr (), s')))"

text \<open>
  The loop of \<^verbatim>\<open>socket_open_fds\<close> over the ports: \<open>done\<close> are the ports already
  visited, in order, the third argument is \<^verbatim>\<open>know_label\<close>. Socket and FIFO options
  are applied after a successful open; their failures are only logged.
\<close>

fun open_ports ::
  "env \<Rightarrow> Socket \<Rightarrow> bool \<Rightarrow> SocketPort list \<Rightarrow> SocketPort list \<Rightarrow> (open_exit \<times> Socket) option"
where
  "open_ports e s kl done [] = Some (Opened, s\<lparr>ports := done\<rparr>)"
| "open_ports e s kl done (p # todo) =
     (if 0 \<le> fd p then open_ports e s kl (done @ [p]) todo
      else (case port_type p of
          SOCKET_SOCKET \<Rightarrow>
            (case (if kl then Some (Inr (), s) else socket_open_fds_label e s) of
               None \<Rightarrow> None
             | Some (Inl err, s') \<Rightarrow> Some (Returned err, s'\<lparr>ports := done @ p # todo\<rparr>)
             | Some (Inr _, s') \<Rightarrow>
                 (case socket_address_listen e (length done) p of
                    Inl err \<Rightarrow>
                      Some (RolledBack err, socket_close_fds (s'\<lparr>ports := done @ p # todo\<rparr>))
                  | Inr f \<Rightarrow> open_ports e s' True (done @ [p\<lparr>fd := f\<rparr>]) todo))
        | SOCKET_SPECIAL \<Rightarrow>
            (case special_address_create e (length done) p of
               Inl err \<Rightarrow>
                 Some (RolledBack err, socket_close_fds (s\<lparr>ports := done @ p # todo\<rparr>))
             | Inr f \<Rightarrow> open_ports e s kl (done @ [p\<lparr>fd := f\<rparr>]) todo)
        | SOCKET_FIFO \<Rightarrow>
            (case fifo_address_create e (length done) p of
               Inl err \<Rightarrow>
                 Some (RolledBack err, socket_close_fds (s\<lparr>ports := done @ p # todo\<rparr>))
             | Inr f \<Rightarrow> open_ports e s kl (done @ [p\<lparr>fd := f\<rparr>]) todo)
        | SOCKET_MQUEUE \<Rightarrow>
            (if Use_MQ e
             then (case mq_address_create e (length done) p of
                     Inl err \<Rightarrow>
                       Some (RolledBack err, socket_close_fds (s\<lparr>ports := done @ p # todo\<rparr>))
                   | Inr f \<Rightarrow> open_ports e s kl (done @ [p\<lparr>fd := f\<rparr>]) todo)
             else None)))"

definition socket_open_fds :: "env \<Rightarrow> Socket \<Rightarrow> (open_exit \<times> Socket) option" where
  "socket_open_fds e s = open_ports e s False [] (ports s)"

subsection \<open>Spawning the control process\<close>

text \<open>
  \<^verbatim>\<open>socket_spawn\<close>, always called with \<^verbatim>\<open>&s->control_pid\<close> as its result pointer.
  Every failure leaves through the \<^verbatim>\<open>fail\<close> label, which disarms the timer.
\<close>

definition socket_spawn :: "env \<Rightarrow> Socket \<Rightarrow> ExecCommand \<Rightarrow> (errno + unit) \<times> Socket" where
  "socket_spawn e s c =
     (case unit_watch_timer_spawn e (control_command_id s) of
        Inl err \<Rightarrow> (Inl err, s\<lparr>timer_watch := False\<rparr>)
      | Inr _ \<Rightarrow>
          (let s = s\<lparr>timer_watch := True\<rparr> in
           case unit_full_printf_strv e (control_command_id s) c of
             Inl err \<Rightarrow> (Inl err, s\<lparr>timer_watch := False\<rparr>)
           | Inr _ \<Rightarrow>
               (case exec_spawn e (control_command_id s) c of
                  Inl err \<Rightarrow> (Inl err, s\<lparr>timer_watch := False\<rparr>)
                | Inr pid \<Rightarrow>
                    (case unit_watch_pid e pid of
                       Inl err \<Rightarrow> (Inl err, s\<lparr>timer_watch := False\<rparr>)
                     | Inr _ \<Rightarrow> (Inr (), s\<lparr>control_pid := pid\<rparr>)))))"

text \<open>
  \<^verbatim>\<open>socket_chown\<close> in the parent: the forked child resolves the user and the group,
  changes the owner of the paths and exits; the parent only watches its pid.
\<close>

definition socket_chown :: "env \<Rightarrow> Socket \<Rightarrow> (errno + unit) \<times> Socket" where
  "socket_chown e s =
     (case fork e of
        Inl err \<Rightarrow> (Inl err, s)
      | Inr pid \<Rightarrow>
          (case unit_watch_pid e pid of
             Inl err \<Rightarrow> (Inl err, s)
           | Inr _ \<Rightarrow> (Inr (), s\<lparr>control_pid := pid\<rparr>)))"

subsection \<open>Entering the states\<close>

text \<open>\<^verbatim>\<open>exec_context_tmp_dirs_done\<close> removes and forgets the temporary directories.\<close>

definition socket_enter_dead :: "Socket \<Rightarrow> SocketResult \<Rightarrow> Socket" where
  "socket_enter_dead s f =
     (let s = (if f \<noteq> SOCKET_SUCCESS then s\<lparr>result := f\<rparr> else s);
          s = s\<lparr>tmp_dir := None, var_tmp_dir := None\<rparr>
      in socket_set_state s (if result s \<noteq> SOCKET_SUCCESS then SOCKET_FAILED else SOCKET_DEAD))"

function
  socket_enter_stop_post :: "env \<Rightarrow> Socket \<Rightarrow> SocketResult \<Rightarrow> Socket" and
  socket_enter_signal :: "env \<Rightarrow> Socket \<Rightarrow> SocketState \<Rightarrow> SocketResult \<Rightarrow> Socket"
where
  "socket_enter_stop_post e s f =
     (let s = (if f \<noteq> SOCKET_SUCCESS then s\<lparr>result := f\<rparr> else s);
          s = socket_unwatch_control_pid s;
          s = s\<lparr>control_command_id := Some SOCKET_EXEC_STOP_POST\<rparr>;
          s = s\<lparr>control_command := exec_command s SOCKET_EXEC_STOP_POST\<rparr>
      in case control_command s of
           c # _ \<Rightarrow>
             (case socket_spawn e s c of
                (Inl _, s') \<Rightarrow>
                  socket_enter_signal e s' SOCKET_FINAL_SIGTERM SOCKET_FAILURE_RESOURCES
              | (Inr _, s') \<Rightarrow> socket_set_state s' SOCKET_STOP_POST)
         | [] \<Rightarrow> socket_enter_signal e s SOCKET_FINAL_SIGTERM SOCKET_SUCCESS)"
| "socket_enter_signal e s st f =
     (let s = (if f \<noteq> SOCKET_SUCCESS then s\<lparr>result := f\<rparr> else s);
          fail = (\<lambda>s. if st = SOCKET_STOP_PRE_SIGTERM \<or> st = SOCKET_STOP_PRE_SIGKILL
                       then socket_enter_stop_post e s SOCKET_FAILURE_RESOURCES
                       else socket_enter_dead s SOCKET_FAILURE_RESOURCES)
      in case unit_kill_context e st
                (st \<noteq> SOCKET_STOP_PRE_SIGTERM \<and> st \<noteq> SOCKET_FINAL_SIGTERM) (control_pid s) of
           Inl _ \<Rightarrow> fail s
         | Inr True \<Rightarrow>
             (case unit_watch_timer_signal e st of
                Inl _ \<Rightarrow> fail s
              | Inr _ \<Rightarrow> socket_set_state (s\<lparr>timer_watch := True\<rparr>) st)
         | Inr False \<Rightarrow>
             (if st = SOCKET_STOP_PRE_SIGTERM \<or> st = SOCKET_STOP_PRE_SIGKILL
              then socket_enter_stop_post e s SOCKET_SUCCESS
              else socket_enter_dead s SOCKET_SUCCESS))"
  by pat_completeness auto

termination
  by (relation "measure (\<lambda>x. case x of
                   Inl _ \<Rightarrow> 1
                 | Inr (e, s, st, f) \<Rightarrow>
                     if st = SOCKET_STOP_PRE_SIGTERM \<or> st = SOCKET_STOP_PRE_SIGKILL
                     then 2 else 0)") auto

declare socket_enter_stop_post.simps [simp del]
declare socket_enter_signal.simps [simp del]

definition socket_enter_stop_pre :: "env \<Rightarrow> Socket \<Rightarrow> SocketResult \<Rightarrow> Socket" where
  "socket_enter_stop_pre e s f =
     (let s = (if f \<noteq> SOCKET_SUCCESS then s\<lparr>result := f\<rparr> else s);
          s = socket_unwatch_control_pid s;
          s = s\<lparr>control_command_id := Some SOCKET_EXEC_STOP_PRE\<rparr>;
          s = s\<lparr>control_command := exec_command s SOCKET_EXEC_STOP_PRE\<rparr>
      in case control_command s of
           c # _ \<Rightarrow>
             (case socket_spawn e s c of
                (Inl _, s') \<Rightarrow> socket_enter_stop_post e s' SOCKET_FAILURE_RESOURCES
              | (Inr _, s') \<Rightarrow> socket_set_state s' SOCKET_STOP_PRE)
         | [] \<Rightarrow> socket_enter_stop_post e s SOCKET_SUCCESS)"

definition socket_enter_listening :: "env \<Rightarrow> Socket \<Rightarrow> Socket" where
  "socket_enter_listening e s =
     (case socket_watch_fds e s of
        (Inl _, s') \<Rightarrow> socket_enter_stop_pre e s' SOCKET_FAILURE_RESOURCES
      | (Inr _, s') \<Rightarrow> socket_set_state s' SOCKET_LISTENING)"

definition socket_enter_start_post :: "env \<Rightarrow> Socket \<Rightarrow> Socket" where
  "socket_enter_start_post e s =
     (let s = socket_unwatch_control_pid s;
          s = s\<lparr>control_command_id := Some SOCKET_EXEC_START_POST\<rparr>;
          s = s\<lparr>control_command := exec_command s SOCKET_EXEC_START_POST\<rparr>
      in case control_command s of
           c # _ \<Rightarrow>
             (case socket_spawn e s c of
                (Inl _, s') \<Rightarrow> socket_enter_stop_pre e s' SOCKET_FAILURE_RESOURCES
              | (Inr _, s') \<Rightarrow> socket_set_state s' SOCKET_START_POST)
         | [] \<Rightarrow> socket_enter_listening e s)"

definition socket_enter_start_chown :: "env \<Rightarrow> Socket \<Rightarrow> Socket option" where
  "socket_enter_start_chown e s =
     (case socket_open_fds e s of
        None \<Rightarrow> None
      | Some (Returned _, s') \<Rightarrow> Some (socket_enter_stop_pre e s' SOCKET_FAILURE_RESOURCES)
      | Some (RolledBack _, s') \<Rightarrow> Some (socket_enter_stop_pre e s' SOCKET_FAILURE_RESOURCES)
      | Some (Opened, s') \<Rightarrow>
          (if user s' \<noteq> [] \<or> group s' \<noteq> []
           then (let s' = socket_unwatch_control_pid s';
                     s' = s'\<lparr>control_command_id := Some SOCKET_EXEC_START_CHOWN\<rparr>;
                     s' = s'\<lparr>control_command := []\<rparr>
                 in case socket_chown e s' of
                      (Inl _, s'') \<Rightarrow>
                        Some (socket_enter_stop_pre e s'' SOCKET_FAILURE_RESOURCES)
                    | (Inr _, s'') \<Rightarrow> Some (socket_set_state s'' SOCKET_START_CHOWN))
           else Some (socket_enter_start_post e s')))"

definition socket_enter_start_pre :: "env \<Rightarrow> Socket \<Rightarrow> Socket option" where
  "socket_enter_start_pre e s =
     (let s = socket_unwatch_control_pid s;
          s = s\<lparr>control_command_id := Some SOCKET_EXEC_START_PRE\<rparr>;
          s = s\<lparr>control_command := exec_command s SOCKET_EXEC_START_PRE\<rparr>
      in case control_command s of
           c # _ \<Rightarrow>
             (case socket_spawn e s c of
                (Inl _, s') \<Rightarrow> Some (socket_enter_dead s' SOCKET_FAILURE_RESOURCES)
              | (Inr _, s') \<Rightarrow> Some (socket_set_state s' SOCKET_START_PRE))
         | [] \<Rightarrow> socket_enter_start_chown e s)"

subsection \<open>Naming the instance of an accepted connection\<close>

text \<open>
  \<^verbatim>\<open>%u\<close> and \<^verbatim>\<open>%lu\<close>: an unsigned number in decimal. \<^verbatim>\<open>%i\<close>: a signed one.
\<close>

definition digit_char :: "nat \<Rightarrow> char" where
  "digit_char d = char_of (48 + d)"

fun fmt_u :: "nat \<Rightarrow> string" where
  "fmt_u n = (if n < 10 then [digit_char n] else fmt_u (n div 10) @ [digit_char (n mod 10)])"

declare fmt_u.simps [simp del]

definition fmt_i :: "int \<Rightarrow> string" where
  "fmt_i i = (if i < 0 then CHR ''-'' # fmt_u (nat (- i)) else fmt_u (nat i))"

definition ipv4_prefix :: "8 word list" where
  "ipv4_prefix = [0, 0, 0, 0, 0, 0, 0, 0, 0, 0, 0xFF, 0xFF]"

text \<open>The dotted quad of a 32-bit address in host byte order, and of four bytes.\<close>

definition fmt_quad :: "32 word \<Rightarrow> string" where
  "fmt_quad a =
     fmt_u (unat (drop_bit 24 a)) @ ''.'' @
     fmt_u (unat (and (drop_bit 16 a) 0xFF)) @ ''.'' @
     fmt_u (unat (and (drop_bit 8 a) 0xFF)) @ ''.'' @
     fmt_u (unat (and a 0xFF))"

definition fmt_bytes4 :: "8 word list \<Rightarrow> string" where
  "fmt_bytes4 a =
     fmt_u (unat (a ! 0)) @ ''.'' @ fmt_u (unat (a ! 1)) @ ''.'' @
     fmt_u (unat (a ! 2)) @ ''.'' @ fmt_u (unat (a ! 3))"

text \<open>
  \<^verbatim>\<open>instance_from_socket\<close>. The \<^verbatim>\<open>default\<close> case of the family is the abort. The
  sixteen bytes of an IPv6 address are always there, so \<open>drop 12\<close> leaves four.
\<close>

definition instance_from_socket :: "env \<Rightarrow> int \<Rightarrow> 32 word \<Rightarrow> (errno + string) option" where
  "instance_from_socket e cfd nr =
     (case getsockname e cfd of
        Inl err \<Rightarrow> Some (Inl err)
      | Inr local \<Rightarrow>
     (case getpeername e cfd of
        Inl err \<Rightarrow> Some (Inl err)
      | Inr remote \<Rightarrow>
     (case sa_family local of
        AF_INET \<Rightarrow>
          if asprintf_ok e
          then Some (Inr (fmt_u (unat nr) @ ''-'' @
                  fmt_quad (sin_addr local) @ '':'' @ fmt_u (unat (sin_port local)) @ ''-'' @
                  fmt_quad (sin_addr remote) @ '':'' @ fmt_u (unat (sin_port remote))))
          else Some (Inl ENOMEM)
      | AF_INET6 \<Rightarrow>
          if take 12 (sin6_addr local) = ipv4_prefix \<and> take 12 (sin6_addr remote) = ipv4_prefix
          then (if asprintf_ok e
                then Some (Inr (fmt_u (unat nr) @ ''-'' @
                        fmt_bytes4 (drop 12 (sin6_addr local)) @ '':'' @
                        fmt_u (unat (sin6_port local)) @ ''-'' @
                        fmt_bytes4 (drop 12 (sin6_addr remote)) @ '':'' @
                        fmt_u (unat (sin6_port remote))))
                else Some (Inl ENOMEM))
          else (if asprintf_ok e
                then Some (Inr (fmt_u (unat nr) @ ''-'' @
                        inet_ntop e (sin6_addr local) @ '':'' @
                        fmt_u (unat (sin6_port local)) @ ''-'' @
                        inet_ntop e (sin6_addr remote) @ '':'' @
                        fmt_u (unat (sin6_port remote))))
                else Some (Inl ENOMEM))
      | AF_UNIX \<Rightarrow>
          if SO_PEERCRED e
          then (case getsockopt_peercred e cfd of
                  Inl err \<Rightarrow> Some (Inl err)
                | Inr (pid, uid) \<Rightarrow>
                    if asprintf_ok e
                    then Some (Inr (fmt_u (unat nr) @ ''-'' @ fmt_u pid @ ''-'' @ fmt_u uid))
                    else Some (Inl ENOMEM))
          else Some (Inr (uninitialized_r e))
      | _ \<Rightarrow> None)))"

subsection \<open>Activation\<close>

text \<open>
  \<^verbatim>\<open>socket_enter_running\<close>. \<open>cfd\<close> is the accepted connection, negative when the unit
  does not accept connections itself. The \<^verbatim>\<open>fail\<close> label enters the stop path and
  then closes \<open>cfd\<close>, which is -1 once the service has taken the descriptor over.
\<close>

definition socket_enter_running_fail :: "env \<Rightarrow> Socket \<Rightarrow> int \<Rightarrow> Socket" where
  "socket_enter_running_fail e s cfd =
     (let s = socket_enter_stop_pre e s SOCKET_FAILURE_RESOURCES
      in s\<lparr>closed_fds := safe_close cfd (closed_fds s)\<rparr>)"

definition socket_enter_running :: "env \<Rightarrow> Socket \<Rightarrow> int \<Rightarrow> Socket option" where
  "socket_enter_running e s cfd =
     (if unit_stop_pending e
      then (if 0 \<le> cfd then Some (s\<lparr>closed_fds := safe_close cfd (closed_fds s)\<rparr>)
            else (case socket_watch_fds e (socket_close_fds s) of
                    (Inl _, s') \<Rightarrow> Some (socket_enter_stop_pre e s' SOCKET_FAILURE_RESOURCES)
                  | (Inr _, s') \<Rightarrow> Some s'))
      else if cfd < 0
      then (if \<not> triggers_active_or_pending e
            then (if service s = None then Some (socket_enter_running_fail e s cfd)
                  else (case manager_add_job e of
                          Inl _ \<Rightarrow> Some (socket_enter_running_fail e s cfd)
                        | Inr _ \<Rightarrow>
                            Some (socket_set_state (s\<lparr>jobs_added := jobs_added s + 1\<rparr>)
                                    SOCKET_RUNNING)))
            else Some (socket_set_state s SOCKET_RUNNING))
      else (if max_connections s \<le> n_connections s
            then Some (s\<lparr>closed_fds := safe_close cfd (closed_fds s)\<rparr>)
            else
       (case socket_instantiate_service e s of
          None \<Rightarrow> None
        | Some (Inl _, s) \<Rightarrow> Some (socket_enter_running_fail e s cfd)
        | Some (Inr _, s) \<Rightarrow>
       (case instance_from_socket e cfd (n_accepted s) of
          None \<Rightarrow> None
        | Some (Inl err) \<Rightarrow>
            if err \<noteq> ENOTCONN then Some (socket_enter_running_fail e s cfd)
            else Some (s\<lparr>closed_fds := safe_close cfd (closed_fds s)\<rparr>)
        | Some (Inr instance) \<Rightarrow>
       (case unit_name_to_prefix e 1 of
          None \<Rightarrow> Some (socket_enter_running_fail e s cfd)
        | Some prefix \<Rightarrow>
       (case unit_name_build e prefix instance of
          None \<Rightarrow> Some (socket_enter_running_fail e s cfd)
        | Some name \<Rightarrow>
       (case unit_add_name e name of
          Inl _ \<Rightarrow> Some (socket_enter_running_fail e s cfd)
        | Inr _ \<Rightarrow>
       (let s = s\<lparr>service := None\<rparr>;
            s = s\<lparr>n_accepted := n_accepted s + 1\<rparr>
        in case service_set_socket_fd e cfd of
             Inl _ \<Rightarrow> Some (socket_enter_running_fail e s cfd)
           | Inr _ \<Rightarrow>
               (let s = s\<lparr>handed_off := handed_off s @ [cfd]\<rparr>;
                    cfd = -1;
                    s = s\<lparr>n_connections := n_connections s + 1\<rparr>
                in case manager_add_job e of
                     Inl _ \<Rightarrow> Some (socket_enter_running_fail e s cfd)
                   | Inr _ \<Rightarrow> Some (s\<lparr>jobs_added := jobs_added s + 1\<rparr>))))))))))"

text \<open>
  \<^verbatim>\<open>socket_fd_event\<close>. The accept loop of the source is compiled out
  (\<^verbatim>\<open>#if 0 // FIXME: libev\<close>), so \<open>cfd\<close> stays -1. The argument tells whether the
  event was exactly \<^verbatim>\<open>EV_READ\<close>.
\<close>

definition socket_fd_event :: "env \<Rightarrow> Socket \<Rightarrow> bool \<Rightarrow> Socket option" where
  "socket_fd_event e s revents_is_read =
     (if state s \<noteq> SOCKET_LISTENING then Some s
      else if \<not> revents_is_read
      then Some (socket_enter_stop_pre e s SOCKET_FAILURE_RESOURCES)
      else socket_enter_running e s (-1))"

subsection \<open>Start, stop, and the events of the control process and the timer\<close>

text \<open>\<^verbatim>\<open>socket_run_next\<close>; its two assertions are the abort.\<close>

definition socket_run_next :: "env \<Rightarrow> Socket \<Rightarrow> Socket option" where
  "socket_run_next e s =
     (case control_command s of
        [] \<Rightarrow> None
      | [_] \<Rightarrow> None
      | _ # c # cs \<Rightarrow>
          (let s = socket_unwatch_control_pid s;
               s = s\<lparr>control_command := c # cs\<rparr>
           in case socket_spawn e s c of
                (Inr _, s') \<Rightarrow> Some s'
              | (Inl _, s') \<Rightarrow>
                  if state s' = SOCKET_START_POST
                  then Some (socket_enter_stop_pre e s' SOCKET_FAILURE_RESOURCES)
                  else if state s' = SOCKET_STOP_POST
                  then Some (socket_enter_dead s' SOCKET_FAILURE_RESOURCES)
                  else Some (socket_enter_signal e s' SOCKET_FINAL_SIGTERM
                               SOCKET_FAILURE_RESOURCES)))"

text \<open>
  \<^verbatim>\<open>socket_start\<close> returns its status and the unit. The assertion that the state is
  dead or failed is the abort.
\<close>

definition socket_start :: "env \<Rightarrow> Socket \<Rightarrow> ((errno + unit) \<times> Socket) option" where
  "socket_start e s =
     (if state s \<in> {SOCKET_STOP_PRE, SOCKET_STOP_PRE_SIGKILL, SOCKET_STOP_PRE_SIGTERM,
                     SOCKET_STOP_POST, SOCKET_FINAL_SIGTERM, SOCKET_FINAL_SIGKILL}
      then Some (Inl EAGAIN, s)
      else if state s \<in> {SOCKET_START_PRE, SOCKET_START_CHOWN, SOCKET_START_POST}
      then Some (Inr (), s)
      else if (case service s of None \<Rightarrow> False | Some sv \<Rightarrow> load_state sv \<noteq> UNIT_LOADED)
      then Some (Inl ENOENT, s)
      else if (case service s of None \<Rightarrow> False
               | Some sv \<Rightarrow> service_state sv \<noteq> SERVICE_DEAD \<and>
                            service_state sv \<noteq> SERVICE_FAILED \<and>
                            service_state sv \<noteq> SERVICE_AUTO_RESTART)
      then Some (Inl EBUSY, s)
      else if (case service s of None \<Rightarrow> False | Some sv \<Rightarrow> HAVE_SYSV_COMPAT e \<and> is_sysv sv)
      then Some (Inl ENOENT, s)
      else if \<not> (state s = SOCKET_DEAD \<or> state s = SOCKET_FAILED) then None
      else (case socket_enter_start_pre e (s\<lparr>result := SOCKET_SUCCESS\<rparr>) of
              None \<Rightarrow> None
            | Some s' \<Rightarrow> Some (Inr (), s')))"

definition socket_stop :: "env \<Rightarrow> Socket \<Rightarrow> ((errno + unit) \<times> Socket) option" where
  "socket_stop e s =
     (if state s \<in> {SOCKET_STOP_PRE, SOCKET_STOP_PRE_SIGTERM, SOCKET_STOP_PRE_SIGKILL,
                     SOCKET_STOP_POST, SOCKET_FINAL_SIGTERM, SOCKET_FINAL_SIGKILL}
      then Some (Inr (), s)
      else if state s \<in> {SOCKET_START_PRE, SOCKET_START_CHOWN, SOCKET_START_POST}
      then Some (Inl EAGAIN, socket_enter_signal e s SOCKET_STOP_PRE_SIGTERM SOCKET_SUCCESS)
      else if \<not> (state s = SOCKET_LISTENING \<or> state s = SOCKET_RUNNING) then None
      else Some (Inr (), socket_enter_stop_pre e s SOCKET_SUCCESS))"

text \<open>
  \<^verbatim>\<open>socket_sigchld_event\<close>, in three parts. First the result the exit of the control
  process stands for, which a command marked to be ignored turns into success. At
  the end, when no further command of the step is to be run, the switch on the state
  the process died in. The aborts are the assertion on the pid, an unknown
  \<^verbatim>\<open>si_code\<close>, and a control process that dies in a state that has none.
\<close>

definition sigchld_result :: "env \<Rightarrow> Socket \<Rightarrow> sigchld_code \<Rightarrow> int \<Rightarrow> SocketResult" where
  "sigchld_result e s code status =
     (let f = (if is_clean_exit e code status then SOCKET_SUCCESS
               else if code = CLD_EXITED then SOCKET_FAILURE_EXIT_CODE
               else if code = CLD_KILLED then SOCKET_FAILURE_SIGNAL
               else SOCKET_FAILURE_CORE_DUMP)
      in case control_command s of
           c # _ \<Rightarrow> if ignore c then SOCKET_SUCCESS else f
         | [] \<Rightarrow> f)"

definition socket_sigchld_final :: "env \<Rightarrow> Socket \<Rightarrow> SocketResult \<Rightarrow> Socket option" where
  "socket_sigchld_final e s f =
     (case state s of
        SOCKET_START_PRE \<Rightarrow>
          if f = SOCKET_SUCCESS then socket_enter_start_chown e s
          else Some (socket_enter_signal e s SOCKET_FINAL_SIGTERM f)
      | SOCKET_START_CHOWN \<Rightarrow>
          if f = SOCKET_SUCCESS then Some (socket_enter_start_post e s)
          else Some (socket_enter_stop_pre e s f)
      | SOCKET_START_POST \<Rightarrow>
          if f = SOCKET_SUCCESS then Some (socket_enter_listening e s)
          else Some (socket_enter_stop_pre e s f)
      | SOCKET_STOP_PRE \<Rightarrow> Some (socket_enter_stop_post e s f)
      | SOCKET_STOP_PRE_SIGTERM \<Rightarrow> Some (socket_enter_stop_post e s f)
      | SOCKET_STOP_PRE_SIGKILL \<Rightarrow> Some (socket_enter_stop_post e s f)
      | SOCKET_STOP_POST \<Rightarrow> Some (socket_enter_dead s f)
      | SOCKET_FINAL_SIGTERM \<Rightarrow> Some (socket_enter_dead s f)
      | SOCKET_FINAL_SIGKILL \<Rightarrow> Some (socket_enter_dead s f)
      | _ \<Rightarrow> None)"

definition socket_sigchld_event ::
  "env \<Rightarrow> Socket \<Rightarrow> int \<Rightarrow> sigchld_code \<Rightarrow> int \<Rightarrow> Socket option"
where
  "socket_sigchld_event e s pid code status =
     (if pid < 0 then None
      else if pid \<noteq> control_pid s then Some s
      else if \<not> is_clean_exit e code status \<and> code = CLD_OTHER then None
      else
       (let s = s\<lparr>control_pid := 0\<rparr>;
            f = sigchld_result e s code status;
            s = (if f \<noteq> SOCKET_SUCCESS then s\<lparr>result := f\<rparr> else s)
        in if (case control_command s of _ # _ # _ \<Rightarrow> True | _ \<Rightarrow> False) \<and> f = SOCKET_SUCCESS
           then socket_run_next e s
           else socket_sigchld_final e
                  (s\<lparr>control_command := [], control_command_id := None\<rparr>) f))"

text \<open>\<^verbatim>\<open>socket_timer_event\<close>; a timeout in a state without a timer is the abort.\<close>

definition socket_timer_event :: "env \<Rightarrow> Socket \<Rightarrow> Socket option" where
  "socket_timer_event e s =
     (case state s of
        SOCKET_START_PRE \<Rightarrow>
          Some (socket_enter_signal e s SOCKET_FINAL_SIGTERM SOCKET_FAILURE_TIMEOUT)
      | SOCKET_START_CHOWN \<Rightarrow> Some (socket_enter_stop_pre e s SOCKET_FAILURE_TIMEOUT)
      | SOCKET_START_POST \<Rightarrow> Some (socket_enter_stop_pre e s SOCKET_FAILURE_TIMEOUT)
      | SOCKET_STOP_PRE \<Rightarrow>
          Some (socket_enter_signal e s SOCKET_STOP_PRE_SIGTERM SOCKET_FAILURE_TIMEOUT)
      | SOCKET_STOP_PRE_SIGTERM \<Rightarrow>
          if send_sigkill s
          then Some (socket_enter_signal e s SOCKET_STOP_PRE_SIGKILL SOCKET_FAILURE_TIMEOUT)
          else Some (socket_enter_stop_post e s SOCKET_FAILURE_TIMEOUT)
      | SOCKET_STOP_PRE_SIGKILL \<Rightarrow> Some (socket_enter_stop_post e s SOCKET_FAILURE_TIMEOUT)
      | SOCKET_STOP_POST \<Rightarrow>
          Some (socket_enter_signal e s SOCKET_FINAL_SIGTERM SOCKET_FAILURE_TIMEOUT)
      | SOCKET_FINAL_SIGTERM \<Rightarrow>
          if send_sigkill s
          then Some (socket_enter_signal e s SOCKET_FINAL_SIGKILL SOCKET_FAILURE_TIMEOUT)
          else Some (socket_enter_dead s SOCKET_FAILURE_TIMEOUT)
      | SOCKET_FINAL_SIGKILL \<Rightarrow> Some (socket_enter_dead s SOCKET_FAILURE_TIMEOUT)
      | _ \<Rightarrow> None)"

subsection \<open>Notifications from the service, and resetting\<close>

definition socket_notify_service_dead :: "env \<Rightarrow> Socket \<Rightarrow> bool \<Rightarrow> Socket" where
  "socket_notify_service_dead e s failed_permanent =
     (if state s = SOCKET_RUNNING
      then (if failed_permanent
            then socket_enter_stop_pre e s SOCKET_FAILURE_SERVICE_FAILED_PERMANENT
            else socket_enter_listening e s)
      else s)"

text \<open>\<^verbatim>\<open>socket_connection_unref\<close>; the assertion on the counter is the abort.\<close>

definition socket_connection_unref :: "Socket \<Rightarrow> Socket option" where
  "socket_connection_unref s =
     (if \<not> 0 < n_connections s then None
      else Some (s\<lparr>n_connections := n_connections s - 1\<rparr>))"

definition socket_reset_failed :: "Socket \<Rightarrow> Socket" where
  "socket_reset_failed s =
     (let s = (if state s = SOCKET_FAILED then socket_set_state s SOCKET_DEAD else s)
      in s\<lparr>result := SOCKET_SUCCESS\<rparr>)"

text \<open>
  \<^verbatim>\<open>socket_trigger_notify\<close>, given the other unit's load state, whether it is a
  service, its state, and whether its result is \<^verbatim>\<open>SERVICE_FAILURE_START_LIMIT\<close>.
\<close>

definition socket_trigger_notify ::
  "env \<Rightarrow> Socket \<Rightarrow> UnitLoadState \<Rightarrow> bool \<Rightarrow> ServiceState \<Rightarrow> bool \<Rightarrow> Socket"
where
  "socket_trigger_notify e s other_load_state other_is_service se_state se_start_limit =
     (if (state s \<noteq> SOCKET_RUNNING \<and> state s \<noteq> SOCKET_LISTENING) \<or> accept s then s
      else if other_load_state \<noteq> UNIT_LOADED \<or> \<not> other_is_service then s
      else
       (let s = (if se_state = SERVICE_FAILED
                 then socket_notify_service_dead e s se_start_limit else s);
            s = (if se_state = SERVICE_DEAD \<or>
                    se_state = SERVICE_STOP \<or>
                    se_state = SERVICE_STOP_SIGTERM \<or>
                    se_state = SERVICE_STOP_SIGKILL \<or>
                    se_state = SERVICE_STOP_POST \<or>
                    se_state = SERVICE_FINAL_SIGTERM \<or>
                    se_state = SERVICE_FINAL_SIGKILL \<or>
                    se_state = SERVICE_AUTO_RESTART
                 then socket_notify_service_dead e s False else s)
        in if se_state = SERVICE_RUNNING then socket_set_state s SOCKET_RUNNING else s))"

subsection \<open>Runs\<close>

text \<open>
  The entries of \<^verbatim>\<open>socket_vtable\<close> through which the manager drives a loaded unit,
  and \<^verbatim>\<open>socket_connection_unref\<close>, which the service of a connection calls. A run
  is a sequence of such calls, each in the environment it meets; it ends with the
  first abort.
\<close>

datatype event =
    Start | Stop | Timer | Sigchld int sigchld_code int | FdEvent bool
  | TriggerNotify UnitLoadState bool ServiceState bool | ConnectionUnref | ResetFailed

definition socket_event :: "env \<Rightarrow> Socket \<Rightarrow> event \<Rightarrow> Socket option" where
  "socket_event e s ev =
     (case ev of
        Start \<Rightarrow> map_option snd (socket_start e s)
      | Stop \<Rightarrow> map_option snd (socket_stop e s)
      | Timer \<Rightarrow> socket_timer_event e s
      | Sigchld pid code status \<Rightarrow> socket_sigchld_event e s pid code status
      | FdEvent revents_is_read \<Rightarrow> socket_fd_event e s revents_is_read
      | TriggerNotify l i st lim \<Rightarrow> Some (socket_trigger_notify e s l i st lim)
      | ConnectionUnref \<Rightarrow> socket_connection_unref s
      | ResetFailed \<Rightarrow> Some (socket_reset_failed s))"

fun socket_run :: "Socket \<Rightarrow> (env \<times> event) list \<Rightarrow> Socket option" where
  "socket_run s [] = Some s"
| "socket_run s ((e, ev) # evs) =
     (case socket_event e s ev of None \<Rightarrow> None | Some s' \<Rightarrow> socket_run s' evs)"

subsection \<open>Coldplug\<close>

definition socket_coldplug :: "env \<Rightarrow> Socket \<Rightarrow> ((errno + unit) \<times> Socket) option" where
  "socket_coldplug e s =
     (if state s \<noteq> SOCKET_DEAD then None
      else if deserialized_state s = state s then Some (Inr (), s)
      else
       (case (if deserialized_state s = SOCKET_START_PRE \<or>
                 deserialized_state s = SOCKET_START_CHOWN \<or>
                 deserialized_state s = SOCKET_START_POST \<or>
                 deserialized_state s = SOCKET_STOP_PRE \<or>
                 deserialized_state s = SOCKET_STOP_PRE_SIGTERM \<or>
                 deserialized_state s = SOCKET_STOP_PRE_SIGKILL \<or>
                 deserialized_state s = SOCKET_STOP_POST \<or>
                 deserialized_state s = SOCKET_FINAL_SIGTERM \<or>
                 deserialized_state s = SOCKET_FINAL_SIGKILL
              then (if control_pid s \<le> 0 then (Inl EBADMSG, s)
                    else (case unit_watch_pid e (control_pid s) of
                            Inl err \<Rightarrow> (Inl err, s)
                          | Inr _ \<Rightarrow>
                              (case unit_watch_timer_coldplug e of
                                 Inl err \<Rightarrow> (Inl err, s)
                               | Inr _ \<Rightarrow> (Inr (), s\<lparr>timer_watch := True\<rparr>))))
              else (Inr (), s)) of
          (Inl err, s) \<Rightarrow> Some (Inl err, s)
        | (Inr _, s) \<Rightarrow>
       (case (if deserialized_state s = SOCKET_START_CHOWN \<or>
                 deserialized_state s = SOCKET_START_POST \<or>
                 deserialized_state s = SOCKET_LISTENING \<or>
                 deserialized_state s = SOCKET_RUNNING \<or>
                 deserialized_state s = SOCKET_STOP_PRE \<or>
                 deserialized_state s = SOCKET_STOP_PRE_SIGTERM \<or>
                 deserialized_state s = SOCKET_STOP_PRE_SIGKILL
              then socket_open_fds e s
              else Some (Opened, s)) of
          None \<Rightarrow> None
        | Some (Returned err, s) \<Rightarrow> Some (Inl err, s)
        | Some (RolledBack err, s) \<Rightarrow> Some (Inl err, s)
        | Some (Opened, s) \<Rightarrow>
       (case (if deserialized_state s = SOCKET_LISTENING
              then socket_watch_fds e s else (Inr (), s)) of
          (Inl err, s) \<Rightarrow> Some (Inl err, s)
        | (Inr _, s) \<Rightarrow> Some (Inr (), socket_set_state s (deserialized_state s))))))"

subsection \<open>Serialization\<close>

text \<open>
  The string tables, and the lookups \<^verbatim>\<open>DEFINE_STRING_TABLE_LOOKUP\<close> makes from them:
  the string at the index of a value, and the first index whose string is the one
  sought.
\<close>

fun socket_state_to_string :: "SocketState \<Rightarrow> string" where
  "socket_state_to_string SOCKET_DEAD = ''dead''"
| "socket_state_to_string SOCKET_START_PRE = ''start-pre''"
| "socket_state_to_string SOCKET_START_CHOWN = ''start-chown''"
| "socket_state_to_string SOCKET_START_POST = ''start-post''"
| "socket_state_to_string SOCKET_LISTENING = ''listening''"
| "socket_state_to_string SOCKET_RUNNING = ''running''"
| "socket_state_to_string SOCKET_STOP_PRE = ''stop-pre''"
| "socket_state_to_string SOCKET_STOP_PRE_SIGTERM = ''stop-pre-sigterm''"
| "socket_state_to_string SOCKET_STOP_PRE_SIGKILL = ''stop-pre-sigkill''"
| "socket_state_to_string SOCKET_STOP_POST = ''stop-post''"
| "socket_state_to_string SOCKET_FINAL_SIGTERM = ''final-sigterm''"
| "socket_state_to_string SOCKET_FINAL_SIGKILL = ''final-sigkill''"
| "socket_state_to_string SOCKET_FAILED = ''failed''"

definition socket_state_from_string :: "string \<Rightarrow> SocketState option" where
  "socket_state_from_string v =
     find (\<lambda>st. socket_state_to_string st = v)
       [SOCKET_DEAD, SOCKET_START_PRE, SOCKET_START_CHOWN, SOCKET_START_POST,
        SOCKET_LISTENING, SOCKET_RUNNING, SOCKET_STOP_PRE, SOCKET_STOP_PRE_SIGTERM,
        SOCKET_STOP_PRE_SIGKILL, SOCKET_STOP_POST, SOCKET_FINAL_SIGTERM,
        SOCKET_FINAL_SIGKILL, SOCKET_FAILED]"

fun socket_exec_command_to_string :: "SocketExecCommand \<Rightarrow> string" where
  "socket_exec_command_to_string SOCKET_EXEC_START_PRE = ''StartPre''"
| "socket_exec_command_to_string SOCKET_EXEC_START_CHOWN = ''StartChown''"
| "socket_exec_command_to_string SOCKET_EXEC_START_POST = ''StartPost''"
| "socket_exec_command_to_string SOCKET_EXEC_STOP_PRE = ''StopPre''"
| "socket_exec_command_to_string SOCKET_EXEC_STOP_POST = ''StopPost''"

definition socket_exec_command_from_string :: "string \<Rightarrow> SocketExecCommand option" where
  "socket_exec_command_from_string v =
     find (\<lambda>c. socket_exec_command_to_string c = v)
       [SOCKET_EXEC_START_PRE, SOCKET_EXEC_START_CHOWN, SOCKET_EXEC_START_POST,
        SOCKET_EXEC_STOP_PRE, SOCKET_EXEC_STOP_POST]"

fun socket_result_to_string :: "SocketResult \<Rightarrow> string" where
  "socket_result_to_string SOCKET_SUCCESS = ''success''"
| "socket_result_to_string SOCKET_FAILURE_RESOURCES = ''resources''"
| "socket_result_to_string SOCKET_FAILURE_TIMEOUT = ''timeout''"
| "socket_result_to_string SOCKET_FAILURE_EXIT_CODE = ''exit-code''"
| "socket_result_to_string SOCKET_FAILURE_SIGNAL = ''signal''"
| "socket_result_to_string SOCKET_FAILURE_CORE_DUMP = ''core-dump''"
| "socket_result_to_string SOCKET_FAILURE_SERVICE_FAILED_PERMANENT = ''service-failed-permanent''"

definition socket_result_from_string :: "string \<Rightarrow> SocketResult option" where
  "socket_result_from_string v =
     find (\<lambda>r. socket_result_to_string r = v)
       [SOCKET_SUCCESS, SOCKET_FAILURE_RESOURCES, SOCKET_FAILURE_TIMEOUT,
        SOCKET_FAILURE_EXIT_CODE, SOCKET_FAILURE_SIGNAL, SOCKET_FAILURE_CORE_DUMP,
        SOCKET_FAILURE_SERVICE_FAILED_PERMANENT]"

text \<open>
  The serialization stream is the list of the key/value items written to it:
  \<^verbatim>\<open>unit_serialize_item\<close> and \<^verbatim>\<open>unit_serialize_item_format\<close> (unit.c) write one
  line \<^verbatim>\<open>key=value\<close> each. \<^verbatim>\<open>exec_context_serialize\<close> (execute.c) writes the two
  temporary directories of the execution context, each when it is set.
\<close>

type_synonym item = "string \<times> string"

definition unit_serialize_item :: "item list \<Rightarrow> string \<Rightarrow> string \<Rightarrow> item list" where
  "unit_serialize_item f key v = f @ [(key, v)]"

definition exec_context_serialize :: "Socket \<Rightarrow> item list \<Rightarrow> item list" where
  "exec_context_serialize s f =
     (let f = (case tmp_dir s of None \<Rightarrow> f | Some d \<Rightarrow> unit_serialize_item f ''tmp-dir'' d)
      in case var_tmp_dir s of None \<Rightarrow> f | Some d \<Rightarrow> unit_serialize_item f ''var-tmp-dir'' d)"

text \<open>
  The loop of \<^verbatim>\<open>socket_serialize\<close> over the ports. The set of descriptors handed to
  the next manager is a list without order of its own; \<^verbatim>\<open>fdset_put_dup\<close> adds the
  duplicate it makes.
\<close>

fun serialize_ports ::
  "env \<Rightarrow> SocketPort list \<Rightarrow> item list \<Rightarrow> int list \<Rightarrow> (errno + unit) \<times> item list \<times> int list"
where
  "serialize_ports e [] f fds = (Inr (), f, fds)"
| "serialize_ports e (p # ps) f fds =
     (if fd p < 0 then serialize_ports e ps f fds
      else (case fdset_put_dup e (fd p) of
              Inl err \<Rightarrow> (Inl err, f, fds)
            | Inr copy \<Rightarrow>
                (let fds = fds @ [copy] in
                 case port_type p of
                   SOCKET_SOCKET \<Rightarrow>
                     (case socket_address_print e (address p) of
                        Inl err \<Rightarrow> (Inl err, f, fds)
                      | Inr t \<Rightarrow>
                          if Have_linux_netlink_h e \<and> family (address p) = AF_NETLINK
                          then serialize_ports e ps
                                 (unit_serialize_item f ''netlink'' (fmt_i copy @ '' '' @ t)) fds
                          else serialize_ports e ps
                                 (unit_serialize_item f ''socket''
                                    (fmt_i copy @ '' '' @ fmt_i (sock_type (address p)) @ '' '' @ t))
                                 fds)
                 | SOCKET_SPECIAL \<Rightarrow>
                     serialize_ports e ps
                       (unit_serialize_item f ''special'' (fmt_i copy @ '' '' @ path p)) fds
                 | SOCKET_MQUEUE \<Rightarrow>
                     serialize_ports e ps
                       (unit_serialize_item f ''mqueue'' (fmt_i copy @ '' '' @ path p)) fds
                 | SOCKET_FIFO \<Rightarrow>
                     serialize_ports e ps
                       (unit_serialize_item f ''fifo'' (fmt_i copy @ '' '' @ path p)) fds)))"

definition socket_serialize ::
  "env \<Rightarrow> Socket \<Rightarrow> item list \<Rightarrow> int list \<Rightarrow> (errno + unit) \<times> item list \<times> int list"
where
  "socket_serialize e s f fds =
     (let f = unit_serialize_item f ''state'' (socket_state_to_string (state s));
          f = unit_serialize_item f ''result'' (socket_result_to_string (result s));
          f = unit_serialize_item f ''n-accepted'' (fmt_u (unat (n_accepted s)));
          f = (if 0 < control_pid s
               then unit_serialize_item f ''control-pid'' (fmt_u (nat (control_pid s)))
               else f);
          f = (case control_command_id s of
                 Some c \<Rightarrow> unit_serialize_item f ''control-command'' (socket_exec_command_to_string c)
               | None \<Rightarrow> f)
      in case serialize_ports e (ports s) f fds of
           (Inl err, f, fds) \<Rightarrow> (Inl err, f, fds)
         | (Inr _, f, fds) \<Rightarrow> (Inr (), exec_context_serialize s f, fds))"

subsection \<open>Deserialization\<close>

text \<open>
  Reading numbers as the C library does. \<^verbatim>\<open>%i\<close> of \<^verbatim>\<open>sscanf\<close> skips white space,
  takes an optional sign, and reads the digits in the base their prefix tells, as
  \<^verbatim>\<open>strtol\<close> with base 0 does; the model does not bound the value, which the
  library does for numbers that no \<^verbatim>\<open>int\<close> holds. A space in the format skips any
  white space; \<^verbatim>\<open>%n\<close> then gives the offset of what is left.
\<close>

definition is_space :: "char \<Rightarrow> bool" where
  "is_space c = (c \<in> {CHR '' '', CHR 0x09, CHR 0x0A, CHR 0x0B, CHR 0x0C, CHR 0x0D})"

definition digit_val :: "char \<Rightarrow> nat option" where
  "digit_val c =
     (let n = (of_char c :: nat)
      in if 48 \<le> n \<and> n \<le> 57 then Some (n - 48)
         else if 97 \<le> n \<and> n \<le> 102 then Some (n - 87)
         else if 65 \<le> n \<and> n \<le> 70 then Some (n - 55)
         else None)"

definition is_digit :: "nat \<Rightarrow> char \<Rightarrow> bool" where
  "is_digit base c = (case digit_val c of None \<Rightarrow> False | Some d \<Rightarrow> d < base)"

fun scan_digits :: "nat \<Rightarrow> nat \<Rightarrow> string \<Rightarrow> nat \<times> string" where
  "scan_digits base acc [] = (acc, [])"
| "scan_digits base acc (c # cs) =
     (if is_digit base c then scan_digits base (acc * base + the (digit_val c)) cs
      else (acc, c # cs))"

definition scan_unsigned :: "string \<Rightarrow> (nat \<times> string) option" where
  "scan_unsigned cs =
     (case cs of
        [] \<Rightarrow> None
      | c # cs' \<Rightarrow>
          if c = CHR ''0'' then
            (case cs' of
               x # h # _ \<Rightarrow>
                 if (x = CHR ''x'' \<or> x = CHR ''X'') \<and> is_digit 16 h
                 then Some (scan_digits 16 0 (tl cs'))
                 else Some (scan_digits 8 0 cs')
             | _ \<Rightarrow> Some (scan_digits 8 0 cs'))
          else if is_digit 10 c then Some (scan_digits 10 0 cs)
          else None)"

definition scan_i :: "string \<Rightarrow> (int \<times> string) option" where
  "scan_i v =
     (case dropWhile is_space v of
        [] \<Rightarrow> None
      | c # cs \<Rightarrow>
          if c = CHR ''-'' then map_option (\<lambda>(n, r). (- int n, r)) (scan_unsigned cs)
          else if c = CHR ''+'' then map_option (\<lambda>(n, r). (int n, r)) (scan_unsigned cs)
          else map_option (\<lambda>(n, r). (int n, r)) (scan_unsigned (c # cs)))"

text \<open>\<^verbatim>\<open>sscanf(value, "%i %n", &fd, &skip)\<close>: the number and \<^verbatim>\<open>value+skip\<close>.\<close>

definition sscanf_i_n :: "string \<Rightarrow> (int \<times> string) option" where
  "sscanf_i_n v = map_option (\<lambda>(i, r). (i, dropWhile is_space r)) (scan_i v)"

text \<open>\<^verbatim>\<open>sscanf(value, "%i %i %n", &fd, &type, &skip)\<close> when it converts both numbers.\<close>

definition sscanf_i_i_n :: "string \<Rightarrow> (int \<times> int \<times> string) option" where
  "sscanf_i_i_n v =
     (case scan_i v of
        None \<Rightarrow> None
      | Some (i, r) \<Rightarrow>
          (case scan_i (dropWhile is_space r) of
             None \<Rightarrow> None
           | Some (j, r') \<Rightarrow> Some (i, j, dropWhile is_space r')))"

text \<open>
  \<^verbatim>\<open>safe_atou\<close> and \<^verbatim>\<open>parse_pid\<close> (util.c): the whole string is a number as
  \<^verbatim>\<open>strtoul\<close> with base 0 reads it, which fits an \<^verbatim>\<open>unsigned\<close>, respectively is a
  positive \<^verbatim>\<open>pid_t\<close>.
\<close>

definition safe_atou :: "string \<Rightarrow> (32 word) option" where
  "safe_atou v =
     (case scan_i v of
        Some (i, []) \<Rightarrow> if 0 \<le> i \<and> i < 2 ^ 32 then Some (word_of_int i) else None
      | _ \<Rightarrow> None)"

definition parse_pid :: "string \<Rightarrow> int option" where
  "parse_pid v =
     (case scan_i v of
        Some (i, []) \<Rightarrow> if 0 < i \<and> i < 2 ^ 31 then Some i else None
      | _ \<Rightarrow> None)"

text \<open>
  The search for the port a serialized descriptor belongs to, and what is done with
  the first port found: its old descriptor is closed and the new one put in its
  place. The result is the new list and the descriptor that was replaced, or \<open>None\<close>
  when no port matches.
\<close>

fun port_attach ::
  "(SocketPort \<Rightarrow> bool) \<Rightarrow> int \<Rightarrow> SocketPort list \<Rightarrow> (SocketPort list \<times> int) option"
where
  "port_attach m newfd [] = None"
| "port_attach m newfd (p # ps) =
     (if m p then Some (p\<lparr>fd := newfd\<rparr> # ps, fd p)
      else map_option (\<lambda>(ps', old). (p # ps', old)) (port_attach m newfd ps))"

definition deserialize_port ::
  "(SocketPort \<Rightarrow> bool) \<Rightarrow> int \<Rightarrow> Socket \<Rightarrow> int list \<Rightarrow> Socket \<times> int list"
where
  "deserialize_port m newfd s fds =
     (case port_attach m newfd (ports s) of
        None \<Rightarrow> (s, fds)
      | Some (ps, old) \<Rightarrow>
          (s\<lparr>ports := ps, closed_fds := safe_close old (closed_fds s)\<rparr>, removeAll newfd fds))"

definition socket_deserialize_item ::
  "env \<Rightarrow> Socket \<Rightarrow> string \<Rightarrow> string \<Rightarrow> int list \<Rightarrow> (errno + unit) \<times> Socket \<times> int list"
where
  "socket_deserialize_item e s key v fds =
     (if key = ''state'' then
        (case socket_state_from_string v of
           None \<Rightarrow> (Inr (), s, fds)
         | Some st \<Rightarrow> (Inr (), s\<lparr>deserialized_state := st\<rparr>, fds))
      else if key = ''result'' then
        (case socket_result_from_string v of
           None \<Rightarrow> (Inr (), s, fds)
         | Some f \<Rightarrow> if f \<noteq> SOCKET_SUCCESS then (Inr (), s\<lparr>result := f\<rparr>, fds)
                     else (Inr (), s, fds))
      else if key = ''n-accepted'' then
        (case safe_atou v of
           None \<Rightarrow> (Inr (), s, fds)
         | Some k \<Rightarrow> (Inr (), s\<lparr>n_accepted := n_accepted s + k\<rparr>, fds))
      else if key = ''control-pid'' then
        (case parse_pid v of
           None \<Rightarrow> (Inr (), s, fds)
         | Some pid \<Rightarrow> (Inr (), s\<lparr>control_pid := pid\<rparr>, fds))
      else if key = ''control-command'' then
        (case socket_exec_command_from_string v of
           None \<Rightarrow> (Inr (), s, fds)
         | Some c \<Rightarrow>
             (Inr (), s\<lparr>control_command_id := Some c, control_command := exec_command s c\<rparr>, fds))
      else if key = ''fifo'' then
        (case sscanf_i_n v of
           None \<Rightarrow> (Inr (), s, fds)
         | Some (f, rest) \<Rightarrow>
             if f < 0 \<or> f \<notin> set fds then (Inr (), s, fds)
             else (let (s, fds) =
                         deserialize_port (\<lambda>p. port_type p = SOCKET_FIFO \<and> path p = rest) f s fds
                   in (Inr (), s, fds)))
      else if key = ''special'' then
        (case sscanf_i_n v of
           None \<Rightarrow> (Inr (), s, fds)
         | Some (f, rest) \<Rightarrow>
             if f < 0 \<or> f \<notin> set fds then (Inr (), s, fds)
             else (let (s, fds) =
                         deserialize_port (\<lambda>p. port_type p = SOCKET_SPECIAL \<and> path p = rest) f s fds
                   in (Inr (), s, fds)))
      else if key = ''mqueue'' then
        (case sscanf_i_n v of
           None \<Rightarrow> (Inr (), s, fds)
         | Some (f, rest) \<Rightarrow>
             if f < 0 \<or> f \<notin> set fds then (Inr (), s, fds)
             else (let (s, fds) =
                         deserialize_port (\<lambda>p. port_type p = SOCKET_MQUEUE \<and> path p = rest) f s fds
                   in (Inr (), s, fds)))
      else if key = ''socket'' then
        (case sscanf_i_i_n v of
           None \<Rightarrow> (Inr (), s, fds)
         | Some (f, ty, rest) \<Rightarrow>
             if f < 0 \<or> ty < 0 \<or> f \<notin> set fds then (Inr (), s, fds)
             else (let (s, fds) =
                         deserialize_port (\<lambda>p. socket_address_is e (address p) rest ty) f s fds
                   in (Inr (), s, fds)))
      else if Have_linux_netlink_h e \<and> key = ''netlink'' then
        (case sscanf_i_n v of
           None \<Rightarrow> (Inr (), s, fds)
         | Some (f, rest) \<Rightarrow>
             if f < 0 \<or> f \<notin> set fds then (Inr (), s, fds)
             else (let (s, fds) =
                         deserialize_port (\<lambda>p. socket_address_is_netlink e (address p) rest) f s fds
                   in (Inr (), s, fds)))
      else if key = ''tmp-dir'' then
        (if strdup_ok e then (Inr (), s\<lparr>tmp_dir := Some v\<rparr>, fds) else (Inl ENOMEM, s, fds))
      else if key = ''var-tmp-dir'' then
        (if strdup_ok e then (Inr (), s\<lparr>var_tmp_dir := Some v\<rparr>, fds) else (Inl ENOMEM, s, fds))
      else (Inr (), s, fds))"

text \<open>
  The round trip of a stream: every item is given to \<^verbatim>\<open>socket_deserialize_item\<close>, in
  the order it was written, with the set of descriptors the call before left. What
  a call returns is not looked at.
\<close>

fun deserialize_items :: "env \<Rightarrow> Socket \<Rightarrow> item list \<Rightarrow> int list \<Rightarrow> Socket \<times> int list" where
  "deserialize_items e s [] fds = (s, fds)"
| "deserialize_items e s ((key, v) # f) fds =
     (case socket_deserialize_item e s key v fds of
        (_, s', fds') \<Rightarrow> deserialize_items e s' f fds')"

subsection \<open>Notions used in the statements\<close>

text \<open>
  The constructor \<^verbatim>\<open>socket_open_fds\<close> calls for a port, by its type, and the port
  \<^verbatim>\<open>socket_open_fds\<close> leaves behind when all constructors succeed.
\<close>

definition port_create :: "env \<Rightarrow> nat \<Rightarrow> SocketPort \<Rightarrow> errno + int" where
  "port_create e i p =
     (case port_type p of
        SOCKET_SOCKET \<Rightarrow> socket_address_listen e i p
      | SOCKET_SPECIAL \<Rightarrow> special_address_create e i p
      | SOCKET_FIFO \<Rightarrow> fifo_address_create e i p
      | SOCKET_MQUEUE \<Rightarrow> mq_address_create e i p)"

definition opened_port :: "env \<Rightarrow> nat \<times> SocketPort \<Rightarrow> SocketPort" where
  "opened_port e ip =
     (case ip of (i, p) \<Rightarrow>
        if 0 \<le> fd p then p
        else (case port_create e i p of Inr f \<Rightarrow> p\<lparr>fd := f\<rparr> | Inl _ \<Rightarrow> p))"

text \<open>
  The descriptors a unit holds open, and what the functions of the stop path leave
  alone: the counters, the configuration, the hand-over log; the result only changes
  to a failure; only descriptors of the unit are closed and none is opened.
\<close>

definition open_fds :: "Socket \<Rightarrow> int set" where
  "open_fds s = {f \<in> fd ` set (ports s). 0 \<le> f}"

definition frame :: "Socket \<Rightarrow> Socket \<Rightarrow> bool" where
  "frame s s' \<longleftrightarrow>
     n_accepted s' = n_accepted s \<and> n_connections s' = n_connections s \<and>
     max_connections s' = max_connections s \<and> accept s' = accept s \<and>
     handed_off s' = handed_off s \<and> jobs_added s' = jobs_added s \<and>
     exec_command s' = exec_command s \<and> send_sigkill s' = send_sigkill s \<and>
     (result s' = result s \<or> result s' \<noteq> SOCKET_SUCCESS) \<and>
     set (closed_fds s') \<subseteq> set (closed_fds s) \<union> open_fds s \<and>
     open_fds s' \<subseteq> open_fds s"

text \<open>The position of a state on the way from starting to dead.\<close>

fun state_rank :: "SocketState \<Rightarrow> nat" where
  "state_rank SOCKET_START_PRE = 0"
| "state_rank SOCKET_START_CHOWN = 1"
| "state_rank SOCKET_START_POST = 2"
| "state_rank SOCKET_LISTENING = 3"
| "state_rank SOCKET_RUNNING = 4"
| "state_rank SOCKET_STOP_PRE = 5"
| "state_rank SOCKET_STOP_PRE_SIGTERM = 6"
| "state_rank SOCKET_STOP_PRE_SIGKILL = 7"
| "state_rank SOCKET_STOP_POST = 8"
| "state_rank SOCKET_FINAL_SIGTERM = 9"
| "state_rank SOCKET_FINAL_SIGKILL = 10"
| "state_rank SOCKET_DEAD = 11"
| "state_rank SOCKET_FAILED = 11"

text \<open>
  What \<^verbatim>\<open>socket_serialize\<close> writes: the item of an open port whose duplicate is \<open>c\<close>,
  and the items that come before those of the ports.
\<close>

definition port_item :: "env \<Rightarrow> int \<Rightarrow> SocketPort \<Rightarrow> errno + item" where
  "port_item e c p =
     (case port_type p of
        SOCKET_SOCKET \<Rightarrow>
          (case socket_address_print e (address p) of
             Inl err \<Rightarrow> Inl err
           | Inr t \<Rightarrow>
               if Have_linux_netlink_h e \<and> family (address p) = AF_NETLINK
               then Inr (''netlink'', fmt_i c @ '' '' @ t)
               else Inr (''socket'', fmt_i c @ '' '' @ fmt_i (sock_type (address p)) @ '' '' @ t))
      | SOCKET_SPECIAL \<Rightarrow> Inr (''special'', fmt_i c @ '' '' @ path p)
      | SOCKET_MQUEUE \<Rightarrow> Inr (''mqueue'', fmt_i c @ '' '' @ path p)
      | SOCKET_FIFO \<Rightarrow> Inr (''fifo'', fmt_i c @ '' '' @ path p))"

definition head_items :: "Socket \<Rightarrow> item list" where
  "head_items s =
     [(''state'', socket_state_to_string (state s)),
      (''result'', socket_result_to_string (result s)),
      (''n-accepted'', fmt_u (unat (n_accepted s)))] @
     (if 0 < control_pid s then [(''control-pid'', fmt_u (nat (control_pid s)))] else []) @
     (case control_command_id s of
        Some c \<Rightarrow> [(''control-command'', socket_exec_command_to_string c)]
      | None \<Rightarrow> [])"

text \<open>
  For the round trip of a stream. The duplicate \<^verbatim>\<open>fdset_put_dup\<close> made of a descriptor;
  the test \<^verbatim>\<open>socket_deserialize_item\<close> applies to the ports when it reads the item written
  for the port \<open>p\<close>; what the item of a port must be like to be read back: no white
  space where the path or the printed address starts, and a type that is not
  negative; that the item of every open port finds this port and none before it;
  and a port with the duplicate of its descriptor, or closed.
\<close>

definition dup_of :: "env \<Rightarrow> int \<Rightarrow> int" where
  "dup_of e f = (case fdset_put_dup e f of Inr c \<Rightarrow> c | Inl _ \<Rightarrow> - 1)"

definition no_leading_space :: "string \<Rightarrow> bool" where
  "no_leading_space t = (dropWhile is_space t = t)"

definition line_match :: "env \<Rightarrow> SocketPort \<Rightarrow> SocketPort \<Rightarrow> bool" where
  "line_match e p q =
     (case port_type p of
        SOCKET_SOCKET \<Rightarrow>
          (case socket_address_print e (address p) of
             Inl _ \<Rightarrow> False
           | Inr t \<Rightarrow>
               if Have_linux_netlink_h e \<and> family (address p) = AF_NETLINK
               then socket_address_is_netlink e (address q) t
               else socket_address_is e (address q) t (sock_type (address p)))
      | SOCKET_SPECIAL \<Rightarrow> port_type q = SOCKET_SPECIAL \<and> path q = path p
      | SOCKET_MQUEUE \<Rightarrow> port_type q = SOCKET_MQUEUE \<and> path q = path p
      | SOCKET_FIFO \<Rightarrow> port_type q = SOCKET_FIFO \<and> path q = path p)"

definition port_ok :: "env \<Rightarrow> SocketPort \<Rightarrow> bool" where
  "port_ok e p =
     (case port_type p of
        SOCKET_SOCKET \<Rightarrow>
          (case socket_address_print e (address p) of
             Inl _ \<Rightarrow> False
           | Inr t \<Rightarrow>
               no_leading_space t \<and>
               ((Have_linux_netlink_h e \<and> family (address p) = AF_NETLINK) \<or>
                0 \<le> sock_type (address p)))
      | SOCKET_SPECIAL \<Rightarrow> no_leading_space (path p)
      | SOCKET_MQUEUE \<Rightarrow> no_leading_space (path p)
      | SOCKET_FIFO \<Rightarrow> no_leading_space (path p))"

fun own_lines :: "env \<Rightarrow> SocketPort list \<Rightarrow> SocketPort list \<Rightarrow> bool" where
  "own_lines e pre [] = True"
| "own_lines e pre (p # post) =
     ((fd p < 0 \<or> (line_match e p p \<and> list_all (\<lambda>q. \<not> line_match e p q) pre)) \<and>
      own_lines e (pre @ [p]) post)"

definition restored :: "env \<Rightarrow> bool \<Rightarrow> SocketPort \<Rightarrow> SocketPort" where
  "restored e b p = p\<lparr>fd := (if b \<and> 0 \<le> fd p then dup_of e (fd p) else - 1), fd_watch := False\<rparr>"

text \<open>
  The items \<^verbatim>\<open>socket_serialize\<close> writes for the ports, the duplicates it adds to the set
  of descriptors, and the items of the execution context.
\<close>

fun port_items :: "env \<Rightarrow> SocketPort list \<Rightarrow> item list" where
  "port_items e [] = []"
| "port_items e (p # ps) =
     (if fd p < 0 then port_items e ps
      else case port_item e (dup_of e (fd p)) p of
             Inr it \<Rightarrow> it # port_items e ps
           | Inl _ \<Rightarrow> port_items e ps)"

definition port_copies :: "env \<Rightarrow> SocketPort list \<Rightarrow> int list" where
  "port_copies e ps = map (\<lambda>p. dup_of e (fd p)) (filter (\<lambda>p. 0 \<le> fd p) ps)"

definition tmp_items :: "Socket \<Rightarrow> item list" where
  "tmp_items s =
     (case tmp_dir s of None \<Rightarrow> [] | Some d \<Rightarrow> [(''tmp-dir'', d)]) @
     (case var_tmp_dir s of None \<Rightarrow> [] | Some d \<Rightarrow> [(''var-tmp-dir'', d)])"

text \<open>
  The statement \<^verbatim>\<open>if (f != SOCKET_SUCCESS) s->result = f;\<close> with which every transition
  that takes a result begins.
\<close>

definition latch :: "Socket \<Rightarrow> SocketResult \<Rightarrow> Socket" where
  "latch s f = (if f \<noteq> SOCKET_SUCCESS then s\<lparr>result := f\<rparr> else s)"

subsection \<open>Example units and environments\<close>

text \<open>
  An environment in which every call succeeds, a loaded unit that has not been
  started, and ports of three kinds.
\<close>

definition service0 :: Service where
  "service0 = \<lparr>load_state = UNIT_LOADED, service_state = SERVICE_DEAD, is_sysv = False,
                has_exec_start = True, no_gc = False\<rparr>"

definition sockaddr0 :: sockaddr_union where
  "sockaddr0 = \<lparr>sa_family = AF_INET, sin_addr = 0x7F000001, sin_port = 9000,
                 sin6_addr = [], sin6_port = 0\<rparr>"

definition env0 :: env where
  "env0 = \<lparr>Use_MQ = True, Have_linux_netlink_h = False, HAVE_SYSV_COMPAT = False,
     unit_stop_pending = False,
     unit_watch_fd = (\<lambda>_. Inr ()),
     unit_watch_pid = (\<lambda>_. Inr ()),
     unit_watch_timer_spawn = (\<lambda>_. Inr ()),
     unit_watch_timer_signal = (\<lambda>_. Inr ()),
     unit_full_printf_strv = (\<lambda>_ _. Inr ()),
     exec_spawn = (\<lambda>_ _. Inr 100),
     fork = Inr 101,
     unit_kill_context = (\<lambda>_ _ _. Inr True),
     socket_address_listen = (\<lambda>i _. Inr (int i + 3)),
     special_address_create = (\<lambda>i _. Inr (int i + 3)),
     fifo_address_create = (\<lambda>i _. Inr (int i + 3)),
     mq_address_create = (\<lambda>i _. Inr (int i + 3)),
     label_get_create_label_from_exe = Inr (),
     unit_name_to_prefix = (\<lambda>_. Some ''x''),
     asprintf_name = (\<lambda>p n. Some (p @ ''@'' @ fmt_u (unat n) @ ''.service'')),
     manager_load_unit = (\<lambda>_. Inr service0),
     unit_add_two_dependencies = Inr (),
     is_clean_exit = (\<lambda>c st. c = CLD_EXITED \<and> st = 0),
     triggers_active_or_pending = False,
     manager_add_job = Inr (),
     unit_name_build = (\<lambda>p i. Some (p @ ''@'' @ i @ ''.service'')),
     unit_add_name = (\<lambda>_. Inr ()),
     service_set_socket_fd = (\<lambda>_. Inr ()),
     SO_PEERCRED = True,
     getsockname = (\<lambda>_. Inr sockaddr0),
     getpeername = (\<lambda>_. Inr sockaddr0),
     getsockopt_peercred = (\<lambda>_. Inr (1, 0)),
     inet_ntop = (\<lambda>_. ''::1''),
     asprintf_ok = True,
     uninitialized_r = [],
     fdset_put_dup = (\<lambda>f. Inr (f + 10)),
     socket_address_print = (\<lambda>a. Inr (sockaddr a)),
     socket_address_is = (\<lambda>a v t. sockaddr a = v \<and> sock_type a = t),
     socket_address_is_netlink = (\<lambda>a v. family a = AF_NETLINK \<and> sockaddr a = v),
     strdup_ok = True,
     unit_watch_timer_coldplug = Inr ()\<rparr>"

definition socket0 :: "SocketPort list \<Rightarrow> Socket" where
  "socket0 ps = \<lparr>state = SOCKET_DEAD, deserialized_state = SOCKET_DEAD, result = SOCKET_SUCCESS,
     accept = False, n_accepted = 0, n_connections = 0, max_connections = 64,
     control_pid = 0, control_command_id = None, control_command = [],
     exec_command = (\<lambda>_. []), ports = ps, timer_watch = False, user = [], group = [],
     send_sigkill = True, service = Some service0, tmp_dir = None, var_tmp_dir = None,
     closed_fds = [], notifications = [], handed_off = [], jobs_added = 0\<rparr>"

definition fifo_port :: "string \<Rightarrow> int \<Rightarrow> SocketPort" where
  "fifo_port p f = \<lparr>port_type = SOCKET_FIFO, fd = f, fd_watch = False, path = p,
     address = \<lparr>family = AF_OTHER 0, sock_type = 0, sockaddr = []\<rparr>\<rparr>"

definition special_port :: "string \<Rightarrow> int \<Rightarrow> SocketPort" where
  "special_port p f = \<lparr>port_type = SOCKET_SPECIAL, fd = f, fd_watch = False, path = p,
     address = \<lparr>family = AF_OTHER 0, sock_type = 0, sockaddr = []\<rparr>\<rparr>"

definition stream_port :: "string \<Rightarrow> int \<Rightarrow> SocketPort" where
  "stream_port a f = \<lparr>port_type = SOCKET_SOCKET, fd = f, fd_watch = False, path = [],
     address = \<lparr>family = AF_UNIX, sock_type = 1, sockaddr = a\<rparr>\<rparr>"

definition env_fifo_fails :: env where
  "env_fifo_fails = env0\<lparr>fifo_address_create := (\<lambda>_ _. Inl EEXIST)\<rparr>"

definition socket_two_ports :: Socket where
  "socket_two_ports = socket0 [special_port ''/dev/x'' 5, fifo_port ''/run/y'' (-1)]"

definition env_stop_pending :: env where
  "env_stop_pending = env0\<lparr>unit_stop_pending := True\<rparr>"

definition socket_listening :: Socket where
  "socket_listening =
     (socket0 [(fifo_port ''/run/x.pipe'' 3)\<lparr>fd_watch := True\<rparr>])\<lparr>state := SOCKET_LISTENING\<rparr>"

definition command0 :: ExecCommand where
  "command0 = \<lparr>argv = [''/bin/sleep'', ''10''], ignore = False\<rparr>"

definition socket_in_start_pre :: Socket where
  "socket_in_start_pre =
     (socket0 [])\<lparr>state := SOCKET_START_PRE, control_pid := 100,
                  control_command_id := Some SOCKET_EXEC_START_PRE,
                  control_command := [command0],
                  exec_command := (\<lambda>c. if c = SOCKET_EXEC_START_PRE then [command0] else []),
                  timer_watch := True\<rparr>"

definition socket_timed_out :: Socket where
  "socket_timed_out =
     socket_in_start_pre\<lparr>state := SOCKET_FINAL_SIGTERM, result := SOCKET_FAILURE_TIMEOUT,
             notifications := [(UNIT_ACTIVATING, UNIT_DEACTIVATING)]\<rparr>"

definition socket_exited :: Socket where
  "socket_exited =
     socket_in_start_pre\<lparr>state := SOCKET_FAILED, result := SOCKET_FAILURE_EXIT_CODE,
             control_pid := 0, control_command_id := None, control_command := [],
             timer_watch := False,
             notifications := [(UNIT_ACTIVATING, UNIT_DEACTIVATING), (UNIT_DEACTIVATING, UNIT_FAILED)]\<rparr>"

definition socket_accepting :: Socket where
  "socket_accepting =
     (socket0 [(stream_port ''/run/x.sock'' 3)\<lparr>fd_watch := True\<rparr>])
       \<lparr>state := SOCKET_LISTENING, accept := True, service := None, max_connections := 1\<rparr>"

definition socket_accepted :: Socket where
  "socket_accepted =
     socket_accepting\<lparr>n_accepted := 1, n_connections := 1, handed_off := [7], jobs_added := 1\<rparr>"

definition env_enotconn :: env where
  "env_enotconn = env0\<lparr>getpeername := (\<lambda>_. Inl ENOTCONN)\<rparr>"

definition env_eperm :: env where
  "env_eperm = env0\<lparr>getpeername := (\<lambda>_. Inl EPERM)\<rparr>"

definition socket_failed :: Socket where
  "socket_failed =
     (socket0 [])\<lparr>state := SOCKET_FAILED, result := SOCKET_FAILURE_TIMEOUT,
        exec_command := (\<lambda>c. if c = SOCKET_EXEC_START_PRE then [command0] else [])\<rparr>"

definition socket_restarted :: Socket where
  "socket_restarted =
     socket_failed\<lparr>state := SOCKET_START_PRE, result := SOCKET_SUCCESS, control_pid := 100,
        control_command_id := Some SOCKET_EXEC_START_PRE, control_command := [command0],
        timer_watch := True, notifications := [(UNIT_FAILED, UNIT_ACTIVATING)]\<rparr>"

definition socket_killed :: Socket where
  "socket_killed = socket_timed_out\<lparr>state := SOCKET_FINAL_SIGKILL,
      notifications := [(UNIT_ACTIVATING, UNIT_DEACTIVATING), (UNIT_DEACTIVATING, UNIT_DEACTIVATING)]\<rparr>"

definition socket_serving :: Socket where
  "socket_serving =
     (socket0 [stream_port ''/run/x.sock'' 3, fifo_port ''/run/y'' 4])
       \<lparr>state := SOCKET_LISTENING, n_accepted := 5\<rparr>"

definition socket_reloaded :: Socket where
  "socket_reloaded = socket0 [stream_port ''/run/x.sock'' (- 1), fifo_port ''/run/y'' (- 1)]"

definition socket_twin :: Socket where
  "socket_twin =
     (socket0 [fifo_port ''/run/y'' 3, fifo_port ''/run/y'' 4])\<lparr>state := SOCKET_LISTENING\<rparr>"

definition socket_twin_reloaded :: Socket where
  "socket_twin_reloaded = socket0 [fifo_port ''/run/y'' (- 1), fifo_port ''/run/y'' (- 1)]"

definition env_third_fails :: env where
  "env_third_fails =
     env0\<lparr>fifo_address_create := (\<lambda>i _. if i = 2 then Inl EEXIST else Inr (int i + 3))\<rparr>"

definition socket_three_ports :: Socket where
  "socket_three_ports =
     socket0 [special_port ''/dev/x'' 5, fifo_port ''/run/y'' (-1), fifo_port ''/run/z'' (-1)]"
section \<open>Properties\<close>

subsection \<open>Descriptors and the stop path\<close>

lemma frame_refl [simp]: "frame s s"
  by (simp add: frame_def)

lemma frame_trans:
  assumes "frame s s'" and "frame s' s''"
  shows "frame s s''"
proof -
  have c: "set (closed_fds s'') \<subseteq> set (closed_fds s) \<union> open_fds s"
    using assms unfolding frame_def by blast
  have p: "open_fds s'' \<subseteq> open_fds s"
    using assms unfolding frame_def by blast
  have r: "result s'' = result s \<or> result s'' \<noteq> SOCKET_SUCCESS"
    using assms unfolding frame_def by metis
  show ?thesis
    using assms c p r unfolding frame_def by simp
qed

lemma close_ports_fst:
  "fst (close_ports ps log) = map (\<lambda>p. if fd p < 0 then p else p\<lparr>fd_watch := False, fd := -1\<rparr>) ps"
  by (induction ps arbitrary: log) (simp_all add: Let_def case_prod_beta)

lemma close_ports_snd:
  "snd (close_ports ps log) = log @ map fd (filter (\<lambda>p. 0 \<le> fd p) ps)"
  by (induction ps arbitrary: log) (simp_all add: Let_def safe_close_def case_prod_beta)

lemma unwatch_ports_map:
  "unwatch_ports ps = map (\<lambda>p. if fd p < 0 then p else p\<lparr>fd_watch := False\<rparr>) ps"
  by (induction ps) auto

lemma socket_close_fds_eq:
  "socket_close_fds s =
     s\<lparr>ports := map (\<lambda>p. if fd p < 0 then p else p\<lparr>fd_watch := False, fd := -1\<rparr>) (ports s),
       closed_fds := closed_fds s @ map fd (filter (\<lambda>p. 0 \<le> fd p) (ports s))\<rparr>"
  by (simp add: socket_close_fds_def case_prod_beta close_ports_fst close_ports_snd)

lemma open_fds_close [simp]: "open_fds (socket_close_fds s) = {}"
  by (auto simp: open_fds_def socket_close_fds_eq)

lemma map_fd_unwatch_ports [simp]: "map fd (unwatch_ports ps) = map fd ps"
  by (induction ps) auto

lemma fd_image_unwatch_ports [simp]: "fd ` set (unwatch_ports ps) = fd ` set ps"
  using map_fd_unwatch_ports[of ps] by (metis set_map)

lemma open_fds_unwatch [simp]: "open_fds (socket_unwatch_fds s) = open_fds s"
  by (simp add: open_fds_def socket_unwatch_fds_def)

lemma frame_close_fds: "frame s (socket_close_fds s)"
  by (auto simp: frame_def socket_close_fds_eq open_fds_def)

lemma frame_unwatch_fds: "frame s (socket_unwatch_fds s)"
  using open_fds_unwatch[of s] by (simp add: frame_def socket_unwatch_fds_def)

lemma frame_unwatch_control_pid: "frame s (socket_unwatch_control_pid s)"
  by (simp add: frame_def socket_unwatch_control_pid_def open_fds_def)

lemma frame_upd [simp]:
  "frame s (s'\<lparr>state := st\<rparr>) = frame s s'"
  "frame s (s'\<lparr>timer_watch := b\<rparr>) = frame s s'"
  "frame s (s'\<lparr>control_pid := pid\<rparr>) = frame s s'"
  "frame s (s'\<lparr>control_command := cc\<rparr>) = frame s s'"
  "frame s (s'\<lparr>control_command_id := ci\<rparr>) = frame s s'"
  "frame s (s'\<lparr>notifications := n\<rparr>) = frame s s'"
  "frame s (s'\<lparr>tmp_dir := t\<rparr>) = frame s s'"
  "frame s (s'\<lparr>var_tmp_dir := t\<rparr>) = frame s s'"
  "frame s (s'\<lparr>service := sv\<rparr>) = frame s s'"
  by (simp_all add: frame_def open_fds_def)

lemma frame_upd_left [simp]:
  "frame (s\<lparr>state := st\<rparr>) s' = frame s s'"
  "frame (s\<lparr>timer_watch := b\<rparr>) s' = frame s s'"
  "frame (s\<lparr>control_pid := pid\<rparr>) s' = frame s s'"
  "frame (s\<lparr>control_command := cc\<rparr>) s' = frame s s'"
  "frame (s\<lparr>control_command_id := ci\<rparr>) s' = frame s s'"
  "frame (s\<lparr>notifications := n\<rparr>) s' = frame s s'"
  "frame (s\<lparr>tmp_dir := t\<rparr>) s' = frame s s'"
  "frame (s\<lparr>var_tmp_dir := t\<rparr>) s' = frame s s'"
  "frame (s\<lparr>service := sv\<rparr>) s' = frame s s'"
  by (simp_all add: frame_def open_fds_def)

lemma frame_result_upd [simp]: "f \<noteq> SOCKET_SUCCESS \<Longrightarrow> frame s s' \<Longrightarrow> frame s (s'\<lparr>result := f\<rparr>)"
  by (simp add: frame_def open_fds_def)

lemma frame_unwatch_control_pid_iff [simp]:
  "frame s (socket_unwatch_control_pid s') = frame s s'"
  "frame (socket_unwatch_control_pid s) s' = frame s s'"
  by (simp_all add: socket_unwatch_control_pid_def)

lemma frame_close_fdsI [simp]: "frame s x \<Longrightarrow> frame s (socket_close_fds x)"
  by (rule frame_trans[OF _ frame_close_fds])

lemma frame_unwatch_fdsI [simp]: "frame s x \<Longrightarrow> frame s (socket_unwatch_fds x)"
  by (rule frame_trans[OF _ frame_unwatch_fds])

lemma frame_set_stateI [simp]: "frame s x \<Longrightarrow> frame s (socket_set_state x st)"
  by (simp add: socket_set_state_def Let_def)

lemma frame_latchI [simp]:
  "frame s x \<Longrightarrow> frame s (if f \<noteq> SOCKET_SUCCESS then x\<lparr>result := f\<rparr> else x)"
  by (simp add: frame_result_upd)

lemma frame_spawn [simp]: "frame s x \<Longrightarrow> frame s (snd (socket_spawn e x c))"
  by (simp add: socket_spawn_def Let_def split: sum.split)

lemma frame_enter_deadI [simp]: "frame s x \<Longrightarrow> frame s (socket_enter_dead x f)"
  by (simp add: socket_enter_dead_def Let_def frame_result_upd)

lemma frame_enter_signal_final [simp]:
  "frame s x \<Longrightarrow> frame s (socket_enter_signal e x SOCKET_FINAL_SIGTERM f)"
  "frame s x \<Longrightarrow> frame s (socket_enter_signal e x SOCKET_FINAL_SIGKILL f)"
  by (subst socket_enter_signal.simps, simp add: Let_def split: sum.split bool.split split del: if_split)+

lemma frame_enter_stop_postI [simp]: "frame s x \<Longrightarrow> frame s (socket_enter_stop_post e x f)"
  by (subst socket_enter_stop_post.simps)
     (simp add: Let_def case_prod_beta split: sum.split list.split split del: if_split)

lemma frame_enter_signalI [simp]: "frame s x \<Longrightarrow> frame s (socket_enter_signal e x st f)"
  by (subst socket_enter_signal.simps) (simp add: Let_def split: sum.split bool.split)

lemma frame_enter_stop_preI [simp]: "frame s x \<Longrightarrow> frame s (socket_enter_stop_pre e x f)"
  unfolding socket_enter_stop_pre_def
  by (simp add: Let_def case_prod_beta split: sum.split list.split split del: if_split)

lemma state_socket_close_fds [simp]: "state (socket_close_fds s) = state s"
  by (simp add: socket_close_fds_eq)

lemma result_socket_close_fds [simp]: "result (socket_close_fds s) = result s"
  by (simp add: socket_close_fds_eq)

lemma state_socket_set_state [simp]: "state (socket_set_state s st) = st"
  by (simp add: socket_set_state_def Let_def socket_unwatch_fds_def socket_unwatch_control_pid_def)

lemma result_socket_set_state [simp]: "result (socket_set_state s st) = result s"
  by (simp add: socket_set_state_def Let_def socket_unwatch_fds_def socket_unwatch_control_pid_def)

lemma result_socket_unwatch_control_pid [simp]:
  "result (socket_unwatch_control_pid s) = result s"
  by (simp add: socket_unwatch_control_pid_def)

lemma state_socket_unwatch_control_pid [simp]:
  "state (socket_unwatch_control_pid s) = state s"
  by (simp add: socket_unwatch_control_pid_def)

lemma result_socket_spawn [simp]: "result (snd (socket_spawn e s c)) = result s"
  by (simp add: socket_spawn_def Let_def split: sum.split)

lemma state_socket_spawn [simp]: "state (snd (socket_spawn e s c)) = state s"
  by (simp add: socket_spawn_def Let_def split: sum.split)

lemma result_socket_enter_dead:
  "result (socket_enter_dead s f) = (if f \<noteq> SOCKET_SUCCESS then f else result s)"
  by (simp add: socket_enter_dead_def Let_def)

lemma state_socket_enter_dead:
  "state (socket_enter_dead s f) =
     (if f \<noteq> SOCKET_SUCCESS \<or> result s \<noteq> SOCKET_SUCCESS then SOCKET_FAILED else SOCKET_DEAD)"
  by (simp add: socket_enter_dead_def Let_def)

lemma rank_enter_dead [simp]: "state_rank (state (socket_enter_dead s f)) = 11"
  by (simp add: state_socket_enter_dead)

lemma rank_enter_signal_final [simp]:
  "9 \<le> state_rank (state (socket_enter_signal e s SOCKET_FINAL_SIGTERM f))"
  "10 \<le> state_rank (state (socket_enter_signal e s SOCKET_FINAL_SIGKILL f))"
  by (subst socket_enter_signal.simps, simp add: Let_def split: sum.split bool.split split del: if_split)+

lemma rank_enter_stop_post [simp]:
  "8 \<le> state_rank (state (socket_enter_stop_post e s f))"
  by (subst socket_enter_stop_post.simps)
     (simp add: Let_def case_prod_beta order_trans[OF _ rank_enter_signal_final(1)]
        split: sum.split list.split split del: if_split)

lemma rank_enter_signal_stop_pre [simp]:
  "6 \<le> state_rank (state (socket_enter_signal e s SOCKET_STOP_PRE_SIGTERM f))"
  "7 \<le> state_rank (state (socket_enter_signal e s SOCKET_STOP_PRE_SIGKILL f))"
  by (subst socket_enter_signal.simps,
      simp add: Let_def order_trans[OF _ rank_enter_stop_post]
        split: sum.split bool.split split del: if_split)+

lemma rank_enter_stop_pre [simp]:
  "5 \<le> state_rank (state (socket_enter_stop_pre e s f))"
  unfolding socket_enter_stop_pre_def
  by (simp add: Let_def case_prod_beta order_trans[OF _ rank_enter_stop_post]
        split: sum.split list.split split del: if_split)

text \<open>a failure passed in, or latched before, is still there afterwards\<close>

lemma failed_enter_dead [simp]:
  "f \<noteq> SOCKET_SUCCESS \<or> result s \<noteq> SOCKET_SUCCESS \<Longrightarrow> result (socket_enter_dead s f) \<noteq> SOCKET_SUCCESS"
  by (auto simp: result_socket_enter_dead)

lemma failed_enter_signal_final [simp]:
  "f \<noteq> SOCKET_SUCCESS \<or> result s \<noteq> SOCKET_SUCCESS \<Longrightarrow>
     result (socket_enter_signal e s SOCKET_FINAL_SIGTERM f) \<noteq> SOCKET_SUCCESS"
  "f \<noteq> SOCKET_SUCCESS \<or> result s \<noteq> SOCKET_SUCCESS \<Longrightarrow>
     result (socket_enter_signal e s SOCKET_FINAL_SIGKILL f) \<noteq> SOCKET_SUCCESS"
  by (subst socket_enter_signal.simps,
      simp add: Let_def if_distrib[of result] split: sum.split bool.split)+

lemma failed_enter_stop_post [simp]:
  "f \<noteq> SOCKET_SUCCESS \<or> result s \<noteq> SOCKET_SUCCESS \<Longrightarrow>
     result (socket_enter_stop_post e s f) \<noteq> SOCKET_SUCCESS"
  by (subst socket_enter_stop_post.simps)
     (simp add: Let_def case_prod_beta if_distrib[of result] split: sum.split list.split)

lemma failed_enter_signal [simp]:
  "f \<noteq> SOCKET_SUCCESS \<or> result s \<noteq> SOCKET_SUCCESS \<Longrightarrow>
     result (socket_enter_signal e s st f) \<noteq> SOCKET_SUCCESS"
  by (subst socket_enter_signal.simps)
     (simp add: Let_def if_distrib[of result] split: sum.split bool.split)

lemma failed_enter_stop_pre [simp]:
  "f \<noteq> SOCKET_SUCCESS \<or> result s \<noteq> SOCKET_SUCCESS \<Longrightarrow>
     result (socket_enter_stop_pre e s f) \<noteq> SOCKET_SUCCESS"
  unfolding socket_enter_stop_pre_def
  by (simp add: Let_def case_prod_beta if_distrib[of result] split: sum.split list.split)

subsection \<open>Opening the endpoints\<close>

lemma socket_instantiate_service_frame:
  "socket_instantiate_service e s = Some (r, s') \<Longrightarrow> s' = s\<lparr>service := service s'\<rparr>"
  by (auto simp: socket_instantiate_service_def split: if_splits option.splits sum.splits)

lemma socket_open_fds_label_frame:
  "socket_open_fds_label e s = Some (r, s') \<Longrightarrow> s' = s\<lparr>service := service s'\<rparr>"
  by (auto simp: socket_open_fds_label_def split: if_splits option.splits sum.splits prod.splits
           dest: socket_instantiate_service_frame)

lemma open_ports_Cons:
  assumes "open_ports e s kl done (p # todo) = Some (x, s')"
  obtains
    (skip) "0 \<le> fd p" "open_ports e s kl (done @ [p]) todo = Some (x, s')"
  | (opened) s1 sv kl1 f where "fd p < 0" "s1 = s\<lparr>service := sv\<rparr>"
      "port_create e (length done) p = Inr f"
      "open_ports e s1 kl1 (done @ [p\<lparr>fd := f\<rparr>]) todo = Some (x, s')"
  | (rollback) s1 sv err where "fd p < 0" "s1 = s\<lparr>service := sv\<rparr>"
      "port_create e (length done) p = Inl err" "x = RolledBack err"
      "s' = socket_close_fds (s1\<lparr>ports := done @ p # todo\<rparr>)"
  | (returned) s1 sv err where "fd p < 0" "s1 = s\<lparr>service := sv\<rparr>"
      "x = Returned err" "s' = s1\<lparr>ports := done @ p # todo\<rparr>"
proof (cases "0 \<le> fd p")
  case True
  with assms skip show ?thesis by simp
next
  case False
  hence neg: "fd p < 0" by simp
  have self: "s = s\<lparr>service := service s\<rparr>" by simp
  show ?thesis
  proof (cases "port_type p")
    case SOCKET_SOCKET
    obtain r s1 where lab: "(if kl then Some (Inr (), s) else socket_open_fds_label e s) = Some (r, s1)"
      using assms False SOCKET_SOCKET by (auto split: option.splits)
    have fr: "s1 = s\<lparr>service := service s1\<rparr>"
      using lab socket_open_fds_label_frame[of e s r s1] by (auto split: if_splits)
    show ?thesis
    proof (cases r)
      case (Inl err)
      with assms False SOCKET_SOCKET lab returned[OF neg fr] show ?thesis by auto
    next
      case (Inr u)
      show ?thesis
      proof (cases "socket_address_listen e (length done) p")
        case (Inl err)
        with assms False SOCKET_SOCKET lab Inr rollback[OF neg fr, of err] show ?thesis
          by (auto simp: port_create_def)
      next
        case (Inr f)
        with assms False SOCKET_SOCKET lab \<open>r = Inr u\<close> opened[OF neg fr, of f True] show ?thesis
          by (auto simp: port_create_def)
      qed
    qed
  next
    case SOCKET_FIFO
    with assms False opened[OF neg self, of _ kl] rollback[OF neg self] show ?thesis
      by (auto simp: port_create_def split: sum.splits)
  next
    case SOCKET_SPECIAL
    with assms False opened[OF neg self, of _ kl] rollback[OF neg self] show ?thesis
      by (auto simp: port_create_def split: sum.splits)
  next
    case SOCKET_MQUEUE
    with assms False opened[OF neg self, of _ kl] rollback[OF neg self] show ?thesis
      by (auto simp: port_create_def split: sum.splits if_splits)
  qed
qed

lemma open_ports_frame:
  "open_ports e s kl done todo = Some (x, s') \<Longrightarrow>
     \<exists>ps sv cl. s' = s\<lparr>ports := ps, service := sv, closed_fds := cl\<rparr>"
proof (induction todo arbitrary: s kl "done")
  case Nil
  have "s\<lparr>ports := done\<rparr> = s\<lparr>ports := done, service := service s, closed_fds := closed_fds s\<rparr>"
    by simp
  with Nil show ?case by auto
next
  case (Cons p todo)
  from Cons.prems show ?case
  proof (cases rule: open_ports_Cons)
    case skip
    then show ?thesis using Cons.IH by blast
  next
    case (opened s1 sv kl1 f)
    from Cons.IH[OF opened(4)] obtain ps sv' cl
      where "s' = s1\<lparr>ports := ps, service := sv', closed_fds := cl\<rparr>" by blast
    with opened(2) have "s' = s\<lparr>ports := ps, service := sv', closed_fds := cl\<rparr>" by simp
    then show ?thesis by blast
  next
    case (rollback s1 sv err)
    then have "s' = s\<lparr>ports := ports s', service := sv, closed_fds := closed_fds s'\<rparr>"
      by (simp add: socket_close_fds_eq)
    then show ?thesis by blast
  next
    case (returned s1 sv err)
    then have "s' = s\<lparr>ports := ports s', service := sv, closed_fds := closed_fds s\<rparr>"
      by simp
    then show ?thesis by blast
  qed
qed

lemma open_ports_Opened:
  "open_ports e s kl done todo = Some (Opened, s') \<Longrightarrow>
     ports s' = done @ map (opened_port e) (enumerate (length done) todo) \<and>
     (\<forall>(i, p) \<in> set (enumerate (length done) todo).
         fd p < 0 \<longrightarrow> (\<exists>f. port_create e i p = Inr f))"
proof (induction todo arbitrary: s kl "done")
  case Nil
  then show ?case by auto
next
  case (Cons p todo)
  from Cons.prems show ?case
  proof (cases rule: open_ports_Cons)
    case skip
    from Cons.IH[OF skip(2)] skip(1) show ?thesis
      by (auto simp: opened_port_def)
  next
    case (opened s1 sv kl1 f)
    from Cons.IH[OF opened(4)] opened(1,3) show ?thesis
      by (auto simp: opened_port_def)
  qed simp_all
qed

lemma open_ports_RolledBack_closed:
  "open_ports e s kl done todo = Some (RolledBack err, s') \<Longrightarrow>
     (\<forall>p \<in> set (ports s'). fd p < 0) \<and> length (ports s') = length done + length todo \<and>
     {f \<in> fd ` (set done \<union> set todo). 0 \<le> f} \<subseteq> set (closed_fds s')"
proof (induction todo arbitrary: s kl "done")
  case Nil
  then show ?case by auto
next
  case (Cons p todo)
  from Cons.prems show ?case
  proof (cases rule: open_ports_Cons)
    case skip
    from Cons.IH[OF skip(2)] show ?thesis by auto
  next
    case (opened s1 sv kl1 f)
    from Cons.IH[OF opened(4)] opened(1) show ?thesis by auto
  next
    case (rollback s1 sv err')
    then show ?thesis
      by (auto simp: socket_close_fds_eq)
  qed simp_all
qed

lemma open_ports_RolledBack_first:
  "open_ports e s kl done todo = Some (RolledBack err, s') \<Longrightarrow>
     \<exists>i < length todo. fd (todo ! i) < 0 \<and> port_create e (length done + i) (todo ! i) = Inl err \<and>
        (\<forall>j < i. fd (todo ! j) < 0 \<longrightarrow> (\<exists>f. port_create e (length done + j) (todo ! j) = Inr f))"
proof (induction todo arbitrary: s kl "done")
  case Nil
  then show ?case by auto
next
  case (Cons p todo)
  from Cons.prems show ?case
  proof (cases rule: open_ports_Cons)
    case skip
    from Cons.IH[OF skip(2)] obtain i where i: "i < length todo" "fd (todo ! i) < 0"
      "port_create e (Suc (length done) + i) (todo ! i) = Inl err"
      "\<forall>j<i. fd (todo ! j) < 0 \<longrightarrow> (\<exists>f. port_create e (Suc (length done) + j) (todo ! j) = Inr f)"
      by auto
    show ?thesis
    proof (intro exI[of _ "Suc i"] conjI allI impI)
      fix j assume "j < Suc i" "fd ((p # todo) ! j) < 0"
      with i(4) skip(1) show "\<exists>f. port_create e (length done + j) ((p # todo) ! j) = Inr f"
        by (cases j) auto
    qed (use i in auto)
  next
    case (opened s1 sv kl1 f)
    from Cons.IH[OF opened(4)] obtain i where i: "i < length todo" "fd (todo ! i) < 0"
      "port_create e (Suc (length done) + i) (todo ! i) = Inl err"
      "\<forall>j<i. fd (todo ! j) < 0 \<longrightarrow> (\<exists>f. port_create e (Suc (length done) + j) (todo ! j) = Inr f)"
      by auto
    show ?thesis
    proof (intro exI[of _ "Suc i"] conjI allI impI)
      fix j assume "j < Suc i" "fd ((p # todo) ! j) < 0"
      with i(4) opened(3) show "\<exists>f. port_create e (length done + j) ((p # todo) ! j) = Inr f"
        by (cases j) auto
    qed (use i in auto)
  next
    case (rollback s1 sv err')
    then show ?thesis
      by (intro exI[of _ 0]) auto
  qed simp_all
qed

subsection \<open>The outcomes of the transitions of the stop path\<close>

lemma rank_less [simp]:
  "n < 9 \<Longrightarrow> n < state_rank (state (socket_enter_signal e s SOCKET_FINAL_SIGTERM f))"
  "n < 10 \<Longrightarrow> n < state_rank (state (socket_enter_signal e s SOCKET_FINAL_SIGKILL f))"
  "n < 6 \<Longrightarrow> n < state_rank (state (socket_enter_signal e s SOCKET_STOP_PRE_SIGTERM f))"
  "n < 7 \<Longrightarrow> n < state_rank (state (socket_enter_signal e s SOCKET_STOP_PRE_SIGKILL f))"
  "n < 8 \<Longrightarrow> n < state_rank (state (socket_enter_stop_post e s f))"
  "n < 5 \<Longrightarrow> n < state_rank (state (socket_enter_stop_pre e s f))"
  using rank_enter_signal_final[of e s f] rank_enter_signal_stop_pre[of e s f]
        rank_enter_stop_post[of e s f] rank_enter_stop_pre[of e s f]
  by linarith+

lemma socket_enter_signal_cases:
  obtains
    (armed) x where "socket_enter_signal e s st f = socket_set_state x st"
      "result x = (if f \<noteq> SOCKET_SUCCESS then f else result s)"
  | (stop_post) x f' where "st = SOCKET_STOP_PRE_SIGTERM \<or> st = SOCKET_STOP_PRE_SIGKILL"
      "socket_enter_signal e s st f = socket_enter_stop_post e x f'"
      "result x = (if f \<noteq> SOCKET_SUCCESS then f else result s)"
      "f' = SOCKET_SUCCESS \<or> f' = SOCKET_FAILURE_RESOURCES"
  | (dead) x f' where "st \<noteq> SOCKET_STOP_PRE_SIGTERM" "st \<noteq> SOCKET_STOP_PRE_SIGKILL"
      "socket_enter_signal e s st f = socket_enter_dead x f'"
      "result x = (if f \<noteq> SOCKET_SUCCESS then f else result s)"
      "f' = SOCKET_SUCCESS \<or> f' = SOCKET_FAILURE_RESOURCES"
proof -
  define x where "x = (if f \<noteq> SOCKET_SUCCESS then s\<lparr>result := f\<rparr> else s)"
  have rx: "result x = (if f \<noteq> SOCKET_SUCCESS then f else result s)"
    by (simp add: x_def)
  have rx': "result (x\<lparr>timer_watch := True\<rparr>) = (if f \<noteq> SOCKET_SUCCESS then f else result s)"
    by (simp add: x_def)
  note xd = x_def[symmetric]
  have eq: "socket_enter_signal e s st f =
     (case unit_kill_context e st (st \<noteq> SOCKET_STOP_PRE_SIGTERM \<and> st \<noteq> SOCKET_FINAL_SIGTERM)
             (control_pid x) of
        Inl _ \<Rightarrow> (if st = SOCKET_STOP_PRE_SIGTERM \<or> st = SOCKET_STOP_PRE_SIGKILL
                  then socket_enter_stop_post e x SOCKET_FAILURE_RESOURCES
                  else socket_enter_dead x SOCKET_FAILURE_RESOURCES)
      | Inr True \<Rightarrow>
          (case unit_watch_timer_signal e st of
             Inl _ \<Rightarrow> (if st = SOCKET_STOP_PRE_SIGTERM \<or> st = SOCKET_STOP_PRE_SIGKILL
                       then socket_enter_stop_post e x SOCKET_FAILURE_RESOURCES
                       else socket_enter_dead x SOCKET_FAILURE_RESOURCES)
           | Inr _ \<Rightarrow> socket_set_state (x\<lparr>timer_watch := True\<rparr>) st)
      | Inr False \<Rightarrow>
          (if st = SOCKET_STOP_PRE_SIGTERM \<or> st = SOCKET_STOP_PRE_SIGKILL
           then socket_enter_stop_post e x SOCKET_SUCCESS
           else socket_enter_dead x SOCKET_SUCCESS))"
    by (subst socket_enter_signal.simps) (simp only: Let_def xd)
  show thesis
  proof (cases "st = SOCKET_STOP_PRE_SIGTERM \<or> st = SOCKET_STOP_PRE_SIGKILL")
    case True
    then show ?thesis
      using eq rx rx' armed[of "x\<lparr>timer_watch := True\<rparr>"] stop_post[of x]
      by (auto split: sum.splits bool.splits)
  next
    case False
    then show ?thesis
      using eq rx rx' armed[of "x\<lparr>timer_watch := True\<rparr>"] dead[of x]
      by (auto split: sum.splits bool.splits)
  qed
qed

lemma socket_enter_stop_post_cases:
  obtains
    (spawned) x where "socket_enter_stop_post e s f = socket_set_state x SOCKET_STOP_POST"
      "result x = (if f \<noteq> SOCKET_SUCCESS then f else result s)"
  | (signal) x f' where
      "socket_enter_stop_post e s f = socket_enter_signal e x SOCKET_FINAL_SIGTERM f'"
      "result x = (if f \<noteq> SOCKET_SUCCESS then f else result s)"
      "f' = SOCKET_SUCCESS \<or> f' = SOCKET_FAILURE_RESOURCES"
proof -
  let ?s1 = "(socket_unwatch_control_pid (if f \<noteq> SOCKET_SUCCESS then s\<lparr>result := f\<rparr> else s))
               \<lparr>control_command_id := Some SOCKET_EXEC_STOP_POST\<rparr>"
  let ?x = "?s1\<lparr>control_command := exec_command ?s1 SOCKET_EXEC_STOP_POST\<rparr>"
  have rx: "result ?x = (if f \<noteq> SOCKET_SUCCESS then f else result s)"
    by simp
  have eq: "socket_enter_stop_post e s f =
     (case control_command ?x of
        c # _ \<Rightarrow> (case socket_spawn e ?x c of
                    (Inl _, s') \<Rightarrow> socket_enter_signal e s' SOCKET_FINAL_SIGTERM
                                     SOCKET_FAILURE_RESOURCES
                  | (Inr _, s') \<Rightarrow> socket_set_state s' SOCKET_STOP_POST)
      | [] \<Rightarrow> socket_enter_signal e ?x SOCKET_FINAL_SIGTERM SOCKET_SUCCESS)"
    by (subst socket_enter_stop_post.simps) (simp only: Let_def)
  show thesis
  proof (cases "control_command ?x")
    case Nil
    from eq have "socket_enter_stop_post e s f
        = socket_enter_signal e ?x SOCKET_FINAL_SIGTERM SOCKET_SUCCESS"
      by (simp only: Nil list.case)
    with rx signal show ?thesis by blast
  next
    case (Cons c cs)
    obtain r s' where sp: "socket_spawn e ?x c = (r, s')" by (cases "socket_spawn e ?x c")
    have r: "result s' = (if f \<noteq> SOCKET_SUCCESS then f else result s)"
      using result_socket_spawn[of e ?x c] rx by (simp only: sp snd_conv)
    show ?thesis
    proof (cases r)
      case (Inl a)
      from eq have "socket_enter_stop_post e s f
          = socket_enter_signal e s' SOCKET_FINAL_SIGTERM SOCKET_FAILURE_RESOURCES"
        by (simp only: Cons list.case sp Inl prod.case sum.case)
      with r signal show ?thesis by blast
    next
      case (Inr b)
      from eq have "socket_enter_stop_post e s f = socket_set_state s' SOCKET_STOP_POST"
        by (simp only: Cons list.case sp Inr prod.case sum.case)
      with r spawned show ?thesis by blast
    qed
  qed
qed

lemma socket_enter_stop_pre_cases:
  obtains
    (spawned) x where "socket_enter_stop_pre e s f = socket_set_state x SOCKET_STOP_PRE"
      "result x = (if f \<noteq> SOCKET_SUCCESS then f else result s)"
  | (stop_post) x f' where
      "socket_enter_stop_pre e s f = socket_enter_stop_post e x f'"
      "result x = (if f \<noteq> SOCKET_SUCCESS then f else result s)"
      "f' = SOCKET_SUCCESS \<or> f' = SOCKET_FAILURE_RESOURCES"
proof -
  let ?s1 = "(socket_unwatch_control_pid (if f \<noteq> SOCKET_SUCCESS then s\<lparr>result := f\<rparr> else s))
               \<lparr>control_command_id := Some SOCKET_EXEC_STOP_PRE\<rparr>"
  let ?x = "?s1\<lparr>control_command := exec_command ?s1 SOCKET_EXEC_STOP_PRE\<rparr>"
  have rx: "result ?x = (if f \<noteq> SOCKET_SUCCESS then f else result s)"
    by simp
  have eq: "socket_enter_stop_pre e s f =
     (case control_command ?x of
        c # _ \<Rightarrow> (case socket_spawn e ?x c of
                    (Inl _, s') \<Rightarrow> socket_enter_stop_post e s' SOCKET_FAILURE_RESOURCES
                  | (Inr _, s') \<Rightarrow> socket_set_state s' SOCKET_STOP_PRE)
      | [] \<Rightarrow> socket_enter_stop_post e ?x SOCKET_SUCCESS)"
    by (simp only: socket_enter_stop_pre_def Let_def)
  show thesis
  proof (cases "control_command ?x")
    case Nil
    from eq have "socket_enter_stop_pre e s f = socket_enter_stop_post e ?x SOCKET_SUCCESS"
      by (simp only: Nil list.case)
    with rx stop_post show ?thesis by blast
  next
    case (Cons c cs)
    obtain r s' where sp: "socket_spawn e ?x c = (r, s')" by (cases "socket_spawn e ?x c")
    have r: "result s' = (if f \<noteq> SOCKET_SUCCESS then f else result s)"
      using result_socket_spawn[of e ?x c] rx by (simp only: sp snd_conv)
    show ?thesis
    proof (cases r)
      case (Inl a)
      from eq have "socket_enter_stop_pre e s f
          = socket_enter_stop_post e s' SOCKET_FAILURE_RESOURCES"
        by (simp only: Cons list.case sp Inl prod.case sum.case)
      with r stop_post show ?thesis by blast
    next
      case (Inr b)
      from eq have "socket_enter_stop_pre e s f = socket_set_state s' SOCKET_STOP_PRE"
        by (simp only: Cons list.case sp Inr prod.case sum.case)
      with r spawned show ?thesis by blast
    qed
  qed
qed

text \<open>the latched result after each transition\<close>

lemma result_enter_signal_final:
  assumes "st = SOCKET_FINAL_SIGTERM \<or> st = SOCKET_FINAL_SIGKILL"
  shows "result (socket_enter_signal e s st f)
     \<in> {if f \<noteq> SOCKET_SUCCESS then f else result s, SOCKET_FAILURE_RESOURCES}"
proof (cases rule: socket_enter_signal_cases[of e s st f])
  case (armed x)
  then show ?thesis by simp
next
  case (stop_post x f')
  with assms show ?thesis by auto
next
  case (dead x f')
  then show ?thesis by (auto simp: result_socket_enter_dead)
qed

lemma result_enter_stop_post:
  "result (socket_enter_stop_post e s f)
     \<in> {if f \<noteq> SOCKET_SUCCESS then f else result s, SOCKET_FAILURE_RESOURCES}"
proof (cases rule: socket_enter_stop_post_cases[of e s f])
  case (spawned x)
  then show ?thesis by simp
next
  case (signal x f')
  with result_enter_signal_final[of SOCKET_FINAL_SIGTERM e x f'] show ?thesis by auto
qed

lemma result_enter_signal:
  "result (socket_enter_signal e s st f)
     \<in> {if f \<noteq> SOCKET_SUCCESS then f else result s, SOCKET_FAILURE_RESOURCES}"
proof (cases rule: socket_enter_signal_cases[of e s st f])
  case (armed x)
  then show ?thesis by simp
next
  case (stop_post x f')
  with result_enter_stop_post[of e x f'] show ?thesis by auto
next
  case (dead x f')
  then show ?thesis by (auto simp: result_socket_enter_dead)
qed

lemma result_enter_stop_pre:
  "result (socket_enter_stop_pre e s f)
     \<in> {if f \<noteq> SOCKET_SUCCESS then f else result s, SOCKET_FAILURE_RESOURCES}"
proof (cases rule: socket_enter_stop_pre_cases[of e s f])
  case (spawned x)
  then show ?thesis by simp
next
  case (stop_post x f')
  with result_enter_stop_post[of e x f'] show ?thesis by auto
qed

lemma result_watch_ports [simp]: "result (snd (socket_watch_fds e s)) = result s"
  by (cases "watch_ports e (ports s)")
     (auto simp: socket_watch_fds_def socket_unwatch_fds_def split: sum.splits)

lemma result_socket_chown [simp]: "result (snd (socket_chown e s)) = result s"
  by (simp add: socket_chown_def split: sum.split)

lemma result_open_ports:
  "open_ports e s kl done todo = Some (x, s') \<Longrightarrow> result s' = result s"
  by (drule open_ports_frame) auto

lemma result_socket_open_fds:
  "socket_open_fds e s = Some (x, s') \<Longrightarrow> result s' = result s"
  unfolding socket_open_fds_def by (rule result_open_ports)

lemma failed_enter_listening [simp]:
  "result s \<noteq> SOCKET_SUCCESS \<Longrightarrow> result (socket_enter_listening e s) \<noteq> SOCKET_SUCCESS"
  by (simp add: socket_enter_listening_def case_prod_beta split: sum.split)

lemma failed_enter_start_post [simp]:
  "result s \<noteq> SOCKET_SUCCESS \<Longrightarrow> result (socket_enter_start_post e s) \<noteq> SOCKET_SUCCESS"
  by (simp add: socket_enter_start_post_def Let_def case_prod_beta split: sum.split list.split)

lemma failed_enter_start_chown:
  "socket_enter_start_chown e s = Some s' \<Longrightarrow> result s \<noteq> SOCKET_SUCCESS \<Longrightarrow>
     result s' \<noteq> SOCKET_SUCCESS"
  by (auto simp: socket_enter_start_chown_def Let_def case_prod_beta
           split: option.splits open_exit.splits sum.splits if_splits
           dest!: result_socket_open_fds)

lemma failed_run_next:
  "socket_run_next e s = Some s' \<Longrightarrow> result s \<noteq> SOCKET_SUCCESS \<Longrightarrow>
     result s' \<noteq> SOCKET_SUCCESS"
  by (auto simp: socket_run_next_def Let_def case_prod_beta
           split: list.splits sum.splits if_splits)


subsection \<open>A failure stays a failure\<close>

lemma failed_sigchld_final:
  "socket_sigchld_final e s f = Some s' \<Longrightarrow> result s \<noteq> SOCKET_SUCCESS \<Longrightarrow>
     result s' \<noteq> SOCKET_SUCCESS"
  by (cases "state s")
     (auto simp: socket_sigchld_final_def split: if_splits dest: failed_enter_start_chown)

lemma failed_sigchld_event:
  assumes ev: "socket_sigchld_event e s pid code status = Some s'"
    and fl: "result s \<noteq> SOCKET_SUCCESS"
  shows "result s' \<noteq> SOCKET_SUCCESS"
proof -
  let ?s0 = "s\<lparr>control_pid := 0\<rparr>"
  let ?f = "sigchld_result e ?s0 code status"
  let ?s1 = "if ?f \<noteq> SOCKET_SUCCESS then ?s0\<lparr>result := ?f\<rparr> else ?s0"
  have r1: "result ?s1 \<noteq> SOCKET_SUCCESS" using fl by simp
  have r2: "result (?s1\<lparr>control_command := [], control_command_id := None\<rparr>) \<noteq> SOCKET_SUCCESS"
    using fl by simp
  have c: "s' = s \<or> socket_run_next e ?s1 = Some s' \<or>
     socket_sigchld_final e (?s1\<lparr>control_command := [], control_command_id := None\<rparr>) ?f = Some s'"
  proof (cases "pid < 0")
    case True with ev show ?thesis by (simp add: socket_sigchld_event_def)
  next
    case n1: False
    show ?thesis
    proof (cases "pid \<noteq> control_pid s")
      case True with ev n1 show ?thesis by (simp add: socket_sigchld_event_def)
    next
      case n2: False
      show ?thesis
      proof (cases "\<not> is_clean_exit e code status \<and> code = CLD_OTHER")
        case True with ev n1 n2 show ?thesis by (auto simp: socket_sigchld_event_def)
      next
        case n3: False
        have eq: "socket_sigchld_event e s pid code status =
          (if (case control_command ?s1 of _ # _ # _ \<Rightarrow> True | _ \<Rightarrow> False) \<and> ?f = SOCKET_SUCCESS
           then socket_run_next e ?s1
           else socket_sigchld_final e
                  (?s1\<lparr>control_command := [], control_command_id := None\<rparr>) ?f)"
          using n1 n2 n3 unfolding socket_sigchld_event_def Let_def
          by (simp only: if_False if_True simp_thms)
        show ?thesis
        proof (cases "(case control_command ?s1 of _ # _ # _ \<Rightarrow> True | _ \<Rightarrow> False) \<and> ?f = SOCKET_SUCCESS")
          case True
          from ev eq have "socket_run_next e ?s1 = Some s'" by (simp only: if_P[OF True])
          then show ?thesis by blast
        next
          case False
          from ev eq have "socket_sigchld_final e
                  (?s1\<lparr>control_command := [], control_command_id := None\<rparr>) ?f = Some s'"
            by (simp only: if_not_P[OF False])
          then show ?thesis by blast
        qed
      qed
    qed
  qed
  then consider "s' = s"
    | "socket_run_next e ?s1 = Some s'"
    | "socket_sigchld_final e (?s1\<lparr>control_command := [], control_command_id := None\<rparr>) ?f = Some s'"
    by blast
  then show ?thesis
  proof cases
    case 1 with fl show ?thesis by simp
  next
    case 2 from failed_run_next[OF 2 r1] show ?thesis .
  next
    case 3 from failed_sigchld_final[OF 3 r2] show ?thesis .
  qed
qed

lemma failed_enter_running_fail [simp]:
  "result (socket_enter_running_fail e s cfd) \<noteq> SOCKET_SUCCESS"
  by (simp add: socket_enter_running_fail_def Let_def)

lemma result_instantiate_service:
  "socket_instantiate_service e s = Some (r, s') \<Longrightarrow> result s' = result s"
  by (drule socket_instantiate_service_frame) (erule ssubst, simp)

lemma failed_enter_running:
  "socket_enter_running e s cfd = Some s' \<Longrightarrow> result s \<noteq> SOCKET_SUCCESS \<Longrightarrow>
     result s' \<noteq> SOCKET_SUCCESS"
  by (auto simp: socket_enter_running_def Let_def case_prod_beta safe_close_def
           split: if_splits option.splits sum.splits prod.splits
           dest: result_instantiate_service)

lemma failed_fd_event:
  "socket_fd_event e s r = Some s' \<Longrightarrow> result s \<noteq> SOCKET_SUCCESS \<Longrightarrow>
     result s' \<noteq> SOCKET_SUCCESS"
  by (auto simp: socket_fd_event_def split: if_splits dest: failed_enter_running)

lemma failed_stop:
  "socket_stop e s = Some (r, s') \<Longrightarrow> result s \<noteq> SOCKET_SUCCESS \<Longrightarrow>
     result s' \<noteq> SOCKET_SUCCESS"
  by (auto simp: socket_stop_def split: if_splits)

lemma failed_notify_service_dead [simp]:
  "result s \<noteq> SOCKET_SUCCESS \<Longrightarrow>
     result (socket_notify_service_dead e s b) \<noteq> SOCKET_SUCCESS"
  by (simp add: socket_notify_service_dead_def)

lemma failed_trigger_notify:
  "result s \<noteq> SOCKET_SUCCESS \<Longrightarrow>
     result (socket_trigger_notify e s l i st lim) \<noteq> SOCKET_SUCCESS"
  by (simp add: socket_trigger_notify_def Let_def)

lemma failed_connection_unref:
  "socket_connection_unref s = Some s' \<Longrightarrow> result s \<noteq> SOCKET_SUCCESS \<Longrightarrow>
     result s' \<noteq> SOCKET_SUCCESS"
  by (auto simp: socket_connection_unref_def split: if_splits)

lemma failed_timer_event:
  "socket_timer_event e s = Some s' \<Longrightarrow> result s' \<noteq> SOCKET_SUCCESS"
  by (cases "state s") (auto simp: socket_timer_event_def split: if_splits)

lemma failed_event:
  assumes "socket_event e s ev = Some s'" and "ev \<noteq> Start" and "ev \<noteq> ResetFailed"
    and "result s \<noteq> SOCKET_SUCCESS"
  shows "result s' \<noteq> SOCKET_SUCCESS"
proof (cases ev)
  case Stop
  with assms show ?thesis by (auto simp: socket_event_def dest: failed_stop)
next
  case Timer
  with assms show ?thesis by (auto simp: socket_event_def dest: failed_timer_event)
next
  case (Sigchld pid code status)
  with assms show ?thesis by (auto simp: socket_event_def dest: failed_sigchld_event)
next
  case (FdEvent r)
  with assms show ?thesis by (auto simp: socket_event_def dest: failed_fd_event)
next
  case (TriggerNotify l i st lim)
  with assms show ?thesis by (auto simp: socket_event_def failed_trigger_notify)
next
  case ConnectionUnref
  with assms show ?thesis by (auto simp: socket_event_def dest: failed_connection_unref)
qed (use assms in simp_all)

lemma failed_run:
  "socket_run s evs = Some s' \<Longrightarrow> Start \<notin> snd ` set evs \<Longrightarrow> ResetFailed \<notin> snd ` set evs \<Longrightarrow>
     result s \<noteq> SOCKET_SUCCESS \<Longrightarrow> result s' \<noteq> SOCKET_SUCCESS"
proof (induction evs arbitrary: s)
  case Nil
  then show ?case by simp
next
  case (Cons a evs)
  obtain e ev where a: "a = (e, ev)" by (cases a)
  from Cons.prems(1) a obtain s1 where s1: "socket_event e s ev = Some s1"
    and run: "socket_run s1 evs = Some s'"
    by (auto split: option.splits)
  from Cons.prems(2,3) a have "ev \<noteq> Start" "ev \<noteq> ResetFailed" by auto
  from failed_event[OF s1 this Cons.prems(4)] have "result s1 \<noteq> SOCKET_SUCCESS" .
  with Cons.IH[OF run] Cons.prems(2,3) show ?case by auto
qed

subsection \<open>Runs of the example units\<close>

lemmas ex_defs = socket_in_start_pre_def socket0_def env0_def command0_def

lemma ex_timer_start_pre:
  "socket_timer_event env0 socket_in_start_pre =
     Some (socket_in_start_pre\<lparr>state := SOCKET_FINAL_SIGTERM, result := SOCKET_FAILURE_TIMEOUT,
             notifications := [(UNIT_ACTIVATING, UNIT_DEACTIVATING)]\<rparr>)"
  by (simp add: socket_timer_event_def socket_enter_signal.simps socket_set_state_def
        socket_unwatch_fds_def socket_close_fds_eq Let_def ex_defs)

lemma ex_sigchld_final_sigterm:
  "socket_sigchld_event env0
     (socket_in_start_pre\<lparr>state := SOCKET_FINAL_SIGTERM, result := SOCKET_FAILURE_TIMEOUT,
             notifications := [(UNIT_ACTIVATING, UNIT_DEACTIVATING)]\<rparr>) 100 CLD_EXITED 1 =
     Some (socket_in_start_pre\<lparr>state := SOCKET_FAILED, result := SOCKET_FAILURE_EXIT_CODE,
             control_pid := 0, control_command_id := None, control_command := [],
             timer_watch := False,
             notifications := [(UNIT_ACTIVATING, UNIT_DEACTIVATING), (UNIT_DEACTIVATING, UNIT_FAILED)]\<rparr>)"
  by (simp add: socket_sigchld_event_def sigchld_result_def socket_sigchld_final_def
        socket_enter_dead_def socket_set_state_def socket_unwatch_control_pid_def
        socket_unwatch_fds_def socket_close_fds_eq Let_def ex_defs)

subsection \<open>The result on the way to listening\<close>

lemma result_enter_listening:
  "result (socket_enter_listening e s) \<in> {result s, SOCKET_FAILURE_RESOURCES}"
  using result_enter_stop_pre[of e "snd (socket_watch_fds e s)" SOCKET_FAILURE_RESOURCES]
  by (simp add: socket_enter_listening_def case_prod_beta split: sum.split)

lemma result_enter_start_post:
  "result (socket_enter_start_post e s) \<in> {result s, SOCKET_FAILURE_RESOURCES}"
proof -
  let ?s1 = "(socket_unwatch_control_pid s)\<lparr>control_command_id := Some SOCKET_EXEC_START_POST\<rparr>"
  let ?x = "?s1\<lparr>control_command := exec_command ?s1 SOCKET_EXEC_START_POST\<rparr>"
  have rx: "result ?x = result s" by simp
  show ?thesis
  proof (cases "control_command ?x")
    case Nil
    then have "socket_enter_start_post e s = socket_enter_listening e ?x"
      by (simp add: socket_enter_start_post_def Let_def)
    with result_enter_listening[of e ?x] show ?thesis by simp
  next
    case (Cons c cs)
    then have "socket_enter_start_post e s =
       (case fst (socket_spawn e ?x c) of
          Inl _ \<Rightarrow> socket_enter_stop_pre e (snd (socket_spawn e ?x c)) SOCKET_FAILURE_RESOURCES
        | Inr _ \<Rightarrow> socket_set_state (snd (socket_spawn e ?x c)) SOCKET_START_POST)"
      by (simp add: socket_enter_start_post_def Let_def case_prod_beta split: sum.split)
    with result_enter_stop_pre[of e "snd (socket_spawn e ?x c)" SOCKET_FAILURE_RESOURCES]
    show ?thesis by (simp split: sum.split)
  qed
qed

lemma result_enter_start_chown:
  assumes "socket_enter_start_chown e s = Some s'"
  shows "result s' \<in> {result s, SOCKET_FAILURE_RESOURCES}"
proof (cases "socket_open_fds e s")
  case None
  with assms show ?thesis by (simp add: socket_enter_start_chown_def)
next
  case (Some a)
  obtain x s1 where a: "a = (x, s1)" by (cases a)
  from result_socket_open_fds[of e s x s1] Some a have r1: "result s1 = result s" by simp
  show ?thesis
  proof (cases "x = Opened")
    case False
    with assms Some a have "s' = socket_enter_stop_pre e s1 SOCKET_FAILURE_RESOURCES"
      by (cases x) (simp_all add: socket_enter_start_chown_def)
    with result_enter_stop_pre[of e s1 SOCKET_FAILURE_RESOURCES] show ?thesis by simp
  next
    case True
    show ?thesis
    proof (cases "user s1 \<noteq> [] \<or> group s1 \<noteq> []")
      case False
      with assms Some a True have "s' = socket_enter_start_post e s1"
        by (simp add: socket_enter_start_chown_def)
      with result_enter_start_post[of e s1] r1 show ?thesis by simp
    next
      case ug: True
      let ?y = "(socket_unwatch_control_pid s1)
                   \<lparr>control_command_id := Some SOCKET_EXEC_START_CHOWN, control_command := []\<rparr>"
      have ry: "result (snd (socket_chown e ?y)) = result s" using r1 by simp
      from assms Some a True ug have "s' =
         (case fst (socket_chown e ?y) of
            Inl _ \<Rightarrow> socket_enter_stop_pre e (snd (socket_chown e ?y)) SOCKET_FAILURE_RESOURCES
          | Inr _ \<Rightarrow> socket_set_state (snd (socket_chown e ?y)) SOCKET_START_CHOWN)"
        by (auto simp: socket_enter_start_chown_def Let_def case_prod_beta split: sum.splits)
      with result_enter_stop_pre[of e "snd (socket_chown e ?y)" SOCKET_FAILURE_RESOURCES] ry
      show ?thesis by (simp split: sum.splits)
    qed
  qed
qed

lemma result_enter_start_pre:
  assumes "socket_enter_start_pre e s = Some s'"
  shows "result s' \<in> {result s, SOCKET_FAILURE_RESOURCES}"
proof -
  let ?s1 = "(socket_unwatch_control_pid s)\<lparr>control_command_id := Some SOCKET_EXEC_START_PRE\<rparr>"
  let ?x = "?s1\<lparr>control_command := exec_command ?s1 SOCKET_EXEC_START_PRE\<rparr>"
  have rx: "result ?x = result s" by simp
  show ?thesis
  proof (cases "control_command ?x")
    case Nil
    with assms have "socket_enter_start_chown e ?x = Some s'"
      by (simp add: socket_enter_start_pre_def Let_def)
    from result_enter_start_chown[OF this] show ?thesis by simp
  next
    case (Cons c cs)
    with assms have "s' =
       (case fst (socket_spawn e ?x c) of
          Inl _ \<Rightarrow> socket_enter_dead (snd (socket_spawn e ?x c)) SOCKET_FAILURE_RESOURCES
        | Inr _ \<Rightarrow> socket_set_state (snd (socket_spawn e ?x c)) SOCKET_START_PRE)"
      by (auto simp: socket_enter_start_pre_def Let_def case_prod_beta split: sum.splits)
    then show ?thesis by (simp add: result_socket_enter_dead split: sum.splits)
  qed
qed

lemma rank_enter_listening [simp]:
  "3 \<le> state_rank (state (socket_enter_listening e s))"
  by (simp add: socket_enter_listening_def case_prod_beta
        order_trans[OF _ rank_enter_stop_pre] split: sum.split)

lemma rank_enter_start_post [simp]:
  "2 \<le> state_rank (state (socket_enter_start_post e s))"
  by (simp add: socket_enter_start_post_def Let_def case_prod_beta
        order_trans[OF _ rank_enter_stop_pre] order_trans[OF _ rank_enter_listening]
        split: sum.split list.split)

lemma rank_enter_start_chown:
  "socket_enter_start_chown e s = Some s' \<Longrightarrow> 1 \<le> state_rank (state s')"
  by (auto simp: socket_enter_start_chown_def Let_def case_prod_beta
        order_trans[OF _ rank_enter_stop_pre] order_trans[OF _ rank_enter_start_post]
        split: option.splits open_exit.splits sum.splits if_splits)

lemma result_enter_start_pre_state:
  assumes "socket_enter_start_pre e s = Some s'" and "state s' = SOCKET_START_PRE"
  shows "result s' = result s"
proof -
  let ?s1 = "(socket_unwatch_control_pid s)\<lparr>control_command_id := Some SOCKET_EXEC_START_PRE\<rparr>"
  let ?x = "?s1\<lparr>control_command := exec_command ?s1 SOCKET_EXEC_START_PRE\<rparr>"
  show ?thesis
  proof (cases "control_command ?x")
    case Nil
    with assms(1) have c: "socket_enter_start_chown e ?x = Some s'"
      by (simp add: socket_enter_start_pre_def Let_def)
    from rank_enter_start_chown[OF c] assms(2) show ?thesis by simp
  next
    case (Cons c cs)
    with assms(1) have "s' =
       (case fst (socket_spawn e ?x c) of
          Inl _ \<Rightarrow> socket_enter_dead (snd (socket_spawn e ?x c)) SOCKET_FAILURE_RESOURCES
        | Inr _ \<Rightarrow> socket_set_state (snd (socket_spawn e ?x c)) SOCKET_START_PRE)"
      by (auto simp: socket_enter_start_pre_def Let_def case_prod_beta split: sum.splits)
    with assms(2) show ?thesis
      by (auto simp: state_socket_enter_dead split: sum.splits if_splits)
  qed
qed

subsection \<open>Accepted connections\<close>

lemma frame_enter_running_fail:
  "frame s (socket_enter_running_fail e s cfd\<lparr>closed_fds := closed_fds (socket_enter_stop_pre e s SOCKET_FAILURE_RESOURCES)\<rparr>)"
  by (simp add: socket_enter_running_fail_def Let_def)

lemma socket_enter_running_fail_fields:
  "n_connections (socket_enter_running_fail e s cfd) = n_connections s"
  "n_accepted (socket_enter_running_fail e s cfd) = n_accepted s"
  "handed_off (socket_enter_running_fail e s cfd) = handed_off s"
  "set (closed_fds (socket_enter_running_fail e s cfd))
     \<subseteq> set (closed_fds s) \<union> open_fds s \<union> {f. f = cfd \<and> 0 \<le> cfd}"
  "0 \<le> cfd \<Longrightarrow> cfd \<in> set (closed_fds (socket_enter_running_fail e s cfd))"
  "5 \<le> state_rank (state (socket_enter_running_fail e s cfd))"
  "result (socket_enter_running_fail e s cfd) \<noteq> SOCKET_SUCCESS"
  using frame_enter_stop_preI[OF frame_refl, of s e SOCKET_FAILURE_RESOURCES]
  by (auto simp: socket_enter_running_fail_def Let_def frame_def safe_close_def)

lemmas acc_defs = socket_accepting_def socket_accepted_def socket0_def stream_port_def
  env0_def service0_def sockaddr0_def

lemma ex_instantiate:
  "socket_instantiate_service env0 socket_accepting =
     Some (Inr (), socket_accepting\<lparr>service := Some (service0\<lparr>no_gc := True\<rparr>)\<rparr>)"
  by (simp add: socket_instantiate_service_def socket_accepting_def socket0_def env0_def service0_def)

lemma ex_instance_ok:
  "instance_from_socket env0 7 0 = Some (Inr (fmt_u 0 @ ''-'' @ fmt_quad 0x7F000001 @ '':'' @ fmt_u 9000
       @ ''-'' @ fmt_quad 0x7F000001 @ '':'' @ fmt_u 9000))"
  by (simp add: instance_from_socket_def env0_def sockaddr0_def)

lemma ex_accept_first:
  "socket_enter_running env0 socket_accepting 7 = Some socket_accepted"
  by (simp add: socket_enter_running_def socket_instantiate_service_def instance_from_socket_def
        Let_def acc_defs)

lemma ex_accept_second:
  "socket_enter_running env0 socket_accepted 8 = Some (socket_accepted\<lparr>closed_fds := [8]\<rparr>)"
  by (simp add: socket_enter_running_def safe_close_def acc_defs)

subsection \<open>The stream that is written\<close>

lemma serialize_ports_Cons:
  "serialize_ports e (p # ps) f fds =
     (if fd p < 0 then serialize_ports e ps f fds
      else case fdset_put_dup e (fd p) of
             Inl err \<Rightarrow> (Inl err, f, fds)
           | Inr c \<Rightarrow>
               (case port_item e c p of
                  Inl err \<Rightarrow> (Inl err, f, fds @ [c])
                | Inr it \<Rightarrow> serialize_ports e ps (f @ [it]) (fds @ [c])))"
proof (cases "fd p < 0")
  case True
  then show ?thesis by simp
next
  case False
  show ?thesis
  proof (cases "fdset_put_dup e (fd p)")
    case (Inl err)
    with False show ?thesis by simp
  next
    case (Inr c)
    show ?thesis
    proof (cases "port_type p")
      case SOCKET_SOCKET
      show ?thesis
      proof (cases "socket_address_print e (address p)")
        case (Inl err)
        with False Inr SOCKET_SOCKET show ?thesis by (simp add: port_item_def)
      next
        case r: (Inr t)
        show ?thesis
        proof (cases "Have_linux_netlink_h e \<and> family (address p) = AF_NETLINK")
          case True
          with False Inr SOCKET_SOCKET r show ?thesis
            by (simp add: port_item_def unit_serialize_item_def)
        next
          case nl: False
          have "port_item e c p =
                Inr (''socket'', fmt_i c @ '' '' @ fmt_i (sock_type (address p)) @ '' '' @ t)"
            unfolding port_item_def using SOCKET_SOCKET r by (simp add: if_not_P[OF nl] del: append.simps)
          moreover have "serialize_ports e (p # ps) f fds =
             serialize_ports e ps
               (f @ [(''socket'', fmt_i c @ '' '' @ fmt_i (sock_type (address p)) @ '' '' @ t)])
               (fds @ [c])"
            using False Inr SOCKET_SOCKET r by (simp add: unit_serialize_item_def Let_def if_not_P[OF nl] del: append.simps)
          ultimately show ?thesis using False Inr by simp
        qed
      qed
    next
      case SOCKET_FIFO
      with False Inr show ?thesis by (simp add: port_item_def unit_serialize_item_def)
    next
      case SOCKET_SPECIAL
      with False Inr show ?thesis by (simp add: port_item_def unit_serialize_item_def)
    next
      case SOCKET_MQUEUE
      with False Inr show ?thesis by (simp add: port_item_def unit_serialize_item_def)
    qed
  qed
qed

lemma serialize_ports_appends:
  "\<exists>g. fst (snd (serialize_ports e ps f fds)) = f @ g"
proof (induction ps arbitrary: f fds)
  case Nil
  then show ?case by simp
next
  case (Cons p ps)
  show ?case
  proof (cases "fd p < 0")
    case True
    with Cons show ?thesis by (simp only: serialize_ports_Cons if_True)
  next
    case False
    show ?thesis
    proof (cases "fdset_put_dup e (fd p)")
      case (Inl err)
      with False show ?thesis by (simp only: serialize_ports_Cons) simp
    next
      case (Inr c)
      show ?thesis
      proof (cases "port_item e c p")
        case (Inl err)
        with False Inr show ?thesis by (simp only: serialize_ports_Cons) simp
      next
        case (Inr it)
        from Cons[of "f @ [it]" "fds @ [c]"] obtain g where
          "fst (snd (serialize_ports e ps (f @ [it]) (fds @ [c]))) = f @ ([it] @ g)" by auto
        with False \<open>fdset_put_dup e (fd p) = Inr c\<close> Inr show ?thesis
          by (simp only: serialize_ports_Cons) auto
      qed
    qed
  qed
qed

lemma exec_context_serialize_appends:
  "\<exists>g. exec_context_serialize s f = f @ g"
  by (simp add: exec_context_serialize_def unit_serialize_item_def Let_def split: option.split)

lemma socket_state_from_to_string [simp]:
  "socket_state_from_string (socket_state_to_string st) = Some st"
  by (cases st) (simp_all add: socket_state_from_string_def)

lemma socket_result_from_to_string [simp]:
  "socket_result_from_string (socket_result_to_string r) = Some r"
  by (cases r) (simp_all add: socket_result_from_string_def)

lemma socket_exec_command_from_to_string [simp]:
  "socket_exec_command_from_string (socket_exec_command_to_string c) = Some c"
  by (cases c) (simp_all add: socket_exec_command_from_string_def)

lemma socket_serialize_eq:
  "socket_serialize e s f fds =
     (case serialize_ports e (ports s) (f @ head_items s) fds of
        (Inl err, f', fds') \<Rightarrow> (Inl err, f', fds')
      | (Inr _, f', fds') \<Rightarrow> (Inr (), exec_context_serialize s f', fds'))"
  by (cases "0 < control_pid s"; cases "control_command_id s")
     (simp_all add: socket_serialize_def head_items_def unit_serialize_item_def Let_def)

lemma socket_serialize_head:
  "\<exists>g. fst (snd (socket_serialize e s f fds)) =
     f @ [(''state'', socket_state_to_string (state s)),
          (''result'', socket_result_to_string (result s)),
          (''n-accepted'', fmt_u (unat (n_accepted s)))] @ g"
proof -
  let ?h = "[(''state'', socket_state_to_string (state s)),
          (''result'', socket_result_to_string (result s)),
          (''n-accepted'', fmt_u (unat (n_accepted s)))]"
  obtain g1 where g1: "head_items s = ?h @ g1" by (simp add: head_items_def)
  obtain x f' fds' where r: "serialize_ports e (ports s) (f @ head_items s) fds = (x, f', fds')"
    by (cases "serialize_ports e (ports s) (f @ head_items s) fds") auto
  from serialize_ports_appends[of e "ports s" "f @ head_items s" fds] r
  obtain g2 where g2: "f' = (f @ head_items s) @ g2" by auto
  obtain g3 where g3: "exec_context_serialize s f' = f' @ g3"
    using exec_context_serialize_appends by blast
  have "fst (snd (socket_serialize e s f fds)) = f' \<or>
        fst (snd (socket_serialize e s f fds)) = f' @ g3"
    by (cases x) (simp_all add: socket_serialize_eq r g3)
  then show ?thesis
  proof
    assume "fst (snd (socket_serialize e s f fds)) = f'"
    then have "fst (snd (socket_serialize e s f fds)) = f @ ?h @ (g1 @ g2)"
      by (simp only: g2 g1 append_assoc)
    then show ?thesis by blast
  next
    assume "fst (snd (socket_serialize e s f fds)) = f' @ g3"
    then have "fst (snd (socket_serialize e s f fds)) = f @ ?h @ (g1 @ g2 @ g3)"
      by (simp only: g2 g1 append_assoc)
    then show ?thesis by blast
  qed
qed

subsection \<open>Numbers written and read back\<close>

lemma digit_char_0: "digit_char 0 = CHR ''0''"
  using char_of_char[of "CHR ''0''", where 'a=nat] by (simp add: digit_char_def)

lemma fmt_u_0: "fmt_u 0 = ''0''"
  by (simp add: fmt_u.simps[of 0] digit_char_0)

lemma of_char_digit_char: "d < 10 \<Longrightarrow> (of_char (digit_char d) :: nat) = 48 + d"
  by (simp add: digit_char_def)

lemma digit_val_digit_char: "d < 10 \<Longrightarrow> digit_val (digit_char d) = Some d"
  by (simp add: digit_val_def of_char_digit_char Let_def)

lemma is_digit_digit_char: "d < 10 \<Longrightarrow> is_digit 10 (digit_char d)"
  by (simp add: is_digit_def digit_val_digit_char)

lemma is_space_of_char: "is_space c \<Longrightarrow> (of_char c :: nat) \<le> 32"
  by (auto simp: is_space_def)

lemma not_space_digit_char:
  assumes "d < 10"
  shows "\<not> is_space (digit_char d)"
proof
  assume "is_space (digit_char d)"
  from is_space_of_char[OF this] of_char_digit_char[OF assms] show False by simp
qed

lemma digit_char_neq:
  assumes d: "d < 10"
  shows "digit_char d \<noteq> CHR ''-''" "digit_char d \<noteq> CHR ''+''"
    "(digit_char d = CHR ''0'') = (d = 0)"
proof -
  show "digit_char d \<noteq> CHR ''-''"
  proof
    assume "digit_char d = CHR ''-''"
    then have "(of_char (digit_char d)::nat) = 45" by simp
    with of_char_digit_char[OF d] show False by simp
  qed
  show "digit_char d \<noteq> CHR ''+''"
  proof
    assume "digit_char d = CHR ''+''"
    then have "(of_char (digit_char d)::nat) = 43" by simp
    with of_char_digit_char[OF d] show False by simp
  qed
  show "(digit_char d = CHR ''0'') = (d = 0)"
  proof
    assume "digit_char d = CHR ''0''"
    then have "(of_char (digit_char d)::nat) = 48" by simp
    with of_char_digit_char[OF d] show "d = 0" by simp
  next
    assume "d = 0" then show "digit_char d = CHR ''0''" by (simp add: digit_char_0)
  qed
qed

lemma not_digit_space [simp]: "\<not> is_digit b (CHR '' '')" "is_space (CHR '' '')"
  by (simp_all add: is_digit_def digit_val_def is_space_def)

lemma scan_digits_10_stop:
  "r = [] \<or> hd r = CHR '' '' \<Longrightarrow> scan_digits b acc r = (acc, r)"
  by (cases r) auto

lemma scan_digits_fmt_u:
  "scan_digits 10 acc (fmt_u n @ r) = scan_digits 10 (acc * 10 ^ length (fmt_u n) + n) r"
proof (induction n arbitrary: acc r rule: fmt_u.induct)
  case (1 n)
  show ?case
  proof (cases "n < 10")
    case True
    then show ?thesis
      by (simp add: fmt_u.simps[of n] is_digit_digit_char digit_val_digit_char)
  next
    case False
    have m: "n mod 10 < 10" by simp
    have "scan_digits 10 acc (fmt_u n @ r) =
          scan_digits 10 acc (fmt_u (n div 10) @ (digit_char (n mod 10) # r))"
      using False by (simp add: fmt_u.simps[of n])
    also have "\<dots> = scan_digits 10 (acc * 10 ^ length (fmt_u (n div 10)) + n div 10)
                        (digit_char (n mod 10) # r)"
      using 1[OF False] .
    also have "\<dots> = scan_digits 10 ((acc * 10 ^ length (fmt_u (n div 10)) + n div 10) * 10 + n mod 10) r"
      using m by (simp add: is_digit_digit_char digit_val_digit_char)
    also have "(acc * 10 ^ length (fmt_u (n div 10)) + n div 10) * 10 + n mod 10 =
               acc * 10 ^ length (fmt_u n) + n"
      using False by (simp add: fmt_u.simps[of n] algebra_simps)
    finally show ?thesis .
  qed
qed

lemma fmt_u_hd: "\<exists>d cs. fmt_u n = digit_char d # cs \<and> d < 10 \<and> (d = 0 \<longrightarrow> n = 0 \<and> cs = [])"
proof (induction n rule: fmt_u.induct)
  case (1 n)
  show ?case
  proof (cases "n < 10")
    case True
    then have "fmt_u n = digit_char n # [] \<and> n < 10 \<and> (n = 0 \<longrightarrow> n = 0 \<and> [] = ([]::string))"
      by (simp add: fmt_u.simps[of n])
    then show ?thesis by blast
  next
    case False
    from 1[OF False] obtain d cs where
      h: "fmt_u (n div 10) = digit_char d # cs" "d < 10" "d = 0 \<longrightarrow> n div 10 = 0 \<and> cs = []"
      by blast
    from False have "n div 10 \<noteq> 0" by simp
    with h have "d \<noteq> 0" by blast
    with h False have "fmt_u n = digit_char d # (cs @ [digit_char (n mod 10)]) \<and> d < 10 \<and>
        (d = 0 \<longrightarrow> n = 0 \<and> cs @ [digit_char (n mod 10)] = [])"
      by (simp add: fmt_u.simps[of n])
    then show ?thesis by blast
  qed
qed

lemma scan_unsigned_fmt_u:
  assumes "r = [] \<or> hd r = CHR '' ''"
  shows "scan_unsigned (fmt_u n @ r) = Some (n, r)"
proof -
  from fmt_u_hd[of n] obtain d cs where
    h: "fmt_u n = digit_char d # cs" "d < 10" "d = 0 \<longrightarrow> n = 0 \<and> cs = []" by blast
  show ?thesis
  proof (cases "d = 0")
    case True
    with h have z: "fmt_u n = ''0''" "n = 0" by (simp_all add: digit_char_0)
    from assms show ?thesis
      by (cases r; cases "tl r") (auto simp: z fmt_u_0 scan_unsigned_def)
  next
    case False
    with h have nz: "digit_char d \<noteq> CHR ''0''" by (simp add: digit_char_neq)
    have "scan_unsigned (fmt_u n @ r) = Some (scan_digits 10 0 (fmt_u n @ r))"
      using h nz by (simp add: scan_unsigned_def is_digit_digit_char)
    also have "\<dots> = Some (n, r)"
      using assms by (simp add: scan_digits_fmt_u scan_digits_10_stop)
    finally show ?thesis .
  qed
qed

lemma scan_i_fmt_i:
  assumes "0 \<le> i" and "r = [] \<or> hd r = CHR '' ''"
  shows "scan_i (fmt_i i @ r) = Some (i, r)"
proof -
  from fmt_u_hd[of "nat i"] obtain d cs where
    h: "fmt_u (nat i) = digit_char d # cs" "d < 10" by blast
  have f: "fmt_i i = fmt_u (nat i)" using assms(1) by (simp add: fmt_i_def)
  have "scan_i (fmt_i i @ r) = map_option (\<lambda>(n, r). (int n, r)) (scan_unsigned (fmt_u (nat i) @ r))"
    using h by (simp add: f scan_i_def not_space_digit_char digit_char_neq)
  also have "\<dots> = Some (i, r)"
    using assms by (simp add: scan_unsigned_fmt_u)
  finally show ?thesis .
qed

lemma sscanf_i_n_fmt:
  "0 \<le> c \<Longrightarrow> sscanf_i_n (fmt_i c @ '' '' @ t) = Some (c, dropWhile is_space t)"
  by (simp add: sscanf_i_n_def scan_i_fmt_i)

lemma sscanf_i_i_n_fmt:
  "0 \<le> c \<Longrightarrow> 0 \<le> ty \<Longrightarrow>
   sscanf_i_i_n (fmt_i c @ '' '' @ fmt_i ty @ '' '' @ t) = Some (c, ty, dropWhile is_space t)"
proof -
  assume c: "0 \<le> c" and ty: "0 \<le> ty"
  from fmt_u_hd[of "nat ty"] obtain d cs where
    h: "fmt_u (nat ty) = digit_char d # cs" "d < 10" by blast
  have f: "fmt_i ty = fmt_u (nat ty)" using ty by (simp add: fmt_i_def)
  have 1: "scan_i (fmt_i c @ '' '' @ fmt_i ty @ '' '' @ t) = Some (c, '' '' @ fmt_i ty @ '' '' @ t)"
    using c by (rule scan_i_fmt_i) simp
  have 2: "dropWhile is_space ('' '' @ fmt_i ty @ '' '' @ t) = fmt_i ty @ '' '' @ t"
    using h by (simp add: f not_space_digit_char)
  have 3: "scan_i (fmt_i ty @ '' '' @ t) = Some (ty, '' '' @ t)"
    using ty by (rule scan_i_fmt_i) simp
  have 4: "dropWhile is_space ('' '' @ t) = dropWhile is_space t" by simp
  show ?thesis
    unfolding sscanf_i_i_n_def 1 by (simp add: 2 3 4 del: append.simps)
qed

lemma safe_atou_fmt_u: "safe_atou (fmt_u (unat w)) = Some w"
proof -
  have "scan_i (fmt_i (int (unat w)) @ []) = Some (int (unat w), [])"
    by (rule scan_i_fmt_i) simp_all
  then have s: "scan_i (fmt_u (unat w)) = Some (int (unat w), [])"
    by (simp add: fmt_i_def)
  have "int (unat w) < 2 ^ 32"
    using unsigned_less[of w, where 'a=int] by simp
  then show ?thesis by (simp add: safe_atou_def s)
qed

lemma parse_pid_fmt_u: "0 < p \<Longrightarrow> p < 2 ^ 31 \<Longrightarrow> parse_pid (fmt_u (nat p)) = Some p"
proof -
  assume p: "0 < p" "p < 2 ^ 31"
  have "scan_i (fmt_i p @ []) = Some (p, [])"
    using p by (intro scan_i_fmt_i) simp_all
  then have s: "scan_i (fmt_u (nat p)) = Some (p, [])"
    using p by (simp add: fmt_i_def)
  show ?thesis using p by (simp add: parse_pid_def s)
qed

subsection \<open>Reading the stream back\<close>

lemma serialize_ports_items:
  "serialize_ports e ps f fds = (Inr (), f', fds') \<Longrightarrow>
     f' = f @ port_items e ps \<and> fds' = fds @ port_copies e ps \<and>
     (\<forall>p\<in>set ps. 0 \<le> fd p \<longrightarrow> (\<exists>it. port_item e (dup_of e (fd p)) p = Inr it))"
proof (induction ps arbitrary: f fds)
  case Nil
  then show ?case by (simp add: port_copies_def)
next
  case (Cons p ps)
  show ?case
  proof (cases "fd p < 0")
    case True
    with Cons.prems have "serialize_ports e ps f fds = (Inr (), f', fds')"
      by (simp only: serialize_ports_Cons if_True)
    from Cons.IH[OF this] True show ?thesis by (simp add: port_copies_def)
  next
    case False
    show ?thesis
    proof (cases "fdset_put_dup e (fd p)")
      case (Inl err)
      with False Cons.prems show ?thesis by (simp only: serialize_ports_Cons) simp
    next
      case (Inr c)
      then have d: "dup_of e (fd p) = c" by (simp add: dup_of_def)
      show ?thesis
      proof (cases "port_item e c p")
        case (Inl err)
        with False Inr Cons.prems show ?thesis by (simp only: serialize_ports_Cons) simp
      next
        case it: (Inr it)
        with False Inr Cons.prems
        have "serialize_ports e ps (f @ [it]) (fds @ [c]) = (Inr (), f', fds')"
          by (simp only: serialize_ports_Cons) simp
        from Cons.IH[OF this] False it d show ?thesis by (simp add: port_copies_def)
      qed
    qed
  qed
qed

lemma exec_context_serialize_eq: "exec_context_serialize s f = f @ tmp_items s"
  by (simp add: exec_context_serialize_def unit_serialize_item_def tmp_items_def Let_def
           split: option.split)

lemma socket_serialize_items:
  assumes "socket_serialize e s [] [] = (Inr (), f, fds)"
  shows "f = head_items s @ port_items e (ports s) @ tmp_items s"
    and "fds = port_copies e (ports s)"
    and "\<forall>p\<in>set (ports s). 0 \<le> fd p \<longrightarrow> (\<exists>it. port_item e (dup_of e (fd p)) p = Inr it)"
proof -
  obtain x f' fds' where r: "serialize_ports e (ports s) ([] @ head_items s) [] = (x, f', fds')"
    by (cases "serialize_ports e (ports s) ([] @ head_items s) []") auto
  from assms r have x: "x = Inr ()" and f: "f = exec_context_serialize s f'" and fd: "fds = fds'"
    by (cases x; simp add: socket_serialize_eq)+
  from serialize_ports_items[OF r[unfolded x]]
  have a: "f' = ([] @ head_items s) @ port_items e (ports s)" "fds' = [] @ port_copies e (ports s)"
    "\<forall>p\<in>set (ports s). 0 \<le> fd p \<longrightarrow> (\<exists>it. port_item e (dup_of e (fd p)) p = Inr it)"
    by blast+
  from a f show "f = head_items s @ port_items e (ports s) @ tmp_items s"
    by (simp add: exec_context_serialize_eq)
  from a fd show "fds = port_copies e (ports s)" by simp
  from a show "\<forall>p\<in>set (ports s). 0 \<le> fd p \<longrightarrow> (\<exists>it. port_item e (dup_of e (fd p)) p = Inr it)"
    by blast
qed

lemma deserialize_items_append:
  "deserialize_items e s (a @ b) fds =
     (case deserialize_items e s a fds of (s', fds') \<Rightarrow> deserialize_items e s' b fds')"
  by (induction a arbitrary: s fds) (auto split: prod.split)

lemma di_state:
  "socket_deserialize_item e s ''state'' v fds =
     (case socket_state_from_string v of
        None \<Rightarrow> (Inr (), s, fds)
      | Some st \<Rightarrow> (Inr (), s\<lparr>deserialized_state := st\<rparr>, fds))"
  by (simp add: socket_deserialize_item_def)

lemma di_result:
  "socket_deserialize_item e s ''result'' v fds =
     (case socket_result_from_string v of
        None \<Rightarrow> (Inr (), s, fds)
      | Some f \<Rightarrow> if f \<noteq> SOCKET_SUCCESS then (Inr (), s\<lparr>result := f\<rparr>, fds)
                  else (Inr (), s, fds))"
  by (simp add: socket_deserialize_item_def)

lemma di_n_accepted:
  "socket_deserialize_item e s ''n-accepted'' v fds =
     (case safe_atou v of
        None \<Rightarrow> (Inr (), s, fds)
      | Some k \<Rightarrow> (Inr (), s\<lparr>n_accepted := n_accepted s + k\<rparr>, fds))"
  by (simp add: socket_deserialize_item_def)

lemma di_control_pid:
  "socket_deserialize_item e s ''control-pid'' v fds =
     (case parse_pid v of
        None \<Rightarrow> (Inr (), s, fds)
      | Some pid \<Rightarrow> (Inr (), s\<lparr>control_pid := pid\<rparr>, fds))"
  by (simp add: socket_deserialize_item_def)

lemma di_control_command:
  "socket_deserialize_item e s ''control-command'' v fds =
     (case socket_exec_command_from_string v of
        None \<Rightarrow> (Inr (), s, fds)
      | Some c \<Rightarrow>
          (Inr (), s\<lparr>control_command_id := Some c, control_command := exec_command s c\<rparr>, fds))"
  by (simp add: socket_deserialize_item_def)

lemma di_fifo:
  "sscanf_i_n v = Some (c, rest) \<Longrightarrow> 0 \<le> c \<Longrightarrow> c \<in> set fds \<Longrightarrow>
   socket_deserialize_item e s ''fifo'' v fds =
     (case deserialize_port (\<lambda>p. port_type p = SOCKET_FIFO \<and> path p = rest) c s fds of
        (s', fds') \<Rightarrow> (Inr (), s', fds'))"
  by (simp add: socket_deserialize_item_def)

lemma di_special:
  "sscanf_i_n v = Some (c, rest) \<Longrightarrow> 0 \<le> c \<Longrightarrow> c \<in> set fds \<Longrightarrow>
   socket_deserialize_item e s ''special'' v fds =
     (case deserialize_port (\<lambda>p. port_type p = SOCKET_SPECIAL \<and> path p = rest) c s fds of
        (s', fds') \<Rightarrow> (Inr (), s', fds'))"
  by (simp add: socket_deserialize_item_def)

lemma di_mqueue:
  "sscanf_i_n v = Some (c, rest) \<Longrightarrow> 0 \<le> c \<Longrightarrow> c \<in> set fds \<Longrightarrow>
   socket_deserialize_item e s ''mqueue'' v fds =
     (case deserialize_port (\<lambda>p. port_type p = SOCKET_MQUEUE \<and> path p = rest) c s fds of
        (s', fds') \<Rightarrow> (Inr (), s', fds'))"
  by (simp add: socket_deserialize_item_def)

lemma di_socket:
  "sscanf_i_i_n v = Some (c, ty, rest) \<Longrightarrow> 0 \<le> c \<Longrightarrow> 0 \<le> ty \<Longrightarrow> c \<in> set fds \<Longrightarrow>
   socket_deserialize_item e s ''socket'' v fds =
     (case deserialize_port (\<lambda>p. socket_address_is e (address p) rest ty) c s fds of
        (s', fds') \<Rightarrow> (Inr (), s', fds'))"
  by (simp add: socket_deserialize_item_def)

lemma di_netlink:
  "Have_linux_netlink_h e \<Longrightarrow> sscanf_i_n v = Some (c, rest) \<Longrightarrow> 0 \<le> c \<Longrightarrow> c \<in> set fds \<Longrightarrow>
   socket_deserialize_item e s ''netlink'' v fds =
     (case deserialize_port (\<lambda>p. socket_address_is_netlink e (address p) rest) c s fds of
        (s', fds') \<Rightarrow> (Inr (), s', fds'))"
  by (simp add: socket_deserialize_item_def)

lemma di_tmp_dir:
  "socket_deserialize_item e s ''tmp-dir'' v fds =
     (if strdup_ok e then (Inr (), s\<lparr>tmp_dir := Some v\<rparr>, fds) else (Inl ENOMEM, s, fds))"
  by (simp add: socket_deserialize_item_def)

lemma di_var_tmp_dir:
  "socket_deserialize_item e s ''var-tmp-dir'' v fds =
     (if strdup_ok e then (Inr (), s\<lparr>var_tmp_dir := Some v\<rparr>, fds) else (Inl ENOMEM, s, fds))"
  by (simp add: socket_deserialize_item_def)

lemma deserialize_head_items:
  assumes "control_pid s < 2 ^ 31"
  shows "\<exists>s'. deserialize_items e s0 (head_items s) fds = (s', fds) \<and>
           deserialized_state s' = state s \<and>
           result s' = (if result s = SOCKET_SUCCESS then result s0 else result s) \<and>
           n_accepted s' = n_accepted s0 + n_accepted s \<and>
           control_pid s' = (if 0 < control_pid s then control_pid s else control_pid s0) \<and>
           control_command_id s' =
             (case control_command_id s of None \<Rightarrow> control_command_id s0 | Some c \<Rightarrow> Some c) \<and>
           ports s' = ports s0 \<and> closed_fds s' = closed_fds s0"
  using assms
  by (cases "0 < control_pid s"; cases "control_command_id s")
     (simp_all add: head_items_def di_state di_result di_n_accepted di_control_pid
        di_control_command safe_atou_fmt_u parse_pid_fmt_u)

lemma deserialize_tmp_items:
  "\<exists>s''. deserialize_items e s' (tmp_items s) fds = (s'', fds) \<and>
           deserialized_state s'' = deserialized_state s' \<and> result s'' = result s' \<and>
           n_accepted s'' = n_accepted s' \<and> control_pid s'' = control_pid s' \<and>
           control_command_id s'' = control_command_id s' \<and>
           ports s'' = ports s' \<and> closed_fds s'' = closed_fds s'"
  by (cases "tmp_dir s"; cases "var_tmp_dir s"; cases "strdup_ok e")
     (simp_all add: tmp_items_def di_tmp_dir di_var_tmp_dir)

lemma port_attach_first:
  "list_all (\<lambda>q. \<not> m q) xs \<Longrightarrow> m y \<Longrightarrow>
     port_attach m c (xs @ y # ys) = Some (xs @ y\<lparr>fd := c\<rparr> # ys, fd y)"
  by (induction xs) simp_all

lemma line_match_restored [simp]: "line_match e p (restored e b q) = line_match e p q"
  by (simp add: line_match_def restored_def split: SocketType.split sum.split)

lemma deserialize_port_item:
  assumes it: "port_item e c p = Inr (k, v)" and ok: "port_ok e p"
    and c: "0 \<le> c" "c \<in> set fds"
  shows "socket_deserialize_item e s k v fds =
           (case deserialize_port (line_match e p) c s fds of (s', fds') \<Rightarrow> (Inr (), s', fds'))"
proof (cases "port_type p")
  case SOCKET_FIFO
  from ok SOCKET_FIFO have nl: "dropWhile is_space (path p) = path p"
    by (simp add: port_ok_def no_leading_space_def)
  from it SOCKET_FIFO have k: "k = ''fifo''" and v: "v = fmt_i c @ '' '' @ path p"
    by (simp_all add: port_item_def)
  have sc: "sscanf_i_n v = Some (c, path p)"
    unfolding v using sscanf_i_n_fmt[OF c(1), of "path p"] nl by simp
  have m: "line_match e p = (\<lambda>q. port_type q = SOCKET_FIFO \<and> path q = path p)"
    using SOCKET_FIFO by (simp add: line_match_def fun_eq_iff)
  show ?thesis unfolding k m by (rule di_fifo[OF sc c])
next
  case SOCKET_SPECIAL
  from ok SOCKET_SPECIAL have nl: "dropWhile is_space (path p) = path p"
    by (simp add: port_ok_def no_leading_space_def)
  from it SOCKET_SPECIAL have k: "k = ''special''" and v: "v = fmt_i c @ '' '' @ path p"
    by (simp_all add: port_item_def)
  have sc: "sscanf_i_n v = Some (c, path p)"
    unfolding v using sscanf_i_n_fmt[OF c(1), of "path p"] nl by simp
  have m: "line_match e p = (\<lambda>q. port_type q = SOCKET_SPECIAL \<and> path q = path p)"
    using SOCKET_SPECIAL by (simp add: line_match_def fun_eq_iff)
  show ?thesis unfolding k m by (rule di_special[OF sc c])
next
  case SOCKET_MQUEUE
  from ok SOCKET_MQUEUE have nl: "dropWhile is_space (path p) = path p"
    by (simp add: port_ok_def no_leading_space_def)
  from it SOCKET_MQUEUE have k: "k = ''mqueue''" and v: "v = fmt_i c @ '' '' @ path p"
    by (simp_all add: port_item_def)
  have sc: "sscanf_i_n v = Some (c, path p)"
    unfolding v using sscanf_i_n_fmt[OF c(1), of "path p"] nl by simp
  have m: "line_match e p = (\<lambda>q. port_type q = SOCKET_MQUEUE \<and> path q = path p)"
    using SOCKET_MQUEUE by (simp add: line_match_def fun_eq_iff)
  show ?thesis unfolding k m by (rule di_mqueue[OF sc c])
next
  case SOCKET_SOCKET
  from ok SOCKET_SOCKET obtain t where t: "socket_address_print e (address p) = Inr t"
    by (cases "socket_address_print e (address p)") (simp_all add: port_ok_def)
  from ok SOCKET_SOCKET t have nl: "dropWhile is_space t = t"
    by (simp add: port_ok_def no_leading_space_def)
  show ?thesis
  proof (cases "Have_linux_netlink_h e \<and> family (address p) = AF_NETLINK")
    case True
    from it SOCKET_SOCKET t have k: "k = ''netlink''" and v: "v = fmt_i c @ '' '' @ t"
      by (simp_all add: port_item_def if_P[OF True])
    have sc: "sscanf_i_n v = Some (c, t)"
      unfolding v using sscanf_i_n_fmt[OF c(1), of t] nl by simp
    have m: "line_match e p = (\<lambda>q. socket_address_is_netlink e (address q) t)"
      using SOCKET_SOCKET t by (simp add: line_match_def fun_eq_iff if_P[OF True])
    from True have h: "Have_linux_netlink_h e" by simp
    show ?thesis unfolding k m by (rule di_netlink[OF h sc c])
  next
    case False
    from ok SOCKET_SOCKET t False have ty: "0 \<le> sock_type (address p)"
      by (auto simp: port_ok_def)
    from it SOCKET_SOCKET t have k: "k = ''socket''"
      and v: "v = fmt_i c @ '' '' @ fmt_i (sock_type (address p)) @ '' '' @ t"
      by (simp_all add: port_item_def if_not_P[OF False])
    have sc: "sscanf_i_i_n v = Some (c, sock_type (address p), t)"
      unfolding v using sscanf_i_i_n_fmt[OF c(1) ty, of t] nl by simp
    have m: "line_match e p = (\<lambda>q. socket_address_is e (address q) t (sock_type (address p)))"
      using SOCKET_SOCKET t by (simp add: line_match_def fun_eq_iff if_not_P[OF False])
    show ?thesis unfolding k m by (rule di_socket[OF sc c(1) ty c(2)])
  qed
qed

lemma restored_closed: "fd p < 0 \<Longrightarrow> restored e True p = restored e False p"
  by (simp add: restored_def)

lemma restored_attach:
  "0 \<le> fd p \<Longrightarrow> (restored e False p)\<lparr>fd := dup_of e (fd p)\<rparr> = restored e True p"
  by (simp add: restored_def)

lemma fd_restored_False: "fd (restored e False p) = - 1"
  by (simp add: restored_def)

lemma deserialize_port_items:
  assumes "own_lines e pre post"
    and "\<forall>p\<in>set post. 0 \<le> fd p \<longrightarrow>
           port_ok e p \<and> (\<exists>it. port_item e (dup_of e (fd p)) p = Inr it)"
    and "distinct (port_copies e post)" and "\<forall>c\<in>set (port_copies e post). 0 \<le> c"
    and "ports s' = map (restored e True) pre @ map (restored e False) post"
  shows "\<exists>s''. deserialize_items e s' (port_items e post) (port_copies e post) = (s'', []) \<and>
           ports s'' = map (restored e True) (pre @ post) \<and> s'' = s'\<lparr>ports := ports s''\<rparr>"
  using assms
proof (induction post arbitrary: pre s')
  case Nil
  then show ?case by (simp add: port_copies_def)
next
  case (Cons p post)
  from Cons.prems(1) have own: "own_lines e (pre @ [p]) post" by simp
  from Cons.prems(2) have oks: "\<forall>p\<in>set post. 0 \<le> fd p \<longrightarrow>
           port_ok e p \<and> (\<exists>it. port_item e (dup_of e (fd p)) p = Inr it)" by simp
  show ?case
  proof (cases "fd p < 0")
    case True
    then have pc: "port_copies e (p # post) = port_copies e post"
      and pi: "port_items e (p # post) = port_items e post"
      by (simp_all add: port_copies_def)
    from Cons.prems(5) True
    have ps: "ports s' = map (restored e True) (pre @ [p]) @ map (restored e False) post"
      by (simp add: restored_closed)
    from Cons.IH[OF own oks Cons.prems(3)[unfolded pc] Cons.prems(4)[unfolded pc] ps]
    show ?thesis unfolding pc pi by simp
  next
    case False
    let ?c = "dup_of e (fd p)"
    from False have pc: "port_copies e (p # post) = ?c # port_copies e post"
      by (simp add: port_copies_def)
    from Cons.prems(2) False obtain k v where it: "port_item e ?c p = Inr (k, v)" and ok: "port_ok e p"
      by fastforce
    from False it have pi: "port_items e (p # post) = (k, v) # port_items e post" by simp
    from Cons.prems(3,4) pc have c: "0 \<le> ?c" "?c \<notin> set (port_copies e post)"
      and d: "distinct (port_copies e post)" "\<forall>c\<in>set (port_copies e post). 0 \<le> c"
      by simp_all
    from Cons.prems(1) False
    have lm: "line_match e p p" "list_all (\<lambda>q. \<not> line_match e p q) pre" by simp_all
    from lm(2) have n: "list_all (\<lambda>q. \<not> line_match e p q) (map (restored e True) pre)"
      by (simp add: list_all_iff)
    from lm(1) have y: "line_match e p (restored e False p)" by simp
    have at: "port_attach (line_match e p) ?c (ports s') =
                Some (map (restored e True) (pre @ [p]) @ map (restored e False) post, - 1)"
      unfolding Cons.prems(5)
      using port_attach_first[OF n y, of ?c "map (restored e False) post"] False
      by (simp add: restored_attach fd_restored_False)
    let ?s1 = "s'\<lparr>ports := map (restored e True) (pre @ [p]) @ map (restored e False) post\<rparr>"
    have dp: "deserialize_port (line_match e p) ?c s' (?c # port_copies e post) =
                (?s1, port_copies e post)"
      using c(2) by (simp add: deserialize_port_def at safe_close_def)
    have step: "socket_deserialize_item e s' k v (?c # port_copies e post) =
                  (Inr (), ?s1, port_copies e post)"
      using deserialize_port_item[OF it ok c(1), of "?c # port_copies e post" s'] by (simp add: dp)
    have ps1: "ports ?s1 = map (restored e True) (pre @ [p]) @ map (restored e False) post"
      by simp
    from Cons.IH[OF own oks d ps1] obtain s'' where
      r: "deserialize_items e ?s1 (port_items e post) (port_copies e post) = (s'', [])"
         "ports s'' = map (restored e True) ((pre @ [p]) @ post)" "s'' = ?s1\<lparr>ports := ports s''\<rparr>"
      by blast
    have "deserialize_items e s' (port_items e (p # post)) (port_copies e (p # post)) = (s'', [])"
      unfolding pi pc using r(1) by (simp add: step)
    moreover from r(2) have "ports s'' = map (restored e True) (pre @ p # post)" by simp
    moreover from r(3) have "s'' = s'\<lparr>ports := ports s''\<rparr>" by simp
    ultimately show ?thesis by blast
  qed
qed

lemma port_ok_all:
  "list_all (port_ok e) (filter (\<lambda>p. 0 \<le> fd p) ps) \<Longrightarrow> p \<in> set ps \<Longrightarrow> 0 \<le> fd p \<Longrightarrow> port_ok e p"
  by (simp add: list_all_iff)

subsection \<open>The rollback, and the result that is latched\<close>

lemma open_ports_RolledBack_exact:
  "open_ports e s kl done todo = Some (RolledBack err, s') \<Longrightarrow>
     \<exists>i < length todo. fd (todo ! i) < 0 \<and>
        port_create e (length done + i) (todo ! i) = Inl err \<and>
        (\<forall>j < i. fd (todo ! j) < 0 \<longrightarrow> (\<exists>f. port_create e (length done + j) (todo ! j) = Inr f)) \<and>
        s' = socket_close_fds
               (s\<lparr>service := service s',
                  ports := done @ map (opened_port e) (enumerate (length done) (take i todo)) @
                           drop i todo\<rparr>)"
proof (induction todo arbitrary: s kl "done")
  case Nil
  then show ?case by auto
next
  case (Cons p todo)
  from Cons.prems show ?case
  proof (cases rule: open_ports_Cons)
    case skip
    from Cons.IH[OF skip(2)] obtain i where i: "i < length todo" "fd (todo ! i) < 0"
      "port_create e (Suc (length done) + i) (todo ! i) = Inl err"
      "\<forall>j<i. fd (todo ! j) < 0 \<longrightarrow> (\<exists>f. port_create e (Suc (length done) + j) (todo ! j) = Inr f)"
      "s' = socket_close_fds
               (s\<lparr>service := service s',
                  ports := (done @ [p]) @
                     map (opened_port e) (enumerate (Suc (length done)) (take i todo)) @
                     drop i todo\<rparr>)"
      by auto
    have a: "Suc i < length (p # todo)" "fd ((p # todo) ! Suc i) < 0"
      "port_create e (length done + Suc i) ((p # todo) ! Suc i) = Inl err"
      using i(1,2,3) by simp_all
    have b: "\<forall>j < Suc i. fd ((p # todo) ! j) < 0 \<longrightarrow>
               (\<exists>f. port_create e (length done + j) ((p # todo) ! j) = Inr f)"
    proof (intro allI impI)
      fix j assume "j < Suc i" "fd ((p # todo) ! j) < 0"
      with i(4) skip(1) show "\<exists>f. port_create e (length done + j) ((p # todo) ! j) = Inr f"
        by (cases j) auto
    qed
    have c: "s' = socket_close_fds
               (s\<lparr>service := service s',
                  ports := done @
                     map (opened_port e) (enumerate (length done) (take (Suc i) (p # todo))) @
                     drop (Suc i) (p # todo)\<rparr>)"
      using i(5) skip(1) by (simp add: opened_port_def)
    from a b c show ?thesis by blast
  next
    case (opened s1 sv kl1 f)
    from Cons.IH[OF opened(4)] obtain i where i: "i < length todo" "fd (todo ! i) < 0"
      "port_create e (Suc (length done) + i) (todo ! i) = Inl err"
      "\<forall>j<i. fd (todo ! j) < 0 \<longrightarrow> (\<exists>f. port_create e (Suc (length done) + j) (todo ! j) = Inr f)"
      "s' = socket_close_fds
               (s1\<lparr>service := service s',
                  ports := (done @ [p\<lparr>fd := f\<rparr>]) @
                     map (opened_port e) (enumerate (Suc (length done)) (take i todo)) @
                     drop i todo\<rparr>)"
      by auto
    have a: "Suc i < length (p # todo)" "fd ((p # todo) ! Suc i) < 0"
      "port_create e (length done + Suc i) ((p # todo) ! Suc i) = Inl err"
      using i(1,2,3) by simp_all
    have b: "\<forall>j < Suc i. fd ((p # todo) ! j) < 0 \<longrightarrow>
               (\<exists>f. port_create e (length done + j) ((p # todo) ! j) = Inr f)"
    proof (intro allI impI)
      fix j assume "j < Suc i" "fd ((p # todo) ! j) < 0"
      with i(4) opened(3) show "\<exists>f. port_create e (length done + j) ((p # todo) ! j) = Inr f"
        by (cases j) auto
    qed
    have s1: "s1\<lparr>service := service s'\<rparr> = s\<lparr>service := service s'\<rparr>"
      by (subst opened(2)) simp
    have c: "s' = socket_close_fds
               (s\<lparr>service := service s',
                  ports := done @
                     map (opened_port e) (enumerate (length done) (take (Suc i) (p # todo))) @
                     drop (Suc i) (p # todo)\<rparr>)"
      using i(5) opened(1,3) s1 by (simp add: opened_port_def)
    from a b c show ?thesis by blast
  next
    case (rollback s1 sv err')
    have sv: "service s' = sv"
      by (simp add: rollback(2,5) socket_close_fds_eq)
    have a: "0 < length (p # todo)" "fd ((p # todo) ! 0) < 0"
      "port_create e (length done + 0) ((p # todo) ! 0) = Inl err"
      using rollback by simp_all
    have c: "s' = socket_close_fds
               (s\<lparr>service := service s',
                  ports := done @
                     map (opened_port e) (enumerate (length done) (take 0 (p # todo))) @
                     drop 0 (p # todo)\<rparr>)"
      using rollback(2,5) sv by simp
    from a c show ?thesis by (intro exI[of _ 0]) simp
  qed simp_all
qed

lemma closed_fds_open_ports_Opened:
  "open_ports e s kl done todo = Some (Opened, s') \<Longrightarrow> closed_fds s' = closed_fds s"
proof (induction todo arbitrary: s kl "done")
  case Nil
  then show ?case by auto
next
  case (Cons p todo)
  from Cons.prems show ?case
  proof (cases rule: open_ports_Cons)
    case skip
    from Cons.IH[OF skip(2)] show ?thesis .
  next
    case (opened s1 sv kl1 f)
    from Cons.IH[OF opened(4)] opened(2) show ?thesis by simp
  qed simp_all
qed

lemma result_latch: "result (latch s f) = (if f \<noteq> SOCKET_SUCCESS then f else result s)"
  by (simp add: latch_def)

lemma latch_success [simp]: "latch s SOCKET_SUCCESS = s"
  by (simp add: latch_def)

lemma socket_enter_dead_latch:
  "socket_enter_dead s f = socket_enter_dead (latch s f) SOCKET_SUCCESS"
  by (simp add: socket_enter_dead_def latch_def Let_def)

lemma socket_enter_signal_unfold:
  "socket_enter_signal e s st f =
     (case unit_kill_context e st (st \<noteq> SOCKET_STOP_PRE_SIGTERM \<and> st \<noteq> SOCKET_FINAL_SIGTERM)
             (control_pid (latch s f)) of
        Inl _ \<Rightarrow> (if st = SOCKET_STOP_PRE_SIGTERM \<or> st = SOCKET_STOP_PRE_SIGKILL
                  then socket_enter_stop_post e (latch s f) SOCKET_FAILURE_RESOURCES
                  else socket_enter_dead (latch s f) SOCKET_FAILURE_RESOURCES)
      | Inr True \<Rightarrow>
          (case unit_watch_timer_signal e st of
             Inl _ \<Rightarrow> (if st = SOCKET_STOP_PRE_SIGTERM \<or> st = SOCKET_STOP_PRE_SIGKILL
                       then socket_enter_stop_post e (latch s f) SOCKET_FAILURE_RESOURCES
                       else socket_enter_dead (latch s f) SOCKET_FAILURE_RESOURCES)
           | Inr _ \<Rightarrow> socket_set_state ((latch s f)\<lparr>timer_watch := True\<rparr>) st)
      | Inr False \<Rightarrow>
          (if st = SOCKET_STOP_PRE_SIGTERM \<or> st = SOCKET_STOP_PRE_SIGKILL
           then socket_enter_stop_post e (latch s f) SOCKET_SUCCESS
           else socket_enter_dead (latch s f) SOCKET_SUCCESS))"
  by (subst socket_enter_signal.simps) (simp only: Let_def latch_def)

lemma socket_enter_stop_post_unfold:
  "socket_enter_stop_post e s f =
     (case control_command (((socket_unwatch_control_pid (latch s f))\<lparr>control_command_id := Some SOCKET_EXEC_STOP_POST\<rparr>)\<lparr>control_command := exec_command ((socket_unwatch_control_pid (latch s f))\<lparr>control_command_id := Some SOCKET_EXEC_STOP_POST\<rparr>) SOCKET_EXEC_STOP_POST\<rparr>) of
        c # _ \<Rightarrow>
          (case socket_spawn e (((socket_unwatch_control_pid (latch s f))\<lparr>control_command_id := Some SOCKET_EXEC_STOP_POST\<rparr>)\<lparr>control_command := exec_command ((socket_unwatch_control_pid (latch s f))\<lparr>control_command_id := Some SOCKET_EXEC_STOP_POST\<rparr>) SOCKET_EXEC_STOP_POST\<rparr>) c of
             (Inl _, s') \<Rightarrow>
               socket_enter_signal e s' SOCKET_FINAL_SIGTERM SOCKET_FAILURE_RESOURCES
           | (Inr _, s') \<Rightarrow> socket_set_state s' SOCKET_STOP_POST)
      | [] \<Rightarrow>
          socket_enter_signal e (((socket_unwatch_control_pid (latch s f))\<lparr>control_command_id := Some SOCKET_EXEC_STOP_POST\<rparr>)\<lparr>control_command := exec_command ((socket_unwatch_control_pid (latch s f))\<lparr>control_command_id := Some SOCKET_EXEC_STOP_POST\<rparr>) SOCKET_EXEC_STOP_POST\<rparr>) SOCKET_FINAL_SIGTERM SOCKET_SUCCESS)"
  by (subst socket_enter_stop_post.simps) (simp only: Let_def latch_def)

lemma socket_enter_stop_pre_unfold:
  "socket_enter_stop_pre e s f =
     (case control_command (((socket_unwatch_control_pid (latch s f))\<lparr>control_command_id := Some SOCKET_EXEC_STOP_PRE\<rparr>)\<lparr>control_command := exec_command ((socket_unwatch_control_pid (latch s f))\<lparr>control_command_id := Some SOCKET_EXEC_STOP_PRE\<rparr>) SOCKET_EXEC_STOP_PRE\<rparr>) of
        c # _ \<Rightarrow>
          (case socket_spawn e (((socket_unwatch_control_pid (latch s f))\<lparr>control_command_id := Some SOCKET_EXEC_STOP_PRE\<rparr>)\<lparr>control_command := exec_command ((socket_unwatch_control_pid (latch s f))\<lparr>control_command_id := Some SOCKET_EXEC_STOP_PRE\<rparr>) SOCKET_EXEC_STOP_PRE\<rparr>) c of
             (Inl _, s') \<Rightarrow> socket_enter_stop_post e s' SOCKET_FAILURE_RESOURCES
           | (Inr _, s') \<Rightarrow> socket_set_state s' SOCKET_STOP_PRE)
      | [] \<Rightarrow>
          socket_enter_stop_post e (((socket_unwatch_control_pid (latch s f))\<lparr>control_command_id := Some SOCKET_EXEC_STOP_PRE\<rparr>)\<lparr>control_command := exec_command ((socket_unwatch_control_pid (latch s f))\<lparr>control_command_id := Some SOCKET_EXEC_STOP_PRE\<rparr>) SOCKET_EXEC_STOP_PRE\<rparr>) SOCKET_SUCCESS)"
  by (simp only: socket_enter_stop_pre_def Let_def latch_def)

lemma latch_latch [simp]: "latch (latch s f) SOCKET_SUCCESS = latch s f"
  by simp

lemma socket_enter_signal_latch:
  "socket_enter_signal e s st f = socket_enter_signal e (latch s f) st SOCKET_SUCCESS"
  by (simp only: socket_enter_signal_unfold[of e s st f]
        socket_enter_signal_unfold[of e "latch s f" st SOCKET_SUCCESS] latch_success)

lemma socket_enter_stop_post_latch:
  "socket_enter_stop_post e s f = socket_enter_stop_post e (latch s f) SOCKET_SUCCESS"
  by (simp only: socket_enter_stop_post_unfold[of e s f]
        socket_enter_stop_post_unfold[of e "latch s f" SOCKET_SUCCESS] latch_success)

lemma socket_enter_stop_pre_latch:
  "socket_enter_stop_pre e s f = socket_enter_stop_pre e (latch s f) SOCKET_SUCCESS"
  by (simp only: socket_enter_stop_pre_unfold[of e s f]
        socket_enter_stop_pre_unfold[of e "latch s f" SOCKET_SUCCESS] latch_success)

lemma result_resources [simp]:
  "result (socket_enter_dead s SOCKET_FAILURE_RESOURCES) = SOCKET_FAILURE_RESOURCES"
  "result (socket_enter_stop_post e s SOCKET_FAILURE_RESOURCES) = SOCKET_FAILURE_RESOURCES"
  "result (socket_enter_signal e s st SOCKET_FAILURE_RESOURCES) = SOCKET_FAILURE_RESOURCES"
  using result_socket_enter_dead[of s SOCKET_FAILURE_RESOURCES]
    result_enter_stop_post[of e s SOCKET_FAILURE_RESOURCES]
    result_enter_signal[of e s st SOCKET_FAILURE_RESOURCES]
  by simp_all

lemma result_enter_signal_final_exact:
  assumes "st = SOCKET_FINAL_SIGTERM \<or> st = SOCKET_FINAL_SIGKILL"
  shows "result (socket_enter_signal e s st f) =
     (case unit_kill_context e st (st \<noteq> SOCKET_STOP_PRE_SIGTERM \<and> st \<noteq> SOCKET_FINAL_SIGTERM)
             (control_pid s) of
        Inl _ \<Rightarrow> SOCKET_FAILURE_RESOURCES
      | Inr True \<Rightarrow>
          (case unit_watch_timer_signal e st of
             Inl _ \<Rightarrow> SOCKET_FAILURE_RESOURCES
           | Inr _ \<Rightarrow> result (latch s f))
      | Inr False \<Rightarrow> result (latch s f))"
proof -
  have cp: "control_pid (latch s f) = control_pid s" by (simp add: latch_def)
  have n: "\<not> (st = SOCKET_STOP_PRE_SIGTERM \<or> st = SOCKET_STOP_PRE_SIGKILL)"
    using assms by auto
  show ?thesis
    unfolding socket_enter_signal_unfold[of e s st f] cp if_not_P[OF n]
    by (simp add: result_socket_enter_dead split: sum.split bool.split)
qed

lemma result_enter_stop_post_ok:
  assumes sp: "\<forall>s0 c0. fst (socket_spawn e s0 c0) = Inr ()"
    and kc: "\<forall>st0 b pid. \<exists>k. unit_kill_context e st0 b pid = Inr k"
    and wt: "\<forall>st0. unit_watch_timer_signal e st0 = Inr ()"
  shows "result (socket_enter_stop_post e s f) = result (latch s f)"
proof -
  let ?s1 = "(socket_unwatch_control_pid (latch s f))\<lparr>control_command_id := Some SOCKET_EXEC_STOP_POST\<rparr>"
  let ?x = "?s1\<lparr>control_command := exec_command ?s1 SOCKET_EXEC_STOP_POST\<rparr>"
  have rx: "result ?x = result (latch s f)" by simp
  show ?thesis
  proof (cases "control_command ?x")
    case Nil
    have "socket_enter_stop_post e s f = socket_enter_signal e ?x SOCKET_FINAL_SIGTERM SOCKET_SUCCESS"
      by (simp only: socket_enter_stop_post_unfold[of e s f] Nil list.case)
    moreover obtain k where k: "unit_kill_context e SOCKET_FINAL_SIGTERM
        (SOCKET_FINAL_SIGTERM \<noteq> SOCKET_STOP_PRE_SIGTERM \<and> SOCKET_FINAL_SIGTERM \<noteq> SOCKET_FINAL_SIGTERM)
        (control_pid ?x) = Inr k"
      using kc by blast
    have "result (socket_enter_signal e ?x SOCKET_FINAL_SIGTERM SOCKET_SUCCESS) = result ?x"
      using result_enter_signal_final_exact[OF disjI1[OF refl], of e ?x SOCKET_SUCCESS] k wt
      by (cases k) simp_all
    ultimately show ?thesis by (simp only: rx)
  next
    case (Cons c cs)
    obtain r s' where spx: "socket_spawn e ?x c = (r, s')" by (cases "socket_spawn e ?x c")
    from sp spx have r: "r = Inr ()" by (metis fst_conv)
    have rs: "result s' = result ?x"
      using result_socket_spawn[of e ?x c] by (simp only: spx snd_conv)
    have "socket_enter_stop_post e s f = socket_set_state s' SOCKET_STOP_POST"
      by (simp only: socket_enter_stop_post_unfold[of e s f] Cons list.case spx r prod.case sum.case)
    then show ?thesis by (simp only: result_socket_set_state rs rx)
  qed
qed

lemma result_enter_signal_ok:
  assumes sp: "\<forall>s0 c0. fst (socket_spawn e s0 c0) = Inr ()"
    and kc: "\<forall>st0 b pid. \<exists>k. unit_kill_context e st0 b pid = Inr k"
    and wt: "\<forall>st0. unit_watch_timer_signal e st0 = Inr ()"
  shows "result (socket_enter_signal e s st f) = result (latch s f)"
proof -
  obtain k where k: "unit_kill_context e st
        (st \<noteq> SOCKET_STOP_PRE_SIGTERM \<and> st \<noteq> SOCKET_FINAL_SIGTERM) (control_pid (latch s f)) = Inr k"
    using kc by blast
  have w: "unit_watch_timer_signal e st = Inr ()" using wt by simp
  have p: "result (socket_enter_stop_post e (latch s f) SOCKET_SUCCESS) = result (latch s f)"
    using result_enter_stop_post_ok[OF sp kc wt, of "latch s f" SOCKET_SUCCESS] by simp
  show ?thesis
  proof (cases k)
    case True
    have "socket_enter_signal e s st f = socket_set_state ((latch s f)\<lparr>timer_watch := True\<rparr>) st"
      by (simp only: socket_enter_signal_unfold[of e s st f] k True w sum.case bool.case)
    then show ?thesis by simp
  next
    case False
    have "socket_enter_signal e s st f =
        (if st = SOCKET_STOP_PRE_SIGTERM \<or> st = SOCKET_STOP_PRE_SIGKILL
         then socket_enter_stop_post e (latch s f) SOCKET_SUCCESS
         else socket_enter_dead (latch s f) SOCKET_SUCCESS)"
      by (simp only: socket_enter_signal_unfold[of e s st f] k False sum.case bool.case)
    then show ?thesis
      by (cases "st = SOCKET_STOP_PRE_SIGTERM \<or> st = SOCKET_STOP_PRE_SIGKILL")
         (simp_all add: p result_socket_enter_dead)
  qed
qed

lemma result_enter_stop_pre_ok:
  assumes sp: "\<forall>s0 c0. fst (socket_spawn e s0 c0) = Inr ()"
    and kc: "\<forall>st0 b pid. \<exists>k. unit_kill_context e st0 b pid = Inr k"
    and wt: "\<forall>st0. unit_watch_timer_signal e st0 = Inr ()"
  shows "result (socket_enter_stop_pre e s f) = result (latch s f)"
proof -
  let ?s1 = "(socket_unwatch_control_pid (latch s f))\<lparr>control_command_id := Some SOCKET_EXEC_STOP_PRE\<rparr>"
  let ?x = "?s1\<lparr>control_command := exec_command ?s1 SOCKET_EXEC_STOP_PRE\<rparr>"
  have rx: "result ?x = result (latch s f)" by simp
  show ?thesis
  proof (cases "control_command ?x")
    case Nil
    have "socket_enter_stop_pre e s f = socket_enter_stop_post e ?x SOCKET_SUCCESS"
      by (simp only: socket_enter_stop_pre_unfold[of e s f] Nil list.case)
    moreover have "result (socket_enter_stop_post e ?x SOCKET_SUCCESS) = result ?x"
      using result_enter_stop_post_ok[OF sp kc wt, of ?x SOCKET_SUCCESS] by (simp only: latch_success)
    ultimately show ?thesis by (simp only: rx)
  next
    case (Cons c cs)
    obtain r s' where spx: "socket_spawn e ?x c = (r, s')" by (cases "socket_spawn e ?x c")
    from sp spx have r: "r = Inr ()" by (metis fst_conv)
    have rs: "result s' = result ?x"
      using result_socket_spawn[of e ?x c] by (simp only: spx snd_conv)
    have "socket_enter_stop_pre e s f = socket_set_state s' SOCKET_STOP_PRE"
      by (simp only: socket_enter_stop_pre_unfold[of e s f] Cons list.case spx r prod.case sum.case)
    then show ?thesis by (simp only: result_socket_set_state rs rx)
  qed
qed

lemma result_enter_signal_kill_fails:
  assumes "unit_kill_context e st (st \<noteq> SOCKET_STOP_PRE_SIGTERM \<and> st \<noteq> SOCKET_FINAL_SIGTERM)
             (control_pid s) = Inl err"
  shows "result (socket_enter_signal e s st f) = SOCKET_FAILURE_RESOURCES"
proof -
  have cp: "control_pid (latch s f) = control_pid s" by (simp add: latch_def)
  have "socket_enter_signal e s st f =
        (if st = SOCKET_STOP_PRE_SIGTERM \<or> st = SOCKET_STOP_PRE_SIGKILL
         then socket_enter_stop_post e (latch s f) SOCKET_FAILURE_RESOURCES
         else socket_enter_dead (latch s f) SOCKET_FAILURE_RESOURCES)"
    by (simp only: socket_enter_signal_unfold[of e s st f] cp assms sum.case)
  then show ?thesis
    by (cases "st = SOCKET_STOP_PRE_SIGTERM \<or> st = SOCKET_STOP_PRE_SIGKILL") simp_all
qed

subsection \<open>Claim C1: the result of a unit\<close>

lemma ex_run_sigchld:
  "socket_run socket_timed_out [(env0, Sigchld 100 CLD_EXITED 1)] = Some socket_exited"
  using ex_sigchld_final_sigterm
  by (simp add: socket_event_def socket_timed_out_def socket_exited_def)

lemma ex_steps_succeed:
  "\<forall>s0 c0. fst (socket_spawn env0 s0 c0) = Inr ()"
  "\<forall>st0 b pid. \<exists>k. unit_kill_context env0 st0 b pid = Inr k"
  "\<forall>st0. unit_watch_timer_signal env0 st0 = Inr ()"
  by (auto simp: socket_spawn_def env0_def)




subsection \<open>Claim C2: descriptors and watches across state changes\<close>

lemma watch_ports_ok:
  "watch_ports e ps = (Inr u, ps') \<Longrightarrow>
     ps' = map (\<lambda>p. if fd p < 0 then p else p\<lparr>fd_watch := True\<rparr>) ps"
  by (induction ps arbitrary: ps') (auto simp: Let_def split: if_splits sum.splits prod.splits)

lemma ports_socket_set_state:
  "ports (socket_set_state s st) =
     (let ps = (if st \<noteq> SOCKET_LISTENING then unwatch_ports (ports s) else ports s)
      in if st \<noteq> SOCKET_START_CHOWN \<and> st \<noteq> SOCKET_START_POST \<and> st \<noteq> SOCKET_LISTENING \<and>
            st \<noteq> SOCKET_RUNNING \<and> st \<noteq> SOCKET_STOP_PRE \<and> st \<noteq> SOCKET_STOP_PRE_SIGTERM \<and>
            st \<noteq> SOCKET_STOP_PRE_SIGKILL
         then map (\<lambda>p. if fd p < 0 then p else p\<lparr>fd_watch := False, fd := -1\<rparr>) ps else ps)"
  by (simp add: socket_set_state_def Let_def socket_close_fds_eq socket_unwatch_fds_def
        socket_unwatch_control_pid_def)

lemma socket_enter_listening_cases:
  "(\<exists>u ps. watch_ports e (ports s) = (Inr u, ps) \<and>
      socket_enter_listening e s = socket_set_state (s\<lparr>ports := ps\<rparr>) SOCKET_LISTENING) \<or>
   state (socket_enter_listening e s) \<noteq> SOCKET_LISTENING"
proof (cases "watch_ports e (ports s)")
  case (Pair r ps)
  show ?thesis
  proof (cases r)
    case (Inl err)
    have "5 \<le> state_rank (state (socket_enter_listening e s))"
      using Pair Inl by (simp add: socket_enter_listening_def socket_watch_fds_def)
    then have "state (socket_enter_listening e s) \<noteq> SOCKET_LISTENING" by auto
    then show ?thesis by blast
  next
    case (Inr u)
    with Pair show ?thesis
      by (simp add: socket_enter_listening_def socket_watch_fds_def)
  qed
qed

lemma ex_watched_open:
  "\<forall>p \<in> set (ports socket_listening). fd_watch p \<longrightarrow> 0 \<le> fd p"
  by (simp add: socket_listening_def socket0_def fifo_port_def)

lemma ex_flush:
  "socket_fd_event env_stop_pending socket_listening True =
     Some (socket_listening\<lparr>ports := [fifo_port ''/run/x.pipe'' (-1)], closed_fds := [3]\<rparr>)"
  by (simp add: socket_fd_event_def socket_enter_running_def socket_watch_fds_def
        socket_close_fds_eq env_stop_pending_def env0_def socket_listening_def socket0_def
        fifo_port_def)

lemma ex_ports_dead:
  "ports (socket_set_state socket_listening SOCKET_DEAD) = [fifo_port ''/run/x.pipe'' (-1)]"
  by (simp add: ports_socket_set_state socket_listening_def socket0_def fifo_port_def)

lemma ex_ports_running:
  "ports (socket_set_state socket_listening SOCKET_RUNNING) = [fifo_port ''/run/x.pipe'' 3]"
  by (simp add: ports_socket_set_state socket_listening_def socket0_def fifo_port_def)

lemma ex_enter_listening:
  "socket_enter_listening env0 socket_listening =
     socket_set_state socket_listening SOCKET_LISTENING"
  by (simp add: socket_enter_listening_def socket_watch_fds_def socket_listening_def socket0_def
        fifo_port_def env0_def)

lemma filter_unwatch_ports:
  "map fd (filter (\<lambda>p. 0 \<le> fd p) (unwatch_ports ps)) = map fd (filter (\<lambda>p. 0 \<le> fd p) ps)"
  by (induction ps) auto

lemma closed_fds_socket_set_state:
  "closed_fds (socket_set_state s st) =
     (if st \<noteq> SOCKET_START_CHOWN \<and> st \<noteq> SOCKET_START_POST \<and> st \<noteq> SOCKET_LISTENING \<and>
         st \<noteq> SOCKET_RUNNING \<and> st \<noteq> SOCKET_STOP_PRE \<and> st \<noteq> SOCKET_STOP_PRE_SIGTERM \<and>
         st \<noteq> SOCKET_STOP_PRE_SIGKILL
      then closed_fds s @ map fd (filter (\<lambda>p. 0 \<le> fd p) (ports s)) else closed_fds s)"
  by (simp add: socket_set_state_def Let_def socket_close_fds_eq socket_unwatch_fds_def
        socket_unwatch_control_pid_def filter_unwatch_ports)

lemma ex_closed_fds:
  "closed_fds (socket_set_state socket_listening SOCKET_DEAD) = [3]"
  "closed_fds (socket_set_state socket_listening SOCKET_RUNNING) = []"
  "closed_fds socket_listening = []"
  "map fd (filter (\<lambda>p. 0 \<le> fd p) (ports socket_listening)) = [3]"
  by (simp_all add: closed_fds_socket_set_state socket_listening_def socket0_def fifo_port_def)

text \<open>
  Claim C2, for \<^verbatim>\<open>socket_set_state\<close> and the transition into listening. For a unit
  whose watches sit on open ports only: when the new state is none of start-chown,
  start-post, listening, running, stop-pre, stop-pre-sigterm and stop-pre-sigkill,
  every port is closed after \<^verbatim>\<open>socket_set_state\<close> and the descriptors that were
  open, and no others, have been given to \<^verbatim>\<open>safe_close\<close>, in the order of the
  ports; in those seven states the descriptors are what they were and none has
  been closed. When the new state is not listening no port is watched, and when it
  is listening \<^verbatim>\<open>socket_set_state\<close> leaves the ports as they are. The watches are
  registered by \<^verbatim>\<open>socket_enter_listening\<close> before the transition: when it ends in
  listening, a port is watched if and only if it is open, and no descriptor has
  changed or been closed.
\<close>

theorem socket_set_state_fds:
  assumes wf: "\<forall>p \<in> set (ports s). fd_watch p \<longrightarrow> 0 \<le> fd p"
  shows "(st \<notin> {SOCKET_START_CHOWN, SOCKET_START_POST, SOCKET_LISTENING, SOCKET_RUNNING,
                  SOCKET_STOP_PRE, SOCKET_STOP_PRE_SIGTERM, SOCKET_STOP_PRE_SIGKILL}
            \<longrightarrow> (\<forall>p \<in> set (ports (socket_set_state s st)). fd p < 0) \<and>
                closed_fds (socket_set_state s st) =
                  closed_fds s @ map fd (filter (\<lambda>p. 0 \<le> fd p) (ports s))) \<and>
         (st \<in> {SOCKET_START_CHOWN, SOCKET_START_POST, SOCKET_LISTENING, SOCKET_RUNNING,
                  SOCKET_STOP_PRE, SOCKET_STOP_PRE_SIGTERM, SOCKET_STOP_PRE_SIGKILL}
            \<longrightarrow> map fd (ports (socket_set_state s st)) = map fd (ports s) \<and>
                closed_fds (socket_set_state s st) = closed_fds s) \<and>
         (st \<noteq> SOCKET_LISTENING \<longrightarrow> (\<forall>p \<in> set (ports (socket_set_state s st)). \<not> fd_watch p)) \<and>
         (st = SOCKET_LISTENING \<longrightarrow> ports (socket_set_state s st) = ports s) \<and>
         (state (socket_enter_listening e s) = SOCKET_LISTENING
            \<longrightarrow> (\<forall>p \<in> set (ports (socket_enter_listening e s)). fd_watch p \<longleftrightarrow> 0 \<le> fd p) \<and>
                map fd (ports (socket_enter_listening e s)) = map fd (ports s) \<and>
                closed_fds (socket_enter_listening e s) = closed_fds s)"
proof -
  have 1: "(\<forall>p \<in> set (ports (socket_set_state s st)). fd p < 0) \<and>
           closed_fds (socket_set_state s st) =
             closed_fds s @ map fd (filter (\<lambda>p. 0 \<le> fd p) (ports s))"
    if "st \<notin> {SOCKET_START_CHOWN, SOCKET_START_POST, SOCKET_LISTENING, SOCKET_RUNNING,
                  SOCKET_STOP_PRE, SOCKET_STOP_PRE_SIGTERM, SOCKET_STOP_PRE_SIGKILL}"
    using that by (auto simp: ports_socket_set_state unwatch_ports_map closed_fds_socket_set_state)
  have 2: "map fd (ports (socket_set_state s st)) = map fd (ports s) \<and>
           closed_fds (socket_set_state s st) = closed_fds s"
    if "st \<in> {SOCKET_START_CHOWN, SOCKET_START_POST, SOCKET_LISTENING, SOCKET_RUNNING,
                  SOCKET_STOP_PRE, SOCKET_STOP_PRE_SIGTERM, SOCKET_STOP_PRE_SIGKILL}"
    using that by (auto simp: ports_socket_set_state closed_fds_socket_set_state)
  have 3: "\<forall>p \<in> set (ports (socket_set_state s st)). \<not> fd_watch p" if "st \<noteq> SOCKET_LISTENING"
    using that wf by (auto simp: ports_socket_set_state unwatch_ports_map Let_def)
  have 4: "ports (socket_set_state s st) = ports s" if "st = SOCKET_LISTENING"
    using that by (simp add: ports_socket_set_state)
  have 5: "(\<forall>p \<in> set (ports (socket_enter_listening e s)). fd_watch p \<longleftrightarrow> 0 \<le> fd p) \<and>
           map fd (ports (socket_enter_listening e s)) = map fd (ports s) \<and>
           closed_fds (socket_enter_listening e s) = closed_fds s"
    if l: "state (socket_enter_listening e s) = SOCKET_LISTENING"
  proof -
    from socket_enter_listening_cases[of e s] l obtain u ps where
      w: "watch_ports e (ports s) = (Inr u, ps)" and
      eq: "socket_enter_listening e s = socket_set_state (s\<lparr>ports := ps\<rparr>) SOCKET_LISTENING"
      by blast
    have p: "ports (socket_enter_listening e s) = ps"
      by (simp add: eq ports_socket_set_state)
    have c: "closed_fds (socket_enter_listening e s) = closed_fds s"
      by (simp add: eq closed_fds_socket_set_state)
    note wp = watch_ports_ok[OF w]
    have m: "map fd ps = map fd (ports s)"
      by (subst wp) (simp add: comp_def)
    have a: "\<forall>p \<in> set ps. fd_watch p \<longleftrightarrow> 0 \<le> fd p"
      using wf wp by auto
    from p c m a show ?thesis by simp
  qed
  from 1 2 3 4 5 show ?thesis by blast
qed

theorem socket_set_state_fds_witness:
  "fd (hd (ports (socket_set_state socket_listening SOCKET_DEAD))) < 0 \<and>
   \<not> fd_watch (hd (ports (socket_set_state socket_listening SOCKET_DEAD))) \<and>
   closed_fds (socket_set_state socket_listening SOCKET_DEAD) = [3] \<and>
   map fd (ports (socket_set_state socket_listening SOCKET_RUNNING)) = [3] \<and>
   \<not> fd_watch (hd (ports (socket_set_state socket_listening SOCKET_RUNNING))) \<and>
   closed_fds (socket_set_state socket_listening SOCKET_RUNNING) = [] \<and>
   ports (socket_set_state socket_listening SOCKET_LISTENING) = ports socket_listening \<and>
   state (socket_enter_listening env0 socket_listening) = SOCKET_LISTENING \<and>
   fd_watch (hd (ports (socket_enter_listening env0 socket_listening))) \<and>
   0 \<le> fd (hd (ports (socket_enter_listening env0 socket_listening))) \<and>
   closed_fds (socket_enter_listening env0 socket_listening) = []"
proof -
  note d = socket_set_state_fds[OF ex_watched_open, of SOCKET_DEAD env0]
  note r = socket_set_state_fds[OF ex_watched_open, of SOCKET_RUNNING env0]
  note l = socket_set_state_fds[OF ex_watched_open, of SOCKET_LISTENING env0]
  have st: "state (socket_enter_listening env0 socket_listening) = SOCKET_LISTENING"
    by (simp add: ex_enter_listening)
  have hd_in: "hd (ports (socket_set_state socket_listening SOCKET_DEAD))
                 \<in> set (ports (socket_set_state socket_listening SOCKET_DEAD))"
    "hd (ports (socket_set_state socket_listening SOCKET_RUNNING))
                 \<in> set (ports (socket_set_state socket_listening SOCKET_RUNNING))"
    by (simp_all add: ex_ports_dead ex_ports_running)
  have lp: "ports (socket_enter_listening env0 socket_listening) = ports socket_listening"
    using l by (simp add: ex_enter_listening)
  have hd_l: "hd (ports (socket_enter_listening env0 socket_listening))
                \<in> set (ports (socket_enter_listening env0 socket_listening))"
    by (simp add: lp) (simp add: socket_listening_def socket0_def)
  from d hd_in(1) have 1: "fd (hd (ports (socket_set_state socket_listening SOCKET_DEAD))) < 0"
    "\<not> fd_watch (hd (ports (socket_set_state socket_listening SOCKET_DEAD)))"
    by simp_all
  from d have c1: "closed_fds (socket_set_state socket_listening SOCKET_DEAD) = [3]"
    by (simp add: ex_closed_fds)
  from r hd_in(2) have 2: "map fd (ports (socket_set_state socket_listening SOCKET_RUNNING))
       = map fd (ports socket_listening)"
    "\<not> fd_watch (hd (ports (socket_set_state socket_listening SOCKET_RUNNING)))"
    by simp_all
  from r have c2: "closed_fds (socket_set_state socket_listening SOCKET_RUNNING) = []"
    by (simp add: ex_closed_fds)
  from l have 3: "ports (socket_set_state socket_listening SOCKET_LISTENING) = ports socket_listening"
    by simp
  from l st hd_l have 4: "fd_watch (hd (ports (socket_enter_listening env0 socket_listening)))
     \<longleftrightarrow> 0 \<le> fd (hd (ports (socket_enter_listening env0 socket_listening)))"
    by blast
  from l st have c4: "closed_fds (socket_enter_listening env0 socket_listening) = []"
    by (simp add: ex_closed_fds)
  have 5: "0 \<le> fd (hd (ports (socket_enter_listening env0 socket_listening)))"
    by (simp add: lp) (simp add: socket_listening_def socket0_def fifo_port_def)
  have 6: "map fd (ports socket_listening) = [3]"
    by (simp add: socket_listening_def socket0_def fifo_port_def)
  from 1 c1 2 c2 3 4 c4 5 6 st show ?thesis by simp
qed

text \<open>
  Where the source departs from the claim. On a readable event while a stop is
  pending, \<^verbatim>\<open>socket_enter_running\<close> calls \<^verbatim>\<open>socket_close_fds\<close> and
  \<^verbatim>\<open>socket_watch_fds\<close> and returns; its comment announces that the sockets are
  flushed by closing and reopening them, and nothing is reopened. The unit stays in
  listening, no transition is made (no notification is sent), and its only
  descriptor is closed and no longer watched.
\<close>

theorem socket_set_state_fds_counterexample:
  "state socket_listening = SOCKET_LISTENING \<and>
   map_option state (socket_fd_event env_stop_pending socket_listening True)
     = Some SOCKET_LISTENING \<and>
   map_option notifications (socket_fd_event env_stop_pending socket_listening True)
     = Some (notifications socket_listening) \<and>
   map fd (ports socket_listening) = [3] \<and>
   map_option (map fd \<circ> ports) (socket_fd_event env_stop_pending socket_listening True)
     = Some [-1] \<and>
   map_option (map fd_watch \<circ> ports) (socket_fd_event env_stop_pending socket_listening True)
     = Some [False] \<and>
   map_option closed_fds (socket_fd_event env_stop_pending socket_listening True) = Some [3]"
  by (simp add: ex_flush) (simp add: socket_listening_def socket0_def fifo_port_def)

subsection \<open>Claim C3: the round trip of a serialized unit\<close>

lemma fmt_i_13: "fmt_i 13 = ''13''" "fmt_i 14 = ''14''" "fmt_i 1 = ''1''" "fmt_u 5 = ''5''" "fmt_u 0 = ''0''"
  by code_simp+

lemma ex_serialize_serving:
  "socket_serialize env0 socket_serving [] [] =
     (Inr (), [(''state'', ''listening''), (''result'', ''success''), (''n-accepted'', ''5''),
               (''socket'', ''13 1 /run/x.sock''), (''fifo'', ''14 /run/y'')], [13, 14])"
  by (simp add: socket_serialize_eq head_items_def serialize_ports_Cons port_item_def
        exec_context_serialize_eq tmp_items_def unit_serialize_item_def
        socket_serving_def socket0_def stream_port_def fifo_port_def env0_def fmt_i_13)

lemma ex_serialize_twin:
  "socket_serialize env0 socket_twin [] [] =
     (Inr (), [(''state'', ''listening''), (''result'', ''success''), (''n-accepted'', ''0''),
               (''fifo'', ''13 /run/y''), (''fifo'', ''14 /run/y'')], [13, 14])"
  by (simp add: socket_serialize_eq head_items_def serialize_ports_Cons port_item_def
        exec_context_serialize_eq tmp_items_def unit_serialize_item_def
        socket_twin_def socket0_def fifo_port_def env0_def fmt_i_13)

lemma ex_scan: "sscanf_i_n ''13 /run/y'' = Some (13, ''/run/y'')"
  "sscanf_i_n ''14 /run/y'' = Some (14, ''/run/y'')"
  using sscanf_i_n_fmt[of 13 "''/run/y''"] sscanf_i_n_fmt[of 14 "''/run/y''"]
  by (simp_all add: fmt_i_13 is_space_def)

lemma ex_deserialize_twin:
  "deserialize_items env0 socket_twin_reloaded
     [(''state'', ''listening''), (''result'', ''success''), (''n-accepted'', ''0''),
      (''fifo'', ''13 /run/y''), (''fifo'', ''14 /run/y'')] [13, 14] =
   (socket_twin_reloaded\<lparr>deserialized_state := SOCKET_LISTENING,
       ports := [fifo_port ''/run/y'' 14, fifo_port ''/run/y'' (- 1)], closed_fds := [13]\<rparr>, [])"
proof -
  have a: "socket_state_from_string ''listening'' = Some SOCKET_LISTENING"
    "socket_result_from_string ''success'' = Some SOCKET_SUCCESS"
    using socket_state_from_to_string[of SOCKET_LISTENING]
      socket_result_from_to_string[of SOCKET_SUCCESS] by simp_all
  have b: "safe_atou ''0'' = Some 0"
    using safe_atou_fmt_u[of 0] by (simp add: fmt_i_13)
  show ?thesis
    by (simp add: di_state di_result di_n_accepted di_fifo[OF ex_scan(1)] di_fifo[OF ex_scan(2)]
          a b deserialize_port_def safe_close_def
          socket_twin_reloaded_def socket0_def fifo_port_def)
qed

lemma ex_serving_hyps:
  "distinct [13, 14 :: int]" "list_all (\<lambda>c. 0 \<le> c) [13, 14 :: int]"
  "list_all (port_ok env0) (filter (\<lambda>p. 0 \<le> fd p) (ports socket_serving))"
  "own_lines env0 [] (ports socket_serving)"
  "0 \<le> control_pid socket_serving" "control_pid socket_serving < 2 ^ 31"
  "ports socket_reloaded = map (\<lambda>p. p\<lparr>fd := - 1, fd_watch := False\<rparr>) (ports socket_serving)"
  "result socket_reloaded = SOCKET_SUCCESS" "n_accepted socket_reloaded = 0"
  "control_pid socket_reloaded = 0" "control_command_id socket_reloaded = None"
  by (simp_all add: socket_serving_def socket_reloaded_def socket0_def stream_port_def
        fifo_port_def env0_def port_ok_def no_leading_space_def is_space_def line_match_def)

lemma ex_restored_serving:
  "map (restored env0 True) (ports socket_serving) =
     [stream_port ''/run/x.sock'' 13, fifo_port ''/run/y'' 14]"
  by (simp add: restored_def dup_of_def socket_serving_def socket0_def stream_port_def
        fifo_port_def env0_def)

text \<open>
  Claim C3, as the source has it. Let \<^verbatim>\<open>socket_serialize\<close> succeed on a unit, in any
  state, whose duplicated descriptors are distinct and not negative, whose open
  ports each write an item that can be read back and that finds this port before
  any other, and whose control pid is a \<^verbatim>\<open>pid_t\<close> that is not negative. Feeding the
  items in order to \<^verbatim>\<open>socket_deserialize_item\<close>, on a freshly loaded unit with the
  same ports, all closed, uses up every duplicate and restores the state (in
  \<^verbatim>\<open>deserialized_state\<close>), the result, \<^verbatim>\<open>n_accepted\<close>, the control pid and the id
  of the control command; each port that was open carries the duplicate of its
  descriptor, the others stay closed, and no descriptor is closed.
\<close>

theorem socket_serialize_deserialize:
  assumes ser: "socket_serialize e s [] [] = (Inr (), f, fds)"
    and dist: "distinct fds" and nneg: "list_all (\<lambda>c. 0 \<le> c) fds"
    and oks: "list_all (port_ok e) (filter (\<lambda>p. 0 \<le> fd p) (ports s))"
    and own: "own_lines e [] (ports s)"
    and pid: "0 \<le> control_pid s" "control_pid s < 2 ^ 31"
    and fresh: "ports s0 = map (\<lambda>p. p\<lparr>fd := - 1, fd_watch := False\<rparr>) (ports s)"
      "result s0 = SOCKET_SUCCESS" "n_accepted s0 = 0" "control_pid s0 = 0"
      "control_command_id s0 = None"
  shows "\<exists>s1. deserialize_items e s0 f fds = (s1, []) \<and>
           deserialized_state s1 = state s \<and> result s1 = result s \<and>
           n_accepted s1 = n_accepted s \<and> control_pid s1 = control_pid s \<and>
           control_command_id s1 = control_command_id s \<and>
           ports s1 = map (restored e True) (ports s) \<and>
           closed_fds s1 = closed_fds s0"
proof -
  note si = socket_serialize_items[OF ser]
  from deserialize_head_items[OF pid(2), of e s0 fds] obtain sa where
    a: "deserialize_items e s0 (head_items s) fds = (sa, fds)"
       "deserialized_state sa = state s"
       "result sa = (if result s = SOCKET_SUCCESS then result s0 else result s)"
       "n_accepted sa = n_accepted s0 + n_accepted s"
       "control_pid sa = (if 0 < control_pid s then control_pid s else control_pid s0)"
       "control_command_id sa =
          (case control_command_id s of None \<Rightarrow> control_command_id s0 | Some c \<Rightarrow> Some c)"
       "ports sa = ports s0" "closed_fds sa = closed_fds s0"
    by blast
  have pa: "ports sa = map (restored e True) [] @ map (restored e False) (ports s)"
    unfolding a(7) fresh(1) by (simp add: restored_def)
  have ok2: "\<forall>p\<in>set (ports s). 0 \<le> fd p \<longrightarrow>
           port_ok e p \<and> (\<exists>it. port_item e (dup_of e (fd p)) p = Inr it)"
    using si(3) port_ok_all[OF oks] by blast
  from dist nneg have d2: "distinct (port_copies e (ports s))"
    "\<forall>c\<in>set (port_copies e (ports s)). 0 \<le> c"
    by (simp_all add: si(2) list_all_iff)
  from deserialize_port_items[OF own ok2 d2 pa] obtain sb where
    b: "deserialize_items e sa (port_items e (ports s)) (port_copies e (ports s)) = (sb, [])"
       "ports sb = map (restored e True) ([] @ ports s)" "sb = sa\<lparr>ports := ports sb\<rparr>"
    by blast
  from deserialize_tmp_items[of e sb s "[]"] obtain sc where
    c: "deserialize_items e sb (tmp_items s) [] = (sc, [])"
       "deserialized_state sc = deserialized_state sb" "result sc = result sb"
       "n_accepted sc = n_accepted sb" "control_pid sc = control_pid sb"
       "control_command_id sc = control_command_id sb"
       "ports sc = ports sb" "closed_fds sc = closed_fds sb"
    by blast
  have fb: "deserialized_state sb = deserialized_state sa" "result sb = result sa"
    "n_accepted sb = n_accepted sa" "control_pid sb = control_pid sa"
    "control_command_id sb = control_command_id sa" "closed_fds sb = closed_fds sa"
    by (subst b(3), simp)+
  have run: "deserialize_items e s0 f fds = (sc, [])"
    unfolding si(1) using a(1) b(1) c(1)
    by (simp add: deserialize_items_append si(2)[symmetric])
  have 1: "result sc = result s" using c(3) fb(2) a(3) fresh(2) by simp
  have 2: "n_accepted sc = n_accepted s" using c(4) fb(3) a(4) fresh(3) by simp
  have 3: "control_pid sc = control_pid s" using c(5) fb(4) a(5) fresh(4) pid(1) by simp
  have 4: "control_command_id sc = control_command_id s"
    using c(6) fb(5) a(6) fresh(5) by (simp split: option.split)
  have 5: "deserialized_state sc = state s" using c(2) fb(1) a(2) by simp
  have 6: "ports sc = map (restored e True) (ports s)" using c(7) b(2) by simp
  have 7: "closed_fds sc = closed_fds s0" using c(8) fb(6) a(8) by simp
  from run 1 2 3 4 5 6 7 show ?thesis by blast
qed

theorem socket_serialize_deserialize_witness:
  "socket_serialize env0 socket_serving [] [] =
     (Inr (), [(''state'', ''listening''), (''result'', ''success''), (''n-accepted'', ''5''),
               (''socket'', ''13 1 /run/x.sock''), (''fifo'', ''14 /run/y'')], [13, 14]) \<and>
   state socket_serving = SOCKET_LISTENING \<and> n_accepted socket_serving = 5 \<and>
   map fd (ports socket_serving) = [3, 4] \<and>
   snd (deserialize_items env0 socket_reloaded
     [(''state'', ''listening''), (''result'', ''success''), (''n-accepted'', ''5''),
      (''socket'', ''13 1 /run/x.sock''), (''fifo'', ''14 /run/y'')] [13, 14]) = [] \<and>
   deserialized_state (fst (deserialize_items env0 socket_reloaded
     [(''state'', ''listening''), (''result'', ''success''), (''n-accepted'', ''5''),
      (''socket'', ''13 1 /run/x.sock''), (''fifo'', ''14 /run/y'')] [13, 14])) = SOCKET_LISTENING \<and>
   n_accepted (fst (deserialize_items env0 socket_reloaded
     [(''state'', ''listening''), (''result'', ''success''), (''n-accepted'', ''5''),
      (''socket'', ''13 1 /run/x.sock''), (''fifo'', ''14 /run/y'')] [13, 14])) = 5 \<and>
   ports (fst (deserialize_items env0 socket_reloaded
     [(''state'', ''listening''), (''result'', ''success''), (''n-accepted'', ''5''),
      (''socket'', ''13 1 /run/x.sock''), (''fifo'', ''14 /run/y'')] [13, 14])) =
     [stream_port ''/run/x.sock'' 13, fifo_port ''/run/y'' 14]"
proof -
  let ?f = "[(''state'', ''listening''), (''result'', ''success''), (''n-accepted'', ''5''),
      (''socket'', ''13 1 /run/x.sock''), (''fifo'', ''14 /run/y'')]"
  from socket_serialize_deserialize[OF ex_serialize_serving ex_serving_hyps] obtain s1 where
    r: "deserialize_items env0 socket_reloaded ?f [13, 14] = (s1, [])"
       "deserialized_state s1 = state socket_serving"
       "n_accepted s1 = n_accepted socket_serving"
       "ports s1 = map (restored env0 True) (ports socket_serving)"
    by blast
  have v: "state socket_serving = SOCKET_LISTENING" "n_accepted socket_serving = 5"
    "map fd (ports socket_serving) = [3, 4]"
    by (simp_all add: socket_serving_def socket0_def stream_port_def fifo_port_def)
  from r(2,3,4) have w: "deserialized_state s1 = SOCKET_LISTENING" "n_accepted s1 = 5"
    "ports s1 = [stream_port ''/run/x.sock'' 13, fifo_port ''/run/y'' 14]"
    by (simp_all add: v ex_restored_serving)
  show ?thesis
    unfolding r(1) using w v ex_serialize_serving by simp
qed

text \<open>
  The claim as stated fails for a unit with two FIFO ports of the same path, both
  open: the two items name the same path, both find the first port, whose first
  duplicate (13) is closed when the second (14) replaces it, and the second port
  stays closed.
\<close>

theorem socket_serialize_deserialize_counterexample:
  "state socket_twin = SOCKET_LISTENING \<and> map fd (ports socket_twin) = [3, 4] \<and>
   map (\<lambda>p. p\<lparr>fd := - 1\<rparr>) (ports socket_twin) = ports socket_twin_reloaded \<and>
   socket_serialize env0 socket_twin [] [] =
     (Inr (), [(''state'', ''listening''), (''result'', ''success''), (''n-accepted'', ''0''),
               (''fifo'', ''13 /run/y''), (''fifo'', ''14 /run/y'')], [13, 14]) \<and>
   map fd (ports (fst (deserialize_items env0 socket_twin_reloaded
     [(''state'', ''listening''), (''result'', ''success''), (''n-accepted'', ''0''),
      (''fifo'', ''13 /run/y''), (''fifo'', ''14 /run/y'')] [13, 14]))) = [14, - 1] \<and>
   closed_fds (fst (deserialize_items env0 socket_twin_reloaded
     [(''state'', ''listening''), (''result'', ''success''), (''n-accepted'', ''0''),
      (''fifo'', ''13 /run/y''), (''fifo'', ''14 /run/y'')] [13, 14])) = [13]"
  unfolding ex_serialize_twin ex_deserialize_twin
  by (simp add: socket_twin_def socket_twin_reloaded_def socket0_def fifo_port_def)

subsection \<open>Claim C4: timeouts\<close>

lemma ex_timer_timed_out:
  "socket_timer_event env0 socket_in_start_pre = Some socket_timed_out"
  by (simp add: ex_timer_start_pre socket_timed_out_def)

lemma ex_timer_final_sigterm:
  "socket_timer_event env0 socket_timed_out = Some socket_killed"
  by (simp add: socket_timer_event_def socket_enter_signal.simps socket_set_state_def
        socket_unwatch_fds_def socket_close_fds_eq Let_def socket_killed_def socket_timed_out_def
        ex_defs)

lemma ex_timer_final_sigkill:
  "socket_timer_event env0 socket_killed =
     Some (socket_enter_dead socket_killed SOCKET_FAILURE_TIMEOUT)"
  by (simp add: socket_timer_event_def socket_killed_def)

text \<open>
  Claim C4. In each of the nine states that arm the timer,
  \<^verbatim>\<open>socket_timer_event\<close> returns and performs the transition of the timeout table
  with \<^verbatim>\<open>SOCKET_FAILURE_TIMEOUT\<close>; the state reached is strictly later in the order
  \<^verbatim>\<open>state_rank\<close> (so at most eleven timeouts in a row are possible), the result is a
  failure, and from \<^verbatim>\<open>SOCKET_FINAL_SIGKILL\<close> the transition \<^verbatim>\<open>socket_enter_dead\<close>
  with a failure leaves the unit in \<^verbatim>\<open>SOCKET_FAILED\<close>.
\<close>

theorem socket_timer_event_advances:
  assumes "state s \<in> {SOCKET_START_PRE, SOCKET_START_CHOWN, SOCKET_START_POST, SOCKET_STOP_PRE,
                        SOCKET_STOP_PRE_SIGTERM, SOCKET_STOP_PRE_SIGKILL, SOCKET_STOP_POST,
                        SOCKET_FINAL_SIGTERM, SOCKET_FINAL_SIGKILL}"
  shows "\<exists>s'. socket_timer_event e s = Some s' \<and>
           state_rank (state s) < state_rank (state s') \<and>
           result s' \<noteq> SOCKET_SUCCESS \<and>
           (state s = SOCKET_START_PRE \<longrightarrow>
              s' = socket_enter_signal e s SOCKET_FINAL_SIGTERM SOCKET_FAILURE_TIMEOUT) \<and>
           (state s = SOCKET_START_CHOWN \<or> state s = SOCKET_START_POST \<longrightarrow>
              s' = socket_enter_stop_pre e s SOCKET_FAILURE_TIMEOUT) \<and>
           (state s = SOCKET_STOP_PRE \<longrightarrow>
              s' = socket_enter_signal e s SOCKET_STOP_PRE_SIGTERM SOCKET_FAILURE_TIMEOUT) \<and>
           (state s = SOCKET_STOP_PRE_SIGTERM \<longrightarrow>
              s' = (if send_sigkill s
                    then socket_enter_signal e s SOCKET_STOP_PRE_SIGKILL SOCKET_FAILURE_TIMEOUT
                    else socket_enter_stop_post e s SOCKET_FAILURE_TIMEOUT)) \<and>
           (state s = SOCKET_STOP_PRE_SIGKILL \<longrightarrow>
              s' = socket_enter_stop_post e s SOCKET_FAILURE_TIMEOUT) \<and>
           (state s = SOCKET_STOP_POST \<longrightarrow>
              s' = socket_enter_signal e s SOCKET_FINAL_SIGTERM SOCKET_FAILURE_TIMEOUT) \<and>
           (state s = SOCKET_FINAL_SIGTERM \<longrightarrow>
              s' = (if send_sigkill s
                    then socket_enter_signal e s SOCKET_FINAL_SIGKILL SOCKET_FAILURE_TIMEOUT
                    else socket_enter_dead s SOCKET_FAILURE_TIMEOUT)) \<and>
           (state s = SOCKET_FINAL_SIGKILL \<longrightarrow>
              s' = socket_enter_dead s SOCKET_FAILURE_TIMEOUT \<and>
              state s' = SOCKET_FAILED \<and> result s' = SOCKET_FAILURE_TIMEOUT)"
proof -
  from assms consider
      "state s = SOCKET_START_PRE" | "state s = SOCKET_START_CHOWN" | "state s = SOCKET_START_POST"
    | "state s = SOCKET_STOP_PRE" | "state s = SOCKET_STOP_PRE_SIGTERM"
    | "state s = SOCKET_STOP_PRE_SIGKILL" | "state s = SOCKET_STOP_POST"
    | "state s = SOCKET_FINAL_SIGTERM" | "state s = SOCKET_FINAL_SIGKILL"
    by auto
  then show ?thesis
  proof cases
    case 1 then show ?thesis by (simp add: socket_timer_event_def)
  next
    case 2 then show ?thesis by (simp add: socket_timer_event_def)
  next
    case 3 then show ?thesis by (simp add: socket_timer_event_def)
  next
    case 4 then show ?thesis by (simp add: socket_timer_event_def)
  next
    case 5 then show ?thesis by (simp add: socket_timer_event_def)
  next
    case 6 then show ?thesis by (simp add: socket_timer_event_def)
  next
    case 7 then show ?thesis by (simp add: socket_timer_event_def)
  next
    case 8 then show ?thesis by (simp add: socket_timer_event_def)
  next
    case 9 then show ?thesis
      by (simp add: socket_timer_event_def state_socket_enter_dead result_socket_enter_dead)
  qed
qed

theorem socket_timer_event_advances_witness:
  "state socket_in_start_pre = SOCKET_START_PRE \<and>
   socket_timer_event env0 socket_in_start_pre = Some socket_timed_out \<and>
   socket_timed_out = socket_enter_signal env0 socket_in_start_pre SOCKET_FINAL_SIGTERM
                        SOCKET_FAILURE_TIMEOUT \<and>
   state socket_timed_out = SOCKET_FINAL_SIGTERM \<and>
   result socket_timed_out = SOCKET_FAILURE_TIMEOUT \<and>
   socket_timer_event env0 socket_timed_out = Some socket_killed \<and>
   state socket_killed = SOCKET_FINAL_SIGKILL \<and>
   state (the (socket_timer_event env0 socket_killed)) = SOCKET_FAILED \<and>
   result (the (socket_timer_event env0 socket_killed)) = SOCKET_FAILURE_TIMEOUT"
proof -
  have s1: "state socket_in_start_pre = SOCKET_START_PRE"
    by (simp add: socket_in_start_pre_def)
  have s2: "state socket_timed_out = SOCKET_FINAL_SIGTERM"
    "result socket_timed_out = SOCKET_FAILURE_TIMEOUT"
    by (simp_all add: socket_timed_out_def)
  have s3: "state socket_killed = SOCKET_FINAL_SIGKILL"
    by (simp add: socket_killed_def)
  have m: "state socket_in_start_pre \<in> {SOCKET_START_PRE, SOCKET_START_CHOWN, SOCKET_START_POST, SOCKET_STOP_PRE,
                        SOCKET_STOP_PRE_SIGTERM, SOCKET_STOP_PRE_SIGKILL, SOCKET_STOP_POST,
                        SOCKET_FINAL_SIGTERM, SOCKET_FINAL_SIGKILL}"
     "state socket_killed \<in> {SOCKET_START_PRE, SOCKET_START_CHOWN, SOCKET_START_POST, SOCKET_STOP_PRE,
                        SOCKET_STOP_PRE_SIGTERM, SOCKET_STOP_PRE_SIGKILL, SOCKET_STOP_POST,
                        SOCKET_FINAL_SIGTERM, SOCKET_FINAL_SIGKILL}"
    by (simp_all add: s1 s3)
  from socket_timer_event_advances[OF m(1), of env0] s1 ex_timer_timed_out
  have a: "socket_timed_out = socket_enter_signal env0 socket_in_start_pre SOCKET_FINAL_SIGTERM
                        SOCKET_FAILURE_TIMEOUT" by simp
  from socket_timer_event_advances[OF m(2), of env0] s3
  have b: "state (the (socket_timer_event env0 socket_killed)) = SOCKET_FAILED \<and>
           result (the (socket_timer_event env0 socket_killed)) = SOCKET_FAILURE_TIMEOUT"
    by auto
  from s1 s2 s3 a b ex_timer_timed_out ex_timer_final_sigterm show ?thesis by simp
qed

subsection \<open>Claim C5: handing a connection to the service\<close>

lemma unat_incr_below:
  fixes x y :: "32 word"
  assumes "x < y"
  shows "unat (x + 1) = unat x + 1"
proof -
  from assms have "unat x < unat y" by (simp add: word_less_nat_alt)
  moreover have "unat y < 2 ^ 32" using unsigned_less[of y, where 'a=nat] by simp
  ultimately have "unat x + 1 < 2 ^ 32" by simp
  then show ?thesis by (simp add: unat_word_ariths)
qed

lemma ex_not_in_use: "7 \<notin> set (closed_fds socket_accepting)" "7 \<notin> open_fds socket_accepting"
   "8 \<notin> set (closed_fds socket_accepted)" "8 \<notin> open_fds socket_accepted"
  by (simp_all add: open_fds_def acc_defs)

text \<open>
  Claim C5. For an accepted descriptor \<^verbatim>\<open>cfd\<close> that is not yet recorded as closed
  and is not one of the unit's ports, \<^verbatim>\<open>socket_enter_running\<close> ends in exactly one of
  two ways: the descriptor was given to the service, \<^verbatim>\<open>service_set_socket_fd\<close>
  succeeded, \<^verbatim>\<open>n_connections\<close> grew by one (without wrapping) and the descriptor
  was not closed; or nothing was handed over, \<^verbatim>\<open>n_connections\<close> is what it was and
  the descriptor was closed.
\<close>

theorem socket_enter_running_handoff:
  assumes "0 \<le> cfd" and "socket_enter_running e s cfd = Some s'"
    and "cfd \<notin> set (closed_fds s)" and "cfd \<notin> open_fds s"
  shows "(handed_off s' = handed_off s @ [cfd] \<and>
          n_connections s' = n_connections s + 1 \<and>
          unat (n_connections s') = unat (n_connections s) + 1 \<and>
          cfd \<notin> set (closed_fds s') \<and>
          service_set_socket_fd e cfd = Inr ()) \<or>
         (handed_off s' = handed_off s \<and>
          n_connections s' = n_connections s \<and>
          cfd \<in> set (closed_fds s'))"
proof (cases "unit_stop_pending e \<or> max_connections s \<le> n_connections s")
  case True
  with assms show ?thesis
    by (auto simp: socket_enter_running_def safe_close_def split: if_splits)
next
  case False
  then have lt: "n_connections s < max_connections s" by (simp add: not_le)
  note inc = unat_incr_below[OF lt]
  from assms(2) False assms(1) obtain r s1 where
    inst: "socket_instantiate_service e s = Some (r, s1)"
    by (auto simp: socket_enter_running_def split: option.splits)
  from socket_instantiate_service_frame[OF inst]
  have fr: "s1 = s\<lparr>service := service s1\<rparr>" .
  have f1: "closed_fds s1 = closed_fds s" "n_connections s1 = n_connections s"
    "ports s1 = ports s" "handed_off s1 = handed_off s"
    by (subst fr, simp)+
  have o1: "open_fds s1 = open_fds s" by (simp add: open_fds_def f1)
  note ff = socket_enter_running_fail_fields
  have nonneg: "\<not> cfd < 0" using assms(1) by simp
  show ?thesis
    using assms False inst f1 o1 inc
    apply (simp add: socket_enter_running_def nonneg split: option.splits sum.splits)
          apply (auto simp: Let_def ff(1,2,3,5) open_fds_def safe_close_def
                      split: sum.splits if_splits dest!: subsetD[OF ff(4)])
    done
qed

theorem socket_enter_running_handoff_witness:
  "socket_enter_running env0 socket_accepting 7 = Some socket_accepted \<and>
   service_set_socket_fd env0 7 = Inr () \<and>
   handed_off socket_accepted = handed_off socket_accepting @ [7] \<and>
   n_connections socket_accepted = n_connections socket_accepting + 1 \<and>
   7 \<notin> set (closed_fds socket_accepted) \<and>
   socket_enter_running env0 socket_accepted 8 = Some (socket_accepted\<lparr>closed_fds := [8]\<rparr>) \<and>
   handed_off (socket_accepted\<lparr>closed_fds := [8]\<rparr>) = handed_off socket_accepted \<and>
   n_connections (socket_accepted\<lparr>closed_fds := [8]\<rparr>) = n_connections socket_accepted \<and>
   8 \<in> set (closed_fds (socket_accepted\<lparr>closed_fds := [8]\<rparr>))"
proof -
  have p7: "(0::int) \<le> 7" and p8: "(0::int) \<le> 8" by simp_all
  note a = socket_enter_running_handoff[OF p7 ex_accept_first ex_not_in_use(1,2)]
  note b = socket_enter_running_handoff[OF p8 ex_accept_second ex_not_in_use(3,4)]
  have h: "handed_off socket_accepted \<noteq> handed_off socket_accepting"
    by (simp add: acc_defs)
  have c: "8 \<in> set (closed_fds (socket_accepted\<lparr>closed_fds := [8]\<rparr>))" by simp
  from a h have 1: "handed_off socket_accepted = handed_off socket_accepting @ [7] \<and>
          n_connections socket_accepted = n_connections socket_accepting + 1 \<and>
          7 \<notin> set (closed_fds socket_accepted) \<and> service_set_socket_fd env0 7 = Inr ()"
    by blast
  from b c have 2: "handed_off (socket_accepted\<lparr>closed_fds := [8]\<rparr>) = handed_off socket_accepted \<and>
     n_connections (socket_accepted\<lparr>closed_fds := [8]\<rparr>) = n_connections socket_accepted"
    by blast
  from 1 2 c ex_accept_first ex_accept_second show ?thesis by blast
qed

subsection \<open>Claim C6: the limit of connections\<close>

text \<open>
  Claim C6. When a connection arrives while
  \<^verbatim>\<open>n_connections\<close> has reached \<^verbatim>\<open>max_connections\<close>, \<^verbatim>\<open>socket_enter_running\<close>
  closes the accepted descriptor and changes nothing else: state, result, counters
  and ports are as before, nothing is handed over and no job is added.
\<close>

theorem socket_enter_running_refuses:
  assumes "0 \<le> cfd" and "n_connections s = max_connections s"
  shows "socket_enter_running e s cfd = Some (s\<lparr>closed_fds := closed_fds s @ [cfd]\<rparr>)"
  using assms by (simp add: socket_enter_running_def safe_close_def)

theorem socket_enter_running_refuses_witness:
  "socket_enter_running env0 socket_accepting 7 = Some socket_accepted \<and>
   max_connections socket_accepted = 1 \<and> n_connections socket_accepted = 1 \<and>
   socket_enter_running env0 socket_accepted 8 = Some (socket_accepted\<lparr>closed_fds := [8]\<rparr>) \<and>
   state (socket_accepted\<lparr>closed_fds := [8]\<rparr>) = SOCKET_LISTENING"
proof -
  have m: "n_connections socket_accepted = max_connections socket_accepted"
    by (simp add: acc_defs)
  have "socket_enter_running env0 socket_accepted 8
     = Some (socket_accepted\<lparr>closed_fds := closed_fds socket_accepted @ [8]\<rparr>)"
    by (rule socket_enter_running_refuses[OF _ m]) simp
  then show ?thesis
    by (simp add: ex_accept_first) (simp add: acc_defs)
qed

subsection \<open>Claim C7: a connection that is gone\<close>

lemma ex_enotconn:
  "instance_from_socket env_enotconn 7 (n_accepted (socket_accepting\<lparr>service := Some (service0\<lparr>no_gc := True\<rparr>)\<rparr>))
     = Some (Inl ENOTCONN)"
  "instance_from_socket env_eperm 7 (n_accepted (socket_accepting\<lparr>service := Some (service0\<lparr>no_gc := True\<rparr>)\<rparr>))
     = Some (Inl EPERM)"
  by (simp_all add: instance_from_socket_def env_enotconn_def env_eperm_def env0_def sockaddr0_def)

lemma ex_instantiate_fail:
  "socket_instantiate_service env_enotconn socket_accepting =
     Some (Inr (), socket_accepting\<lparr>service := Some (service0\<lparr>no_gc := True\<rparr>)\<rparr>)"
  "socket_instantiate_service env_eperm socket_accepting =
     Some (Inr (), socket_accepting\<lparr>service := Some (service0\<lparr>no_gc := True\<rparr>)\<rparr>)"
  by (simp_all add: socket_instantiate_service_def socket_accepting_def socket0_def
        env_enotconn_def env_eperm_def env0_def service0_def)

text \<open>
  Claim C7. When the service was instantiated and \<^verbatim>\<open>instance_from_socket\<close> fails:
  on \<^verbatim>\<open>ENOTCONN\<close> the accepted descriptor is closed and state, result, counters
  and ports are as before; on any other error the unit takes the failure path
  (\<^verbatim>\<open>socket_enter_stop_pre\<close> with \<^verbatim>\<open>SOCKET_FAILURE_RESOURCES\<close>): it holds a failure,
  is in \<^verbatim>\<open>SOCKET_STOP_PRE\<close> or later, the descriptor is closed and the counters are
  as before.
\<close>

theorem socket_enter_running_enotconn:
  assumes "\<not> unit_stop_pending e" and "0 \<le> cfd" and "n_connections s < max_connections s"
    and "socket_instantiate_service e s = Some (Inr u, s1)"
    and "instance_from_socket e cfd (n_accepted s1) = Some (Inl err)"
  shows "(err = ENOTCONN \<longrightarrow>
            (\<exists>s'. socket_enter_running e s cfd = Some s' \<and>
               state s' = state s \<and> result s' = result s \<and>
               n_accepted s' = n_accepted s \<and> n_connections s' = n_connections s \<and>
               ports s' = ports s \<and> handed_off s' = handed_off s \<and>
               closed_fds s' = closed_fds s @ [cfd])) \<and>
         (err \<noteq> ENOTCONN \<longrightarrow>
            socket_enter_running e s cfd = Some (socket_enter_running_fail e s1 cfd) \<and>
            result (socket_enter_running_fail e s1 cfd) \<noteq> SOCKET_SUCCESS \<and>
            5 \<le> state_rank (state (socket_enter_running_fail e s1 cfd)) \<and>
            cfd \<in> set (closed_fds (socket_enter_running_fail e s1 cfd)) \<and>
            n_accepted (socket_enter_running_fail e s1 cfd) = n_accepted s \<and>
            n_connections (socket_enter_running_fail e s1 cfd) = n_connections s)"
proof -
  from socket_instantiate_service_frame[OF assms(4)]
  have fr: "s1 = s\<lparr>service := service s1\<rparr>" .
  have f1: "closed_fds s1 = closed_fds s" "state s1 = state s" "result s1 = result s"
    "n_accepted s1 = n_accepted s" "n_connections s1 = n_connections s" "ports s1 = ports s"
    "handed_off s1 = handed_off s"
    by (subst fr, simp)+
  have eq: "socket_enter_running e s cfd =
     (if err \<noteq> ENOTCONN then Some (socket_enter_running_fail e s1 cfd)
      else Some (s1\<lparr>closed_fds := safe_close cfd (closed_fds s1)\<rparr>))"
    using assms by (simp add: socket_enter_running_def)
  show ?thesis
    using eq f1 assms(2) socket_enter_running_fail_fields[where e=e and s=s1 and cfd=cfd]
    by (simp add: safe_close_def)
qed

theorem socket_enter_running_enotconn_witness:
  "instance_from_socket env_enotconn 7 0 = Some (Inl ENOTCONN) \<and>
   state (the (socket_enter_running env_enotconn socket_accepting 7)) = SOCKET_LISTENING \<and>
   result (the (socket_enter_running env_enotconn socket_accepting 7)) = SOCKET_SUCCESS \<and>
   n_accepted (the (socket_enter_running env_enotconn socket_accepting 7)) = 0 \<and>
   n_connections (the (socket_enter_running env_enotconn socket_accepting 7)) = 0 \<and>
   closed_fds (the (socket_enter_running env_enotconn socket_accepting 7)) = [7] \<and>
   instance_from_socket env_eperm 7 0 = Some (Inl EPERM) \<and>
   result (the (socket_enter_running env_eperm socket_accepting 7)) \<noteq> SOCKET_SUCCESS \<and>
   5 \<le> state_rank (state (the (socket_enter_running env_eperm socket_accepting 7))) \<and>
   7 \<in> set (closed_fds (the (socket_enter_running env_eperm socket_accepting 7)))"
proof -
  have c: "\<not> unit_stop_pending env_enotconn" "\<not> unit_stop_pending env_eperm" "(0::int) \<le> 7"
    "n_connections socket_accepting < max_connections socket_accepting"
    by (simp_all add: env_enotconn_def env_eperm_def acc_defs)
  note a = socket_enter_running_enotconn[OF c(1) c(3) c(4) ex_instantiate_fail(1) ex_enotconn(1)]
  note b = socket_enter_running_enotconn[OF c(2) c(3) c(4) ex_instantiate_fail(2) ex_enotconn(2)]
  have v: "state socket_accepting = SOCKET_LISTENING" "result socket_accepting = SOCKET_SUCCESS"
    "n_accepted socket_accepting = 0" "n_connections socket_accepting = 0"
    "closed_fds socket_accepting = []"
    by (simp_all add: acc_defs)
  from a v have 1: "state (the (socket_enter_running env_enotconn socket_accepting 7)) = SOCKET_LISTENING \<and>
   result (the (socket_enter_running env_enotconn socket_accepting 7)) = SOCKET_SUCCESS \<and>
   n_accepted (the (socket_enter_running env_enotconn socket_accepting 7)) = 0 \<and>
   n_connections (the (socket_enter_running env_enotconn socket_accepting 7)) = 0 \<and>
   closed_fds (the (socket_enter_running env_enotconn socket_accepting 7)) = [7]"
    by auto
  from b have 2: "result (the (socket_enter_running env_eperm socket_accepting 7)) \<noteq> SOCKET_SUCCESS \<and>
   5 \<le> state_rank (state (the (socket_enter_running env_eperm socket_accepting 7))) \<and>
   7 \<in> set (closed_fds (the (socket_enter_running env_eperm socket_accepting 7)))"
    by simp
  from ex_enotconn v have 3: "instance_from_socket env_enotconn 7 0 = Some (Inl ENOTCONN)"
    "instance_from_socket env_eperm 7 0 = Some (Inl EPERM)" by simp_all
  from 1 2 3 show ?thesis by blast
qed

subsection \<open>Claim C8: opening all endpoints\<close>

lemma ex_open_fails:
  "socket_open_fds env_fifo_fails socket_two_ports =
     Some (RolledBack EEXIST,
           socket_two_ports\<lparr>ports := [special_port ''/dev/x'' (-1), fifo_port ''/run/y'' (-1)],
                             closed_fds := [5]\<rparr>)"
  by (simp add: socket_open_fds_def env_fifo_fails_def env0_def socket_two_ports_def socket0_def
        special_port_def fifo_port_def socket_close_fds_eq)

lemma ex_open_ok:
  "socket_open_fds env0 socket_two_ports =
     Some (Opened,
           socket_two_ports\<lparr>ports := [special_port ''/dev/x'' 5, fifo_port ''/run/y'' 4]\<rparr>)"
  by (simp add: socket_open_fds_def env0_def socket_two_ports_def socket0_def
        special_port_def fifo_port_def)

lemma ex_open_third_fails:
  "socket_open_fds env_third_fails socket_three_ports =
     Some (RolledBack EEXIST,
           socket_three_ports\<lparr>ports := [special_port ''/dev/x'' (-1), fifo_port ''/run/y'' (-1),
                                          fifo_port ''/run/z'' (-1)],
                               closed_fds := [5, 4]\<rparr>)"
  by (simp add: socket_open_fds_def env_third_fails_def env0_def socket_three_ports_def socket0_def
        special_port_def fifo_port_def socket_close_fds_eq)

lemma ex_three_ports:
  "length (ports socket_three_ports) = 3"
  "0 \<le> fd (ports socket_three_ports ! 0)"
  "port_create env_third_fails 1 (ports socket_three_ports ! 1) = Inr 4"
  "port_create env_third_fails 2 (ports socket_three_ports ! 2) = Inl EEXIST"
  "closed_fds socket_three_ports = []"
  "map fd (ports socket_three_ports) = [5, - 1, - 1]"
  by (simp_all add: socket_three_ports_def socket0_def special_port_def fifo_port_def
        port_create_def env_third_fails_def env0_def)




subsection \<open>Claim C9: the result item of the stream\<close>

lemma ex_serialize_success:
  "socket_serialize env0 (socket0 []) [] [] =
     (Inr (), [(''state'', ''dead''), (''result'', ''success''), (''n-accepted'', ''0'')], [])"
  by (simp add: socket_serialize_def unit_serialize_item_def exec_context_serialize_def Let_def
        socket0_def fmt_u_0)

text \<open>
  Claim C9, as the source has it. \<^verbatim>\<open>socket_serialize\<close> writes the \<^verbatim>\<open>result\<close> item
  whatever the result is: the stream continues with the state, the result and the
  counter of accepted connections, also when the function fails later. It is
  \<^verbatim>\<open>socket_deserialize_item\<close> that leaves the unit alone when the item read says
  \<^verbatim>\<open>success\<close>, and stores any other result.
\<close>

theorem socket_serialize_result:
  "(\<exists>g. fst (snd (socket_serialize e s f fds)) =
     f @ [(''state'', socket_state_to_string (state s)),
          (''result'', socket_result_to_string (result s)),
          (''n-accepted'', fmt_u (unat (n_accepted s)))] @ g) \<and>
   socket_deserialize_item e s' ''result'' (socket_result_to_string r) fds' =
     (Inr (), if r = SOCKET_SUCCESS then s' else s'\<lparr>result := r\<rparr>, fds')"
  using socket_serialize_head[of e s f fds]
  by (simp add: socket_deserialize_item_def)

theorem socket_serialize_result_witness:
  "result (socket0 []) = SOCKET_SUCCESS \<and>
   (''result'', ''success'') \<in> set (fst (snd (socket_serialize env0 (socket0 []) [] []))) \<and>
   socket_deserialize_item env0 (socket0 []) ''result'' ''success'' [] = (Inr (), socket0 [], []) \<and>
   socket_deserialize_item env0 (socket0 []) ''result'' ''timeout'' [] =
     (Inr (), (socket0 [])\<lparr>result := SOCKET_FAILURE_TIMEOUT\<rparr>, [])"
proof -
  have r: "result (socket0 []) = SOCKET_SUCCESS" by (simp add: socket0_def)
  from socket_serialize_result[where e=env0 and s="socket0 []" and f="[]" and fds="[]" and s'="socket0 []" and r=SOCKET_SUCCESS and fds'="[]"] r
  have a: "(''result'', ''success'') \<in> set (fst (snd (socket_serialize env0 (socket0 []) [] [])))"
    and b: "socket_deserialize_item env0 (socket0 []) ''result'' ''success'' [] = (Inr (), socket0 [], [])"
    by auto
  from socket_serialize_result[where e=env0 and s="socket0 []" and f="[]" and fds="[]" and s'="socket0 []" and r=SOCKET_FAILURE_TIMEOUT and fds'="[]"]
  have c: "socket_deserialize_item env0 (socket0 []) ''result'' ''timeout'' [] =
     (Inr (), (socket0 [])\<lparr>result := SOCKET_FAILURE_TIMEOUT\<rparr>, [])"
    by simp
  from r a b c show ?thesis by simp
qed

text \<open>
  The claim as stated fails: the stream of a unit whose result is
  \<^verbatim>\<open>SOCKET_SUCCESS\<close> has the item \<^verbatim>\<open>result=success\<close>.
\<close>

theorem socket_serialize_result_counterexample:
  "result (socket0 []) = SOCKET_SUCCESS \<and>
   socket_serialize env0 (socket0 []) [] [] =
     (Inr (), [(''state'', ''dead''), (''result'', ''success''), (''n-accepted'', ''0'')], [])"
  by (simp add: ex_serialize_success) (simp add: socket0_def)

subsection \<open>Claim C10: starting a failed unit\<close>

lemma ex_start_failed:
  "socket_start env0 socket_failed = Some (Inr (), socket_restarted)"
  by (simp add: socket_start_def socket_enter_start_pre_def socket_spawn_def socket_set_state_def
        socket_unwatch_control_pid_def socket_unwatch_fds_def socket_close_fds_eq Let_def
        socket_failed_def socket_restarted_def socket0_def env0_def service0_def)

text \<open>
  Claim C10. A start request accepted in \<^verbatim>\<open>SOCKET_DEAD\<close> or \<^verbatim>\<open>SOCKET_FAILED\<close>
  enters \<^verbatim>\<open>socket_enter_start_pre\<close> on the unit with its result set to
  \<^verbatim>\<open>SOCKET_SUCCESS\<close>: what follows does not depend on the result held before, and
  when the unit is in \<^verbatim>\<open>SOCKET_START_PRE\<close> afterwards its result is
  \<^verbatim>\<open>SOCKET_SUCCESS\<close>.
\<close>

theorem socket_start_resets_result:
  assumes "state s = SOCKET_DEAD \<or> state s = SOCKET_FAILED"
    and "socket_start e s = Some (Inr (), s')"
  shows "socket_enter_start_pre e (s\<lparr>result := SOCKET_SUCCESS\<rparr>) = Some s' \<and>
         socket_start e (s\<lparr>result := r\<rparr>) = Some (Inr (), s') \<and>
         result s' \<in> {SOCKET_SUCCESS, SOCKET_FAILURE_RESOURCES} \<and>
         (state s' = SOCKET_START_PRE \<longrightarrow> result s' = SOCKET_SUCCESS)"
proof -
  from assms have pre: "socket_enter_start_pre e (s\<lparr>result := SOCKET_SUCCESS\<rparr>) = Some s'"
    by (auto simp: socket_start_def split: if_splits option.splits)
  from assms have chk:
    "\<not> (case service s of None \<Rightarrow> False | Some sv \<Rightarrow> load_state sv \<noteq> UNIT_LOADED)"
    "\<not> (case service s of None \<Rightarrow> False
               | Some sv \<Rightarrow> service_state sv \<noteq> SERVICE_DEAD \<and>
                            service_state sv \<noteq> SERVICE_FAILED \<and>
                            service_state sv \<noteq> SERVICE_AUTO_RESTART)"
    "\<not> (case service s of None \<Rightarrow> False | Some sv \<Rightarrow> HAVE_SYSV_COMPAT e \<and> is_sysv sv)"
    by (auto simp: socket_start_def split: if_splits)
  from assms(1) chk pre have ind: "socket_start e (s\<lparr>result := r\<rparr>) = Some (Inr (), s')"
    by (auto simp: socket_start_def)
  from result_enter_start_pre[OF pre]
  have r: "result s' \<in> {SOCKET_SUCCESS, SOCKET_FAILURE_RESOURCES}" by simp
  have st: "result s' = SOCKET_SUCCESS" if "state s' = SOCKET_START_PRE"
    using result_enter_start_pre_state[OF pre that] by simp
  from pre ind r st show ?thesis by blast
qed

theorem socket_start_resets_result_witness:
  "state socket_failed = SOCKET_FAILED \<and> result socket_failed = SOCKET_FAILURE_TIMEOUT \<and>
   socket_start env0 socket_failed = Some (Inr (), socket_restarted) \<and>
   socket_enter_start_pre env0 (socket_failed\<lparr>result := SOCKET_SUCCESS\<rparr>) = Some socket_restarted \<and>
   socket_start env0 (socket_failed\<lparr>result := SOCKET_FAILURE_SIGNAL\<rparr>)
     = Some (Inr (), socket_restarted) \<and>
   state socket_restarted = SOCKET_START_PRE \<and> result socket_restarted = SOCKET_SUCCESS"
proof -
  have st: "state socket_failed = SOCKET_DEAD \<or> state socket_failed = SOCKET_FAILED"
    by (simp add: socket_failed_def)
  have sr: "state socket_restarted = SOCKET_START_PRE"
    by (simp add: socket_restarted_def)
  note t = socket_start_resets_result[OF st ex_start_failed, of SOCKET_FAILURE_SIGNAL]
  from t sr have "result socket_restarted = SOCKET_SUCCESS" by blast
  with t sr ex_start_failed show ?thesis
    by (simp add: socket_failed_def)
qed

end
